(* ===== verification/Prelude.thy ===== *)
theory Prelude
  imports Main "HOL-Library.AList" "HOL-Library.Sublist"
begin

text \<open>
  Shared vocabulary of the development.  It holds the fact collections, the error values that
  stand for JavaScript exceptions, the insertion-ordered key/value store that stands for both the
  JavaScript \<open>Map\<close> and a string-keyed object literal, and generic list lemmas that the component
  theories use through \<open>simp\<close> and \<open>auto\<close>.
\<close>

named_theorems js_defs \<open>definitions of the modelled JavaScript library functions\<close>
named_theorems store_simps \<open>how the ordered store answers lookups after updates\<close>


section \<open>Exceptions\<close>

text \<open>
  A thrown value.  \<open>err_name\<close> is the constructor name, \<open>err_code\<close> and \<open>err_syscall\<close> are the fields
  Node sets on system errors, \<open>err_status\<close> the HTTP status Axios attaches, \<open>err_axios\<close> what
  \<open>axios.isAxiosError\<close> answers, \<open>err_data\<close> the body of the Axios response when it is a string and
  \<open>err_error\<close> the property \<open>error\<close> some rejections carry.
\<close>

record js_error =
  err_name :: string
  err_message :: string
  err_code :: "string option"
  err_syscall :: "string option"
  err_status :: "nat option"
  err_axios :: bool
  err_data :: "string option"
  err_error :: "string option"

definition mk_error :: "string \<Rightarrow> js_error" where
  "mk_error msg = \<lparr>err_name = ''Error'', err_message = msg, err_code = None,
     err_syscall = None, err_status = None, err_axios = False, err_data = None, err_error = None\<rparr>"

definition assertion_error :: "string \<Rightarrow> js_error" where
  "assertion_error msg = (mk_error msg)\<lparr>err_name := ''AssertionError''\<rparr>"

definition type_error :: "string \<Rightarrow> js_error" where
  "type_error msg = (mk_error msg)\<lparr>err_name := ''TypeError''\<rparr>"

type_synonym 'a js_result = "js_error + 'a"

fun bind_res :: "'e + 'a \<Rightarrow> ('a \<Rightarrow> 'e + 'b) \<Rightarrow> 'e + 'b" where
  "bind_res (Inl e) f = Inl e"
| "bind_res (Inr x) f = f x"

lemma bind_res_Inr_iff [simp]:
  "bind_res r f = Inr y \<longleftrightarrow> (\<exists>x. r = Inr x \<and> f x = Inr y)"
  by (cases r) auto

lemma bind_res_Inl_iff:
  "bind_res r f = Inl e \<longleftrightarrow> r = Inl e \<or> (\<exists>x. r = Inr x \<and> f x = Inl e)"
  by (cases r) auto

text \<open>The nullish operator \<open>a ?? b\<close> on optional values, and truthiness of an optional string.\<close>

fun nullish :: "'a option \<Rightarrow> 'a option \<Rightarrow> 'a option" where
  "nullish None b = b"
| "nullish (Some a) b = Some a"

fun truthy :: "string option \<Rightarrow> bool" where
  "truthy None = False"
| "truthy (Some s) = (s \<noteq> [])"

lemma truthy_iff: "truthy v \<longleftrightarrow> (\<exists>s. v = Some s \<and> s \<noteq> [])"
  by (cases v) auto

lemma nullish_None_right [simp]: "nullish a None = a"
  by (cases a) auto

lemma nullish_assoc: "nullish (nullish a b) c = nullish a (nullish b c)"
  by (cases a) auto


section \<open>Insertion-ordered stores\<close>

text \<open>
  A JavaScript \<open>Map\<close>, and an object used as a dictionary, enumerate their entries in insertion
  order; writing an existing key keeps its place.  \<open>AList.update\<close> and \<open>AList.delete\<close> behave so.
\<close>

type_synonym ('k, 'v) store = "('k \<times> 'v) list"

abbreviation sget :: "('k, 'v) store \<Rightarrow> 'k \<Rightarrow> 'v option" where
  "sget m k \<equiv> map_of m k"

abbreviation sset :: "'k \<Rightarrow> 'v \<Rightarrow> ('k, 'v) store \<Rightarrow> ('k, 'v) store" where
  "sset k v m \<equiv> AList.update k v m"

abbreviation sdel :: "'k \<Rightarrow> ('k, 'v) store \<Rightarrow> ('k, 'v) store" where
  "sdel k m \<equiv> AList.delete k m"

abbreviation shas :: "('k, 'v) store \<Rightarrow> 'k \<Rightarrow> bool" where
  "shas m k \<equiv> map_of m k \<noteq> None"

abbreviation wf_store :: "('k, 'v) store \<Rightarrow> bool" where
  "wf_store m \<equiv> distinct (map fst m)"

text \<open>Object spread \<open>{...a, ...b}\<close>: the entries of \<open>b\<close> are written over those of \<open>a\<close>, in order.\<close>

definition spread :: "('k, 'v) store \<Rightarrow> ('k, 'v) store \<Rightarrow> ('k, 'v) store" where
  "spread a b = foldl (\<lambda>m (k, v). sset k v m) a b"

lemma sget_sset [simp, store_simps]: "sget (sset k v m) k' = (if k' = k then Some v else sget m k')"
  by (simp add: update_conv')

lemma sget_sdel [simp, store_simps]: "sget (sdel k m) k' = (if k' = k then None else sget m k')"
  by (simp add: delete_conv')

lemma wf_sset [simp, intro]: "wf_store m \<Longrightarrow> wf_store (sset k v m)"
  by (rule distinct_update)

lemma wf_sdel [simp, intro]: "wf_store m \<Longrightarrow> wf_store (sdel k m)"
  by (rule distinct_delete)

lemma sset_fresh: "sget m k = None \<Longrightarrow> sset k v m = m @ [(k, v)]"
  by (induction m) auto

lemma map_fst_sset: "map fst (sset k v m) = (if shas m k then map fst m else map fst m @ [k])"
  by (induction m) auto

lemma set_sset: "set (sset k v m) \<subseteq> insert (k, v) (set m)"
  by (induction m) auto

lemma spread_Nil [simp]: "spread a [] = a"
  by (simp add: spread_def)

lemma spread_snoc: "spread a (b @ [(k, v)]) = sset k v (spread a b)"
  by (simp add: spread_def)

lemma wf_spread [simp, intro]: "wf_store a \<Longrightarrow> wf_store (spread a b)"
  by (induction b rule: rev_induct) (auto simp: spread_snoc)

lemma spread_Nil_wf: "wf_store b \<Longrightarrow> spread [] b = b"
proof (induction b rule: rev_induct)
  case (snoc kv b)
  then show ?case by (cases kv) (simp add: spread_snoc sset_fresh map_of_eq_None_iff)
qed (simp add: spread_def)

lemma sget_spread:
  "sget (spread a b) k = (case map_of (rev b) k of None \<Rightarrow> sget a k | Some v \<Rightarrow> Some v)"
  by (induction b rule: rev_induct) (auto simp: spread_snoc)

lemma map_of_rev_wf: "wf_store b \<Longrightarrow> map_of (rev b) k = map_of b k"
  by (metis distinct_rev map_of_eqI map_of_inject_set rev_map set_rev)

lemma sget_spread_wf [store_simps]:
  "wf_store b \<Longrightarrow> sget (spread a b) k = nullish (sget b k) (sget a k)"
  by (auto simp: sget_spread map_of_rev_wf split: option.split)

lemma sset_commute_get:
  "k \<noteq> k' \<Longrightarrow> sget (sset k v (sset k' v' m)) = sget (sset k' v' (sset k v m))"
  by (auto simp: fun_eq_iff)

text \<open>
  The contract of a keyed store that the certificate cache, the script registry, the process table
  and the configuration reader rely on.  The client operation \<open>put_if_absent\<close> is the
  check-then-set the caches use.
\<close>

locale keyed_store =
  fixes empty :: 's
    and get :: "'s \<Rightarrow> 'k \<Rightarrow> 'v option"
    and put :: "'k \<Rightarrow> 'v \<Rightarrow> 's \<Rightarrow> 's"
    and del :: "'k \<Rightarrow> 's \<Rightarrow> 's"
    and inv :: "'s \<Rightarrow> bool"
  assumes get_empty: "get empty k = None"
    and get_put: "inv s \<Longrightarrow> get (put k v s) k' = (if k' = k then Some v else get s k')"
    and get_del: "inv s \<Longrightarrow> get (del k s) k' = (if k' = k then None else get s k')"
    and inv_empty: "inv empty"
    and inv_put: "inv s \<Longrightarrow> inv (put k v s)"
    and inv_del: "inv s \<Longrightarrow> inv (del k s)"
begin

definition put_if_absent :: "'k \<Rightarrow> 'v \<Rightarrow> 's \<Rightarrow> 's" where
  "put_if_absent k v s = (if get s k \<noteq> None then s else put k v s)"

lemma get_put_if_absent:
  "inv s \<Longrightarrow> get (put_if_absent k v s) k' =
     (if k' = k \<and> get s k = None then Some v else get s k')"
  by (auto simp: put_if_absent_def get_put)

lemma put_if_absent_keeps:
  "inv s \<Longrightarrow> get s k' = Some w \<Longrightarrow> get (put_if_absent k v s) k' = Some w"
  by (auto simp: get_put_if_absent)

lemma inv_put_if_absent: "inv s \<Longrightarrow> inv (put_if_absent k v s)"
  by (simp add: put_if_absent_def inv_put)

lemma put_if_absent_first_wins:
  assumes "inv s" and "get s k = None"
  shows "get (put_if_absent k w (put_if_absent k v s)) k = Some v"
  using assms by (simp add: get_put_if_absent inv_put_if_absent)

definition put_all :: "('k \<times> 'v) list \<Rightarrow> 's \<Rightarrow> 's" where
  "put_all kvs s = foldl (\<lambda>t (k, v). put k v t) s kvs"

lemma put_all_snoc: "put_all (kvs @ [(k, v)]) s = put k v (put_all kvs s)"
  by (simp add: put_all_def)

lemma inv_put_all: "inv s \<Longrightarrow> inv (put_all kvs s)"
  by (induction kvs rule: rev_induct) (auto simp: put_all_def inv_put)

lemma get_put_all:
  "inv s \<Longrightarrow> get (put_all kvs s) k = (case map_of (rev kvs) k of None \<Rightarrow> get s k | Some v \<Rightarrow> Some v)"
proof (induction kvs rule: rev_induct)
  case Nil
  then show ?case by (simp add: put_all_def)
next
  case (snoc kv kvs)
  then show ?case by (cases kv) (simp add: put_all_snoc get_put inv_put_all)
qed

end

interpretation js_map: keyed_store "[]" sget sset sdel wf_store
  by unfold_locales auto


section \<open>Transition systems\<close>

text \<open>
  The step relations of the development are related to their invariants in one way: each is shown to
  keep its invariant and then every state reached has it, and whatever a step keeps in such a state is
  kept from then on.
\<close>

lemmas start_reached = rtranclp.rtrancl_refl
lemmas step_reached = rtranclp.rtrancl_into_rtrancl

locale step_system =
  fixes step :: "'s \<Rightarrow> 's \<Rightarrow> bool"
    and inv :: "'s \<Rightarrow> bool"
  assumes step_inv: "inv s \<Longrightarrow> step s t \<Longrightarrow> inv t"
begin

lemma steps_inv: "step\<^sup>*\<^sup>* s t \<Longrightarrow> inv s \<Longrightarrow> inv t"
  by (induction rule: rtranclp_induct) (auto intro: step_inv)

lemma steps_stable:
  assumes "step\<^sup>*\<^sup>* s t" and "inv s" and "P s" and "\<And>s t. inv s \<Longrightarrow> step s t \<Longrightarrow> P s \<Longrightarrow> P t"
  shows "P t"
  using assms(1) steps_inv assms(2-4) by (induction rule: rtranclp_induct) blast+

lemma step_then_steps: "step s t \<Longrightarrow> step\<^sup>*\<^sup>* t u \<Longrightarrow> inv s \<Longrightarrow> inv u"
  using steps_inv step_inv by blast

end


section \<open>Lists\<close>

lemma find_Some_split:
  "List.find P xs = Some x \<longleftrightarrow>
     (\<exists>us vs. xs = us @ x # vs \<and> P x \<and> (\<forall>u \<in> set us. \<not> P u))"
proof (induction xs)
  case Nil
  then show ?case by simp
next
  case (Cons y ys)
  show ?case
  proof (cases "P y")
    case True
    then show ?thesis
      by (auto simp: Cons_eq_append_conv)
  next
    case False
    with Cons show ?thesis
      by (auto simp: Cons_eq_append_conv) (metis append_Cons set_ConsD)
  qed
qed

lemma find_Some_in: "List.find P xs = Some x \<Longrightarrow> x \<in> set xs \<and> P x"
  by (auto simp: find_Some_split)

lemma concat_singletons [simp]: "concat (map (\<lambda>x. [x]) xs) = xs"
  by (induction xs) auto

lemma takeWhile_stop: "\<not> P y \<Longrightarrow> takeWhile P (xs @ y # ys) = takeWhile P xs"
  by (induction xs) auto

lemma length_dropWhile_Suc [termination_simp]: "length (dropWhile P xs) < Suc (length xs)"
  by (simp add: length_dropWhile_le le_imp_less_Suc)

lemma dropWhile_all_iff: "dropWhile P xs = [] \<longleftrightarrow> (\<forall>x \<in> set xs. P x)"
  by (induction xs) auto

text \<open>Removing duplicates the way \<open>[...new Set(xs)]\<close> does: the first occurrence is kept.\<close>

fun uniq :: "'a list \<Rightarrow> 'a list" where
  "uniq [] = []"
| "uniq (x # xs) = x # uniq (filter (\<lambda>y. y \<noteq> x) xs)"

lemma set_uniq [simp]: "set (uniq xs) = set xs"
  by (induction xs rule: uniq.induct) auto

lemma distinct_uniq [simp]: "distinct (uniq xs)"
  by (induction xs rule: uniq.induct) auto

lemma uniq_Nil_iff [simp]: "uniq xs = [] \<longleftrightarrow> xs = []"
  by (cases xs) auto

end
