(* ===== verification/Js_Text.thy ===== *)
theory Js_Text
  imports Prelude
begin

text \<open>
  The JavaScript string functions the program calls.  A string is a list of characters and a
  character stands for one UTF-16 code unit below 256, so lengths and indices agree with the
  source's.  Case mapping and white space cover that range; the two letters whose upper case lies
  above it (U+00B5 and U+00FF) are left unchanged by \<open>toUpperCase\<close>.
\<close>

section \<open>Characters\<close>

abbreviation apos :: string where
  "apos \<equiv> [CHR 0x27]"

definition code :: "char \<Rightarrow> nat" where
  "code c = of_char c"

definition is_space :: "char \<Rightarrow> bool" where
  "is_space c \<longleftrightarrow> code c \<in> {9, 10, 11, 12, 13, 32, 160}"

definition is_digit :: "char \<Rightarrow> bool" where
  "is_digit c \<longleftrightarrow> 48 \<le> code c \<and> code c \<le> 57"

definition is_upper :: "char \<Rightarrow> bool" where
  "is_upper c \<longleftrightarrow> 65 \<le> code c \<and> code c \<le> 90"

definition is_lower :: "char \<Rightarrow> bool" where
  "is_lower c \<longleftrightarrow> 97 \<le> code c \<and> code c \<le> 122"

definition is_alpha :: "char \<Rightarrow> bool" where
  "is_alpha c \<longleftrightarrow> is_upper c \<or> is_lower c"

definition is_newline :: "char \<Rightarrow> bool" where
  "is_newline c \<longleftrightarrow> code c \<in> {10, 13}"

definition lower_char :: "char \<Rightarrow> char" where
  "lower_char c =
     (if is_upper c \<or> (192 \<le> code c \<and> code c \<le> 222 \<and> code c \<noteq> 215)
      then char_of (code c + 32) else c)"

definition upper_char :: "char \<Rightarrow> string" where
  "upper_char c =
     (if code c = 223 then ''SS''
      else if is_lower c \<or> (224 \<le> code c \<and> code c \<le> 254 \<and> code c \<noteq> 247)
      then [char_of (code c - 32)] else [c])"

definition toLowerCase :: "string \<Rightarrow> string" where
  "toLowerCase s = map lower_char s"

definition toUpperCase :: "string \<Rightarrow> string" where
  "toUpperCase s = concat (map upper_char s)"

lemmas char_class_defs = code_def is_space_def is_digit_def is_upper_def is_lower_def is_alpha_def
  is_newline_def

declare char_class_defs [js_defs] lower_char_def [js_defs] upper_char_def [js_defs]
  toLowerCase_def [js_defs] toUpperCase_def [js_defs]

lemma code_less [simp]: "code c < 256"
  by (simp add: code_def)

lemma code_char_of: "n < 256 \<Longrightarrow> code (char_of n) = n"
  by (simp add: code_def)

lemma lower_char_idem [simp]: "lower_char (lower_char c) = lower_char c"
proof (cases "is_upper c \<or> (192 \<le> code c \<and> code c \<le> 222 \<and> code c \<noteq> 215)")
  case True
  then have b: "code c + 32 < 256" by (auto simp: is_upper_def)
  from True have "lower_char c = char_of (code c + 32)" by (simp add: lower_char_def)
  moreover from True b have "\<not> is_upper (char_of (code c + 32))"
    and "\<not> (192 \<le> code (char_of (code c + 32)) \<and> code (char_of (code c + 32)) \<le> 222)"
    by (auto simp: is_upper_def code_char_of)
  ultimately show ?thesis by (auto simp: lower_char_def)
next
  case False
  then show ?thesis by (auto simp: lower_char_def)
qed

lemma toLowerCase_idem [simp]: "toLowerCase (toLowerCase s) = toLowerCase s"
  by (simp add: toLowerCase_def)

lemma length_toLowerCase [simp]: "length (toLowerCase s) = length s"
  by (simp add: toLowerCase_def)

lemma upper_char_fixed: "d \<in> set (upper_char c) \<Longrightarrow> upper_char d = [d]"
proof -
  assume d: "d \<in> set (upper_char c)"
  consider "code c = 223" | "code c \<noteq> 223" "is_lower c \<or> (224 \<le> code c \<and> code c \<le> 254 \<and> code c \<noteq> 247)"
    | "code c \<noteq> 223" "\<not> (is_lower c \<or> (224 \<le> code c \<and> code c \<le> 254 \<and> code c \<noteq> 247))" by blast
  then show ?thesis
  proof cases
    case 1
    with d show ?thesis by (auto simp: upper_char_def is_lower_def code_def)
  next
    case 2
    with d have "d = char_of (code c - 32)" by (simp add: upper_char_def)
    moreover have "code c - 32 < 256" by (meson code_less diff_le_self le_less_trans)
    ultimately have "code d = code c - 32" by (simp add: code_char_of)
    with 2 show ?thesis by (auto simp: upper_char_def is_lower_def)
  next
    case 3
    with d show ?thesis by (auto simp: upper_char_def)
  qed
qed

lemma toUpperCase_idem [simp]: "toUpperCase (toUpperCase s) = toUpperCase s"
proof -
  have "concat (map upper_char xs) = xs" if "\<forall>d \<in> set xs. upper_char d = [d]" for xs
    using that by (induction xs) auto
  then show ?thesis
    unfolding toUpperCase_def using upper_char_fixed by auto
qed


section \<open>Trimming\<close>

definition trim :: "string \<Rightarrow> string" where
  "trim s = rev (dropWhile is_space (rev (dropWhile is_space s)))"

declare trim_def [js_defs]

lemma dropWhile_rev_dropWhile:
  "dropWhile P (rev (dropWhile P (rev (dropWhile P s)))) = rev (dropWhile P (rev (dropWhile P s)))"
proof (cases "dropWhile P s")
  case Nil
  show ?thesis unfolding Nil by simp
next
  case (Cons c cs)
  then have c: "\<not> P c" by (metis hd_dropWhile list.distinct(1) list.sel(1))
  have "\<exists>us. rev (dropWhile P (rev (c # cs))) = c # us"
    using c by (auto simp: dropWhile_append intro: exI [of _ "rev (dropWhile P (rev cs))"])
  with Cons c show ?thesis by auto
qed

lemma trim_idem [simp]: "trim (trim s) = trim s"
  unfolding trim_def by (simp add: dropWhile_rev_dropWhile dropWhile_idem)

lemma trim_Nil [simp]: "trim [] = []"
  by (simp add: trim_def)


section \<open>Searching, splitting and joining\<close>

definition startsWith :: "string \<Rightarrow> string \<Rightarrow> bool" where
  "startsWith s p \<longleftrightarrow> prefix p s"

definition endsWith :: "string \<Rightarrow> string \<Rightarrow> bool" where
  "endsWith s p \<longleftrightarrow> prefix (rev p) (rev s)"

declare startsWith_def [js_defs] endsWith_def [js_defs]

text \<open>The text before and after the first occurrence of a separator.\<close>

fun cut_at :: "string \<Rightarrow> string \<Rightarrow> (string \<times> string) option" where
  "cut_at sep [] = (if sep = [] then Some ([], []) else None)"
| "cut_at sep (c # cs) =
     (if prefix sep (c # cs) then Some ([], drop (length sep) (c # cs))
      else map_option (\<lambda>(a, b). (c # a, b)) (cut_at sep cs))"

definition str_includes :: "string \<Rightarrow> string \<Rightarrow> bool" where
  "str_includes s p \<longleftrightarrow> cut_at p s \<noteq> None"

declare str_includes_def [js_defs]

lemma cut_at_Some: "cut_at sep s = Some (a, b) \<Longrightarrow> s = a @ sep @ b"
proof (induction s arbitrary: a)
  case Nil
  then show ?case by (simp split: if_splits)
next
  case (Cons c cs)
  show ?case
  proof (cases "prefix sep (c # cs)")
    case True
    with Cons.prems have "a = []" and "b = drop (length sep) (c # cs)" by auto
    moreover from True have "c # cs = sep @ drop (length sep) (c # cs)"
      by (metis append_eq_conv_conj prefix_def)
    ultimately show ?thesis by simp
  next
    case False
    with Cons show ?thesis by auto
  qed
qed

lemma cut_at_None_iff: "sep \<noteq> [] \<Longrightarrow> cut_at sep s = None \<longleftrightarrow> \<not> sublist sep s"
  by (induction s) (auto simp: sublist_Cons_right)

lemma str_includes_iff: "str_includes s p \<longleftrightarrow> sublist p s"
proof (cases "p = []")
  case True
  then show ?thesis by (cases s) (auto simp: str_includes_def)
next
  case False
  then show ?thesis using cut_at_None_iff [of p s] by (auto simp: str_includes_def)
qed

lemma cut_at_before_free:
  "sep \<noteq> [] \<Longrightarrow> cut_at sep s = Some (a, b) \<Longrightarrow> \<not> sublist sep a"
proof (induction s arbitrary: a)
  case Nil
  then show ?case by simp
next
  case (Cons c cs)
  show ?case
  proof (cases "prefix sep (c # cs)")
    case True
    with Cons.prems show ?thesis by simp
  next
    case False
    with Cons.prems obtain a' where a: "a = c # a'" and ih: "cut_at sep cs = Some (a', b)"
      by auto
    have "cs = a' @ sep @ b" using cut_at_Some [OF ih] .
    then have "\<not> prefix sep (c # a')"
      using False by (metis append_Cons prefix_append prefix_order.trans prefix_prefix)
    with Cons.IH [OF Cons.prems(1) ih] a show ?thesis by (simp add: sublist_Cons_right)
  qed
qed

lemma cut_at_shorter:
  "sep \<noteq> [] \<Longrightarrow> cut_at sep s = Some (a, b) \<Longrightarrow> length b < length s"
  using cut_at_Some [of sep s a b] by (cases sep) auto

text \<open>\<open>s.split(sep)\<close>; an empty separator splits into single characters.\<close>

function split_on :: "string \<Rightarrow> string \<Rightarrow> string list" where
  "split_on sep s =
     (if sep = [] then map (\<lambda>c. [c]) s
      else case cut_at sep s of None \<Rightarrow> [s] | Some (a, b) \<Rightarrow> a # split_on sep b)"
  by pat_completeness auto
termination
  by (relation "measure (\<lambda>(sep, s). length s)") (auto dest: cut_at_shorter)

declare split_on.simps [simp del]

lemma split_on_simps [simp]:
  "split_on [] s = map (\<lambda>c. [c]) s"
  "sep \<noteq> [] \<Longrightarrow> cut_at sep s = None \<Longrightarrow> split_on sep s = [s]"
  "sep \<noteq> [] \<Longrightarrow> cut_at sep s = Some (a, b) \<Longrightarrow> split_on sep s = a # split_on sep b"
  by (simp_all add: split_on.simps)

fun join :: "string \<Rightarrow> string list \<Rightarrow> string" where
  "join sep [] = []"
| "join sep [x] = x"
| "join sep (x # y # ys) = x @ sep @ join sep (y # ys)"

lemma join_Cons: "ys \<noteq> [] \<Longrightarrow> join sep (x # ys) = x @ sep @ join sep ys"
  by (cases ys) auto

lemma join_Nil_sep [simp]: "join [] xs = concat xs"
  by (induction "[] :: string" xs rule: join.induct) auto

lemma split_on_not_Nil: "sep \<noteq> [] \<Longrightarrow> split_on sep s \<noteq> []"
  by (cases "cut_at sep s") auto

theorem join_split_on: "join sep (split_on sep s) = s"
proof (cases "sep = []")
  case True
  then show ?thesis by simp
next
  case False
  then show ?thesis
  proof (induction "length s" arbitrary: s rule: less_induct)
    case less
    show ?case
    proof (cases "cut_at sep s")
      case None
      with less.prems show ?thesis by simp
    next
      case (Some ab)
      then obtain a b where ab: "cut_at sep s = Some (a, b)" by (cases ab) auto
      with less.hyps [OF cut_at_shorter [OF less.prems ab] less.prems] less.prems
      show ?thesis by (simp add: join_Cons split_on_not_Nil cut_at_Some [OF ab, symmetric])
    qed
  qed
qed

lemma split_on_part_free:
  "sep \<noteq> [] \<Longrightarrow> p \<in> set (split_on sep s) \<Longrightarrow> \<not> sublist sep p"
proof (induction "length s" arbitrary: s rule: less_induct)
  case less
  show ?case
  proof (cases "cut_at sep s")
    case None
    with less.prems show ?thesis by (simp add: cut_at_None_iff)
  next
    case (Some ab)
    then obtain a b where ab: "cut_at sep s = Some (a, b)" by (cases ab) auto
    with less.hyps [OF cut_at_shorter [OF less.prems(1) ab] less.prems(1)] less.prems
    show ?thesis by (auto dest: cut_at_before_free)
  qed
qed

lemma split_on_part_sublist:
  "sep \<noteq> [] \<Longrightarrow> p \<in> set (split_on sep s) \<Longrightarrow> sublist p s"
proof (induction "length s" arbitrary: s rule: less_induct)
  case less
  show ?case
  proof (cases "cut_at sep s")
    case None
    with less.prems show ?thesis by simp
  next
    case (Some ab)
    then obtain a b where ab: "cut_at sep s = Some (a, b)" by (cases ab) auto
    have s: "s = a @ sep @ b" by (rule cut_at_Some [OF ab])
    have "p = a \<or> sublist p b"
      using less.hyps [OF cut_at_shorter [OF less.prems(1) ab] less.prems(1)] less.prems ab by auto
    then show ?thesis unfolding s by (auto simp: sublist_append)
  qed
qed

text \<open>A character that is not in the separator keeps an occurrence from starting before it.\<close>

lemma prefix_before_char: "c \<notin> set sep \<Longrightarrow> prefix sep (b @ c # t) \<Longrightarrow> prefix sep b"
  by (auto simp: prefix_append prefix_Cons)

lemma cut_at_after_char:
  assumes "sep \<noteq> []" and "c \<notin> set sep" and "\<not> sublist sep b"
  shows "cut_at sep (b @ c # sep @ rest) = Some (b @ [c], rest)"
  using assms(3)
proof (induction b)
  case Nil
  have "cut_at sep (sep @ rest) = Some ([], rest)" using assms(1) by (cases sep) auto
  moreover have "\<not> prefix sep (c # sep @ rest)" using assms(1,2) by (cases sep) auto
  ultimately show ?case by simp
next
  case (Cons d b)
  then have "\<not> sublist sep b" "\<not> prefix sep (d # b)"
    by (auto simp: sublist_Cons_right)
  moreover from this(2) have "\<not> prefix sep (d # b @ c # sep @ rest)"
    using prefix_before_char [OF assms(2), of "d # b"] by auto
  ultimately show ?case using Cons.IH by simp
qed

text \<open>Replacing every occurrence, as \<open>s.split(sep).join(by)\<close> does.\<close>

definition replace_all :: "string \<Rightarrow> string \<Rightarrow> string \<Rightarrow> string" where
  "replace_all sep by s = join by (split_on sep s)"

lemma sublist_around_char:
  assumes "c \<notin> set t" and "sublist t (x @ c # y)"
  shows "sublist t x \<or> sublist t y"
proof -
  from assms(2) consider "sublist t x" | "sublist t (c # y)"
    | t1 t2 where "t = t1 @ t2" "suffix t1 x" "prefix t2 (c # y)"
    by (auto simp: sublist_append)
  then show ?thesis
  proof cases
    case 2
    with assms(1) show ?thesis
      by (cases t) (auto simp: sublist_Cons_right)
  next
    case 3
    with assms(1) have "t2 = []" by (cases t2) auto
    with 3 show ?thesis by auto
  qed simp
qed


text \<open>Splitting at a character.\<close>

lemma cut_at_char_None: "cut_at [c] a = None \<longleftrightarrow> c \<notin> set a"
  by (induction a) auto

lemma cut_at_char_first: "c \<notin> set a \<Longrightarrow> cut_at [c] (a @ c # b) = Some (a, b)"
  by (induction a) auto

lemma split_char_append: "split_on [c] (a @ c # b) = split_on [c] a @ split_on [c] b"
proof (induction "length a" arbitrary: a rule: less_induct)
  case less
  show ?case
  proof (cases "cut_at [c] a")
    case None
    then have "c \<notin> set a" by (simp add: cut_at_char_None)
    then have "cut_at [c] (a @ c # b) = Some (a, b)" by (induction a) auto
    with None show ?thesis by simp
  next
    case (Some xy)
    then obtain x y where xy: "cut_at [c] a = Some (x, y)" by (cases xy) auto
    then have "cut_at [c] (a @ c # b) = Some (x, y @ c # b)"
      by (induction a arbitrary: x) (auto split: if_splits)
    with xy less.hyps [OF cut_at_shorter [OF _ xy]] show ?thesis by simp
  qed
qed

lemma split_char_free: "c \<notin> set a \<Longrightarrow> split_on [c] a = [a]"
  by (simp add: cut_at_char_None)

lemma split_char_word:
  assumes "sublist (p @ c # w @ c # r) t" and "c \<notin> set w"
  shows "w \<in> set (split_on [c] t)"
proof -
  obtain a b where "t = (a @ p) @ c # w @ c # r @ b" using assms(1) by (auto simp: sublist_def)
  then have "split_on [c] t = split_on [c] (a @ p) @ split_on [c] w @ split_on [c] (r @ b)"
    by (simp only: split_char_append)
  then show ?thesis using assms(2) by (simp add: split_char_free)
qed


section \<open>Numbers in text\<close>

fun nat_str :: "nat \<Rightarrow> string" where
  "nat_str n = (if n < 10 then [char_of (48 + n)] else nat_str (n div 10) @ [char_of (48 + n mod 10)])"

declare nat_str.simps [simp del]

definition digits_val :: "string \<Rightarrow> nat" where
  "digits_val s = foldl (\<lambda>a c. 10 * a + (code c - 48)) 0 s"

lemma digits_val_snoc: "digits_val (s @ [c]) = 10 * digits_val s + (code c - 48)"
  by (simp add: digits_val_def)

lemma digits_val_single: "digits_val [c] = code c - 48"
  by (simp add: digits_val_def)

lemma digits_val_nat_str: "digits_val (nat_str n) = n"
proof (induction n rule: nat_str.induct)
  case (1 n)
  show ?case
  proof (cases "n < 10")
    case True
    then show ?thesis by (simp add: nat_str.simps [of n] digits_val_single code_char_of)
  next
    case False
    have c: "code (char_of (48 + n mod 10)) = 48 + n mod 10" by (rule code_char_of) simp
    from False have "digits_val (nat_str n) = 10 * digits_val (nat_str (n div 10)) + n mod 10"
      by (subst nat_str.simps) (simp only: digits_val_snoc c if_False add_diff_cancel_left')
    also have "digits_val (nat_str (n div 10)) = n div 10" using 1 False by simp
    finally show ?thesis by simp
  qed
qed

lemma nat_str_digits: "c \<in> set (nat_str n) \<Longrightarrow> is_digit c"
proof (induction n rule: nat_str.induct)
  case (1 n)
  have d: "is_digit (char_of (48 + m))" if "m < 10" for m :: nat
    using that by (simp add: is_digit_def code_char_of)
  show ?case
  proof (cases "n < 10")
    case True
    with 1(2) d [of n] show ?thesis by (simp add: nat_str.simps [of n])
  next
    case False
    with 1 d [of "n mod 10"] show ?thesis by (subst (asm) (2) nat_str.simps) auto
  qed
qed

lemma nat_str_inj: "nat_str m = nat_str n \<longleftrightarrow> m = n"
  by (metis digits_val_nat_str)

lemma nat_str_not_Nil [simp]: "nat_str n \<noteq> []"
  by (subst nat_str.simps) simp


section \<open>POSIX paths\<close>

definition strip_slashes :: "string \<Rightarrow> string" where
  "strip_slashes p = rev (dropWhile (\<lambda>c. c = CHR ''/'') (rev p))"

definition basename :: "string \<Rightarrow> string" where
  "basename p = rev (takeWhile (\<lambda>c. c \<noteq> CHR ''/'') (rev (strip_slashes p)))"

definition extname :: "string \<Rightarrow> string" where
  "extname p =
     (let b = basename p; ext = rev (takeWhile (\<lambda>c. c \<noteq> CHR ''.'') (rev b)) in
      if length ext + 1 < length b \<and> b \<noteq> ''..'' then CHR ''.'' # ext else [])"

definition path_dir :: "string \<Rightarrow> string" where
  "path_dir p =
     (let d = rev (dropWhile (\<lambda>c. c \<noteq> CHR ''/'') (rev (strip_slashes p))) in
      if d = ''/'' then d else butlast d)"

end
