(* ===== verification/Wildcards.thy ===== *)
theory Wildcards
  imports Js_Text
begin

text \<open>
  \<open>Helpers.wildcardToRegExp\<close> and \<open>Helpers.regExpEscape\<close> (\<open>src/Utils/Helpers.ts\<close>): a host wildcard is
  turned into the source text of an anchored regular expression.  The theory models the text the
  code builds, the part of the ECMAScript pattern grammar that text uses, and what \<open>RegExp.test\<close>
  answers for it.  The result is that escaping and splitting are right: the compiled expression
  accepts exactly the hosts the wildcard describes.  Every component that selects by host
  (scripts, client certificates, proxy and Kerberos domains) uses it through one interface.
\<close>

section \<open>The code\<close>

definition star :: char where
  "star = CHR ''*''"

definition backslash :: char where
  "backslash = CHR 0x5C"

definition re_special :: "char \<Rightarrow> bool" where
  "re_special c \<longleftrightarrow> c \<in> set (backslash # ''|{}()[]^$+*?.'')"

definition regExpEscape :: "string \<Rightarrow> string" where
  "regExpEscape s = concat (map (\<lambda>c. if re_special c then [backslash, c] else [c]) s)"

text \<open>\<open>s.split(/\*+/)\<close>: the pieces between maximal runs of stars.\<close>

fun split_stars :: "string \<Rightarrow> string list" where
  "split_stars [] = [[]]"
| "split_stars (c # cs) =
     (if c = star then [] # split_stars (dropWhile (\<lambda>d. d = star) cs)
      else case split_stars cs of [] \<Rightarrow> [[c]] | p # ps \<Rightarrow> (c # p) # ps)"

definition wildcardToRegExp :: "string \<Rightarrow> string" where
  "wildcardToRegExp s = ''^'' @ join ''.*'' (map regExpEscape (split_stars s)) @ ''$''"


section \<open>Regular expressions of that form\<close>

datatype re_item = Lit char | Any_Seq

fun re_items :: "string \<Rightarrow> re_item list option" where
  "re_items [] = None"
| "re_items (c # cs) =
     (if c = CHR ''$'' then (if cs = [] then Some [] else None)
      else if c = backslash then
        (case cs of [] \<Rightarrow> None
         | d # ds \<Rightarrow> if re_special d then map_option ((#) (Lit d)) (re_items ds) else None)
      else if c = CHR ''.'' then
        (case cs of [] \<Rightarrow> None
         | d # ds \<Rightarrow> if d = star then map_option ((#) Any_Seq) (re_items ds) else None)
      else if re_special c then None
      else map_option ((#) (Lit c)) (re_items cs))"

definition re_parse :: "string \<Rightarrow> re_item list option" where
  "re_parse src = (case src of c # cs \<Rightarrow> if c = CHR ''^'' then re_items cs else None | [] \<Rightarrow> None)"

text \<open>Matching anchored at both ends.  A dot matches every character but a line terminator.\<close>

function re_match :: "re_item list \<Rightarrow> string \<Rightarrow> bool" where
  "re_match [] s = (s = [])"
| "re_match (Lit c # r) s = (case s of [] \<Rightarrow> False | d # ds \<Rightarrow> c = d \<and> re_match r ds)"
| "re_match (Any_Seq # r) s =
     (re_match r s \<or> (case s of [] \<Rightarrow> False | d # ds \<Rightarrow> \<not> is_newline d \<and> re_match (Any_Seq # r) ds))"
  by pat_completeness auto
termination
  by (relation "measure (\<lambda>(r, s). length r + length s)") auto

definition re_test :: "string \<Rightarrow> string \<Rightarrow> bool" where
  "re_test src s = (case re_parse src of None \<Rightarrow> False | Some r \<Rightarrow> re_match r s)"


section \<open>What a wildcard means\<close>

inductive wild :: "string \<Rightarrow> string \<Rightarrow> bool" where
  wild_Nil: "wild [] []"
| wild_char: "c \<noteq> star \<Longrightarrow> wild p s \<Longrightarrow> wild (c # p) (c # s)"
| wild_star: "\<forall>d \<in> set u. \<not> is_newline d \<Longrightarrow> wild p s \<Longrightarrow> wild (star # p) (u @ s)"

inductive_cases wild_NilE [elim!]: "wild [] s"
inductive_cases wild_ConsE: "wild (c # p) s"

lemma wild_Nil_iff [simp]: "wild [] s \<longleftrightarrow> s = []"
  by (auto intro: wild.intros)

lemma wild_char_iff: "c \<noteq> star \<Longrightarrow> wild (c # p) s \<longleftrightarrow> (\<exists>t. s = c # t \<and> wild p t)"
  by (auto intro: wild.intros elim: wild_ConsE)

lemma wild_star_iff:
  "wild (star # p) s \<longleftrightarrow> (\<exists>u t. s = u @ t \<and> (\<forall>d \<in> set u. \<not> is_newline d) \<and> wild p t)"
  by (rule iffI, erule wild_ConsE, blast, blast, blast intro: wild_star)

lemma wild_star_star: "wild (star # star # p) s \<longleftrightarrow> wild (star # p) s"
proof
  assume "wild (star # star # p) s"
  then obtain u v t where "s = u @ v @ t" and nl: "\<forall>d \<in> set u. \<not> is_newline d"
    "\<forall>d \<in> set v. \<not> is_newline d" and t: "wild p t"
    unfolding wild_star_iff by blast
  moreover from nl have "\<forall>d \<in> set (u @ v). \<not> is_newline d" by auto
  ultimately show "wild (star # p) s"
    using wild_star [of "u @ v" p t] t by simp
next
  assume "wild (star # p) s"
  then show "wild (star # star # p) s"
    using wild_star [of "[]" "star # p" s] by simp
qed

lemma wild_drop_stars: "wild (star # dropWhile (\<lambda>d. d = star) p) s \<longleftrightarrow> wild (star # p) s"
proof (induction p)
  case Nil
  show ?case by simp
next
  case (Cons c p)
  then show ?case by (cases "c = star") (simp_all add: wild_star_star)
qed


section \<open>The compiled expression accepts exactly what the wildcard describes\<close>

fun wild_items :: "string \<Rightarrow> re_item list" where
  "wild_items [] = []"
| "wild_items (c # cs) =
     (if c = star then Any_Seq # wild_items (dropWhile (\<lambda>d. d = star) cs)
      else Lit c # wild_items cs)"

lemma split_stars_not_Nil [simp]: "split_stars s \<noteq> []"
  by (cases s) (auto split: list.splits)

lemma special_chars [simp]:
  "re_special star" "re_special backslash" "re_special CHR ''$''" "re_special CHR ''.''"
  "backslash \<noteq> CHR ''$''" "CHR ''.'' \<noteq> CHR ''$''" "CHR ''.'' \<noteq> backslash"
  "star = CHR ''*'' \<longleftrightarrow> True"
  by (simp_all add: re_special_def star_def backslash_def)

lemma re_items_escape:
  "re_items (regExpEscape p @ rest) = map_option (\<lambda>r. map Lit p @ r) (re_items rest)"
proof (induction p)
  case Nil
  then show ?case by (simp add: regExpEscape_def option.map_ident)
next
  case (Cons c p)
  have step: "regExpEscape (c # p) = (if re_special c then [backslash, c] else [c]) @ regExpEscape p"
    by (simp add: regExpEscape_def)
  have "re_items (regExpEscape (c # p) @ rest)
      = map_option ((#) (Lit c)) (re_items (regExpEscape p @ rest))"
  proof (cases "re_special c")
    case True
    then show ?thesis unfolding step by simp
  next
    case False
    then have "c \<noteq> CHR ''$''" "c \<noteq> backslash" "c \<noteq> CHR ''.''"
      using special_chars by metis+
    with False show ?thesis unfolding step by simp
  qed
  with Cons.IH show ?case by (simp add: option.map_comp comp_def)
qed

lemma re_items_any: "re_items (''.*'' @ rest) = map_option ((#) Any_Seq) (re_items rest)"
  by (simp add: star_def)

lemma re_items_compiled:
  "re_items (join ''.*'' (map regExpEscape (split_stars w)) @ ''$'') = Some (wild_items w)"
proof (induction w rule: wild_items.induct)
  case 1
  then show ?case by (simp add: regExpEscape_def)
next
  case (2 c cs)
  show ?case
  proof (cases "c = star")
    case True
    let ?ds = "dropWhile (\<lambda>d. d = star) cs"
    have "join ''.*'' (map regExpEscape (split_stars (c # cs)))
        = ''.*'' @ join ''.*'' (map regExpEscape (split_stars ?ds))"
      using True by (simp add: join_Cons regExpEscape_def)
    then have "re_items (join ''.*'' (map regExpEscape (split_stars (c # cs))) @ ''$'')
        = map_option ((#) Any_Seq)
            (re_items (join ''.*'' (map regExpEscape (split_stars ?ds)) @ ''$''))"
      by (simp only: append_assoc re_items_any)
    with 2(1) [OF True] True show ?thesis by simp
  next
    case False
    obtain p ps where ps: "split_stars cs = p # ps"
      by (cases "split_stars cs") auto
    have "regExpEscape (c # p) = regExpEscape [c] @ regExpEscape p"
      by (simp add: regExpEscape_def)
    then have "join ''.*'' (map regExpEscape (split_stars (c # cs)))
        = regExpEscape [c] @ join ''.*'' (map regExpEscape (split_stars cs))"
      using False ps by (cases ps) auto
    then have "re_items (join ''.*'' (map regExpEscape (split_stars (c # cs))) @ ''$'')
        = map_option (\<lambda>r. map Lit [c] @ r)
            (re_items (join ''.*'' (map regExpEscape (split_stars cs)) @ ''$''))"
      by (simp only: append_assoc re_items_escape)
    with 2(2) [OF False] False show ?thesis by simp
  qed
qed

declare re_match.simps(3) [simp del]

lemma re_match_any_seq:
  "re_match (Any_Seq # r) s \<longleftrightarrow>
     (\<exists>u t. s = u @ t \<and> (\<forall>d \<in> set u. \<not> is_newline d) \<and> re_match r t)"
proof (induction s)
  case Nil
  then show ?case by (simp add: re_match.simps(3))
next
  case (Cons d ds)
  have unfold: "re_match (Any_Seq # r) (d # ds) \<longleftrightarrow>
      re_match r (d # ds) \<or> (\<not> is_newline d \<and> re_match (Any_Seq # r) ds)"
    by (subst re_match.simps(3)) simp
  show ?case (is "?L = ?R")
  proof
    assume ?L
    then consider "re_match r (d # ds)" | "\<not> is_newline d" "re_match (Any_Seq # r) ds"
      using unfold by auto
    then show ?R
    proof cases
      case 1
      then show ?thesis by (intro exI [of _ "[]"] exI [of _ "d # ds"]) simp
    next
      case 2
      with Cons.IH obtain u t where "ds = u @ t" "\<forall>d \<in> set u. \<not> is_newline d" "re_match r t"
        by auto
      with 2 show ?thesis by (intro exI [of _ "d # u"] exI [of _ t]) simp
    qed
  next
    assume ?R
    then obtain u t where ut: "d # ds = u @ t" "\<forall>d \<in> set u. \<not> is_newline d" "re_match r t"
      by auto
    show ?L
    proof (cases u)
      case Nil
      with ut unfold show ?thesis by simp
    next
      case (Cons e us)
      with ut have "re_match (Any_Seq # r) ds" unfolding Cons.IH by auto
      with Cons ut unfold show ?thesis by auto
    qed
  qed
qed

lemma re_match_wild: "re_match (wild_items w) s \<longleftrightarrow> wild w s"
proof (induction w arbitrary: s rule: wild_items.induct)
  case 1
  then show ?case by simp
next
  case (2 c cs)
  show ?case
  proof (cases "c = star")
    case True
    let ?ds = "dropWhile (\<lambda>d. d = star) cs"
    from 2(1) [OF True] True have "re_match (wild_items (c # cs)) s \<longleftrightarrow> wild (star # ?ds) s"
      by (simp add: re_match_any_seq wild_star_iff)
    with True show ?thesis by (simp add: wild_drop_stars)
  next
    case False
    with 2(2) [OF False] show ?thesis
      by (auto simp: wild_char_iff split: list.splits)
  qed
qed

lemma re_test_wildcard: "re_test (wildcardToRegExp w) s \<longleftrightarrow> wild w s"
  by (simp add: re_test_def re_parse_def wildcardToRegExp_def re_items_compiled re_match_wild)


section \<open>The interface host selection relies on\<close>

locale host_pattern =
  fixes compile :: "string \<Rightarrow> 'p"
    and test :: "'p \<Rightarrow> string \<Rightarrow> bool"
  assumes test_compile: "test (compile w) h \<longleftrightarrow> wild w h"
begin

definition selects :: "string list \<Rightarrow> string \<Rightarrow> bool" where
  "selects ws h \<longleftrightarrow> list_ex (\<lambda>p. test p h) (map compile ws)"

lemma selects_iff: "selects ws h \<longleftrightarrow> (\<exists>w \<in> set ws. wild w h)"
  by (auto simp: selects_def list_ex_iff test_compile)

lemma test_star: "\<forall>d \<in> set h. \<not> is_newline d \<Longrightarrow> test (compile [star]) h"
  by (auto simp: test_compile wild_star_iff)

lemma test_self: "\<forall>d \<in> set w. \<not> is_newline d \<Longrightarrow> test (compile w) w"
  unfolding test_compile
proof (induction w)
  case Nil
  show ?case by simp
next
  case (Cons c w)
  then have w: "wild w w" and c: "\<not> is_newline c" by simp_all
  show ?case
  proof (cases "c = star")
    case True
    have "wild (star # w) ([c] @ w)" by (rule wild_star) (use c w in simp_all)
    with True show ?thesis by simp
  next
    case False
    then show ?thesis using w by (rule wild_char)
  qed
qed

lemma test_plain: "star \<notin> set w \<Longrightarrow> test (compile w) h \<longleftrightarrow> h = w"
  unfolding test_compile
proof (induction w arbitrary: h)
  case Nil
  show ?case by simp
next
  case (Cons c w)
  then have "c \<noteq> star" by auto
  with Cons show ?case by (simp add: wild_char_iff)
qed

lemma test_suffix_domain:
  assumes "star \<notin> set d" and "\<forall>c \<in> set sub. \<not> is_newline c"
  shows "test (compile (star # d)) (sub @ d)"
proof -
  have "wild d d" using test_plain [OF assms(1)] by (simp add: test_compile)
  with assms(2) show ?thesis unfolding test_compile by (rule wild_star)
qed

end

interpretation host_re: host_pattern wildcardToRegExp re_test
  by unfold_locales (rule re_test_wildcard)

text \<open>
  C39. The regular expression built from a wildcard means what the wildcard means: it matches a text exactly if the
  text is the wildcard with each star replaced by characters other than line terminators, all other characters of
  the wildcard, also those that are special in expressions, standing for themselves.
\<close>

theorem wildcard_equivalence: "re_test (wildcardToRegExp w) s \<longleftrightarrow> wild w s"
  by (rule re_test_wildcard)

end
