(* ===== verification/Helpers.thy ===== *)
theory Helpers
  imports Wildcards
begin

text \<open>
  The class \<open>Helpers\<close> of \<open>src/Utils/Helpers.ts\<close>: identifier checks, cluster addresses, the command
  line used to re-launch the program, header parsing, chunking and small object utilities.  The
  bounded worker pool has its own theory.  The WHATWG URL parser, \<open>path.normalize\<close> and
  \<open>decodeURIComponent\<close> of the runtime are arguments of the definitions that call them.
\<close>

section \<open>URLs\<close>

record url =
  url_protocol :: string
  url_host :: string
  url_hostname :: string
  url_port :: string

type_synonym url_parser = "string \<Rightarrow> url option"

definition portFromURL :: "url \<Rightarrow> string" where
  "portFromURL u =
     (if url_port u \<noteq> [] then url_port u
      else if url_protocol u = ''http:'' then ''80''
      else if url_protocol u = ''https:'' then ''443'' else [])"


section \<open>Identifiers\<close>

definition is_hex :: "char \<Rightarrow> bool" where
  "is_hex c \<longleftrightarrow> is_digit c \<or> lower_char c \<in> set ''abcdef''"

definition uuid_pattern :: "(char \<Rightarrow> bool) list" where
  "uuid_pattern =
     replicate 8 is_hex @ [\<lambda>c. c = CHR ''-''] @ replicate 4 is_hex @ [\<lambda>c. c = CHR ''-''] @
     (\<lambda>c. c \<in> set ''12345'') # replicate 3 is_hex @ [\<lambda>c. c = CHR ''-''] @
     (\<lambda>c. lower_char c \<in> set ''89ab'') # replicate 3 is_hex @ [\<lambda>c. c = CHR ''-''] @
     replicate 12 is_hex"

definition isUUID :: "string \<Rightarrow> bool js_result" where
  "isUUID s =
     (if s = [] then Inl (assertion_error ''Value must be string'')
      else Inr (list_all2 (\<lambda>p c. p c) uuid_pattern s))"

definition short_uuid_char :: "char \<Rightarrow> bool" where
  "short_uuid_char c \<longleftrightarrow> (is_digit c \<and> c \<noteq> CHR ''0'') \<or> is_alpha c"

definition isShortUUID :: "string \<Rightarrow> bool js_result" where
  "isShortUUID s =
     (if s = [] then Inl (assertion_error ''Value must be string'')
      else Inr (10 \<le> length s \<and> length s \<le> 22 \<and> list_all short_uuid_char s))"


section \<open>Cluster addresses\<close>

record cluster_args =
  ca_cluster :: "string option"
  ca_hostname :: "string option"

record cluster_urls =
  cu_api :: string
  cu_repeaterServer :: string

definition getClusterUrls :: "url_parser \<Rightarrow> cluster_args \<Rightarrow> cluster_urls" where
  "getClusterUrls parse args =
     (case nullish (ca_cluster args) (ca_hostname args) of
        None \<Rightarrow> \<lparr>cu_api = ''https://app.brightsec.com'',
                 cu_repeaterServer = ''wss://app.brightsec.com/workstations''\<rparr>
      | Some hostname \<Rightarrow>
          if hostname = [] then
            \<lparr>cu_api = ''https://app.brightsec.com'',
             cu_repeaterServer = ''wss://app.brightsec.com/workstations''\<rparr>
          else
            let host = (case parse hostname of None \<Rightarrow> hostname | Some u \<Rightarrow> url_host u) in
            if host \<in> {''localhost'', ''127.0.0.1''} then
              \<lparr>cu_api = ''http://'' @ host @ '':8000'',
               cu_repeaterServer = ''ws://'' @ host @ '':8000/workstations''\<rparr>
            else
              \<lparr>cu_api = ''https://'' @ host,
               cu_repeaterServer = ''wss://'' @ host @ ''/workstations''\<rparr>)"


section \<open>Re-launching the program\<close>

record process_env =
  pe_argv :: "string list"
  pe_execArgv :: "string list"
  pe_execPath :: string
  pe_platform :: string
  pe_pkg_entrypoint :: "string option"

record exec_options =
  eo_exclude :: "string list option"
  eo_include :: "string list option"
  eo_excludeAll :: "bool option"
  eo_escape :: "bool option"
  eo_spawn :: "bool option"

record command_args =
  cmd_command :: string
  cmd_args :: "string list"
  cmd_shell :: bool
  cmd_verbatim :: bool

definition quote :: char where
  "quote = CHR 0x22"

definition meta_char :: "char \<Rightarrow> bool" where
  "meta_char c \<longleftrightarrow> c \<in> set (quote # ''()][%!^`<>&|;, *?'')"

text \<open>\<open>val.replace(/(\\*)"/g, '$1$1\\"')\<close>, scanning with the number of pending backslashes.\<close>

fun double_before_quotes :: "nat \<Rightarrow> string \<Rightarrow> string" where
  "double_before_quotes n [] = replicate n backslash"
| "double_before_quotes n (c # cs) =
     (if c = backslash then double_before_quotes (Suc n) cs
      else if c = quote then replicate (2 * n) backslash @ [backslash, quote] @ double_before_quotes 0 cs
      else replicate n backslash @ c # double_before_quotes 0 cs)"

text \<open>\<open>val.replace(/(\\*)$/, '$1$1')\<close>.\<close>

definition double_trailing :: "string \<Rightarrow> string" where
  "double_trailing s = s @ takeWhile (\<lambda>c. c = backslash) (rev s)"

definition caret_escape :: "string \<Rightarrow> string" where
  "caret_escape s = concat (map (\<lambda>c. if meta_char c then [CHR ''^'', c] else [c]) s)"

definition escapeShellArgument :: "string \<Rightarrow> string" where
  "escapeShellArgument v =
     caret_escape ([quote] @ double_trailing (double_before_quotes 0 v) @ [quote])"

definition getExecArgs :: "(string \<Rightarrow> string) \<Rightarrow> process_env \<Rightarrow> exec_options \<Rightarrow> command_args" where
  "getExecArgs norm_path env opts =
     (let escape = (case eo_escape opts of None \<Rightarrow> True | Some b \<Rightarrow> b);
          excludeAll = (case eo_excludeAll opts of None \<Rightarrow> False | Some b \<Rightarrow> b);
          spawned = (case eo_spawn opts of None \<Rightarrow> False | Some b \<Rightarrow> b);
          args0 = drop 1 (pe_argv env);
          args1 = (if excludeAll then take 1 args0 else args0);
          args2 = (case eo_include opts of None \<Rightarrow> args1 | Some inc \<Rightarrow> args1 @ inc);
          args3 = (case eo_exclude opts of None \<Rightarrow> args2
                   | Some exc \<Rightarrow> filter (\<lambda>x. x \<notin> set exc) args2);
          args4 = filter (\<lambda>arg. case pe_pkg_entrypoint env of None \<Rightarrow> True
                     | Some ep \<Rightarrow> spawned \<or> \<not> startsWith arg ep) (pe_execArgv env @ args3);
          command = norm_path (pe_execPath env);
          shell = (pe_platform env = ''win32'');
          verbatim = (shell \<and> escape)
      in \<lparr>cmd_command = (if verbatim then [quote] @ command @ [quote] else command),
          cmd_args = (if verbatim then map escapeShellArgument args4 else args4),
          cmd_shell = shell,
          cmd_verbatim = verbatim\<rparr>)"

record spawn_call =
  sp_command :: string
  sp_args :: "string list"
  sp_shell :: bool
  sp_verbatim :: bool
  sp_detached :: bool
  sp_windowsHide :: bool

definition spawn ::
  "(string \<Rightarrow> string) \<Rightarrow> process_env \<Rightarrow> string list option \<Rightarrow> string list option \<Rightarrow> bool \<Rightarrow> spawn_call"
where
  "spawn norm_path env exclude incl detached =
     (let c = getExecArgs norm_path env
                \<lparr>eo_exclude = exclude, eo_include = incl, eo_excludeAll = Some True,
                 eo_escape = None, eo_spawn = Some True\<rparr>
      in \<lparr>sp_command = cmd_command c, sp_args = cmd_args c, sp_shell = cmd_shell c,
          sp_verbatim = cmd_verbatim c, sp_detached = (\<not> cmd_shell c \<and> detached),
          sp_windowsHide = (cmd_shell c \<and> detached)\<rparr>)"


section \<open>Objects, lists and headers\<close>

definition selectEnumValue :: "(string, string) store \<Rightarrow> string \<Rightarrow> string option" where
  "selectEnumValue enum v =
     List.find (\<lambda>x. trim (toLowerCase x) = trim (toLowerCase v)) (map snd enum)"

text \<open>A \<open>None\<close> value stands for \<open>null\<close> or \<open>undefined\<close>.\<close>

definition omit :: "('k, 'v option) store \<Rightarrow> ('k, 'v) store" where
  "omit data = foldl (\<lambda>acc (k, v). case v of None \<Rightarrow> acc | Some x \<Rightarrow> sset k x acc) [] data"

definition range_error :: js_error where
  "range_error = (mk_error ''Invalid array length'')\<lparr>err_name := ''RangeError''\<rparr>"

definition ceil_div :: "nat \<Rightarrow> nat \<Rightarrow> nat" where
  "ceil_div n d = (n + d - 1) div d"

definition split_chunks :: "'a list \<Rightarrow> nat \<Rightarrow> 'a list list js_result" where
  "split_chunks array count =
     (if count = 0 then Inl range_error
      else Inr (map (\<lambda>i. take count (drop (i * count) array)) [0 ..< ceil_div (length array) count]))"

definition toArray :: "('k, 'v) store \<Rightarrow> 'v list" where
  "toArray enumeration = map snd enumeration"

type_synonym uri_decoder = "string \<Rightarrow> string js_result"

definition parseHeader :: "uri_decoder \<Rightarrow> string \<Rightarrow> (string \<times> string) option js_result" where
  "parseHeader decode header =
     (if header = [] then Inr None
      else case split_on '':'' header of
        [] \<Rightarrow> Inr None
      | key # values \<Rightarrow>
          bind_res (decode (trim key)) (\<lambda>k.
          bind_res (decode (trim (join '':'' values))) (\<lambda>v. Inr (Some (k, v)))))"

fun parse_headers_from ::
  "uri_decoder \<Rightarrow> (string, string) store \<Rightarrow> string list \<Rightarrow> (string, string) store js_result"
where
  "parse_headers_from decode acc [] = Inr acc"
| "parse_headers_from decode acc (h # hs) =
     bind_res (parseHeader decode h) (\<lambda>kv.
       case kv of None \<Rightarrow> Inl (type_error ''undefined is not iterable'')
       | Some (k, v) \<Rightarrow> parse_headers_from decode (sset k v acc) hs)"

definition parseHeaders :: "uri_decoder \<Rightarrow> string list \<Rightarrow> (string, string) store js_result" where
  "parseHeaders decode headers = parse_headers_from decode [] headers"


section \<open>TLS failures\<close>

definition OPENSSL_CODES :: "string list" where
  "OPENSSL_CODES = [''CERT_HAS_EXPIRED'', ''CERT_NOT_YET_VALID'', ''DEPTH_ZERO_SELF_SIGNED_CERT'',
     ''SELF_SIGNED_CERT_IN_CHAIN'', ''UNABLE_TO_VERIFY_LEAF_SIGNATURE'',
     ''UNABLE_TO_GET_ISSUER_CERT_LOCALLY'', ''UNABLE_TO_GET_ISSUER_CERT'', ''HOSTNAME_MISMATCH'',
     ''CERT_REJECTED'', ''CERT_UNTRUSTED'']"

definition isTlsCertError :: "js_error \<Rightarrow> bool" where
  "isTlsCertError e =
     (case err_code e of
        None \<Rightarrow> False
      | Some c \<Rightarrow> c \<noteq> [] \<and>
          (startsWith c ''ERR_TLS_'' \<or> c = ''ECONNRESET'' \<or> List.member OPENSSL_CODES c))"


section \<open>What Windows makes of an escaped argument\<close>

text \<open>
  The reading side.  \<open>cmd_unescape\<close> is what \<open>cmd.exe\<close> does to carets outside quotes (every quote the
  code emits is itself escaped by a caret, so no quoted region opens), and \<open>win_args\<close> is the
  documented argument splitting of \<open>CommandLineToArgvW\<close>: \<open>2n\<close> backslashes before a quote give \<open>n\<close>
  backslashes and toggle quoting, \<open>2n+1\<close> give \<open>n\<close> backslashes and a literal quote, and blanks outside
  quotes end an argument.
\<close>

fun cmd_unescape :: "string \<Rightarrow> string" where
  "cmd_unescape [] = []"
| "cmd_unescape [c] = [c]"
| "cmd_unescape (c # d # ds) =
     (if c = CHR ''^'' then d # cmd_unescape ds else c # cmd_unescape (d # ds))"

fun win_args :: "nat \<Rightarrow> bool \<Rightarrow> string \<Rightarrow> bool \<Rightarrow> string \<Rightarrow> string list" where
  "win_args n q cur started [] =
     (if started \<or> 0 < n then [cur @ replicate n backslash] else [])"
| "win_args n q cur started (c # cs) =
     (if c = backslash then win_args (Suc n) q cur started cs
      else if c = quote then
        (if even n then win_args 0 (\<not> q) (cur @ replicate (n div 2) backslash) True cs
         else win_args 0 q (cur @ replicate (n div 2) backslash @ [quote]) True cs)
      else if \<not> q \<and> (c = CHR '' '' \<or> c = CHR 0x09) then
        (if started \<or> 0 < n then (cur @ replicate n backslash) # win_args 0 False [] False cs
         else win_args 0 False [] False cs)
      else win_args 0 q (cur @ replicate n backslash @ [c]) True cs)"

definition command_line_args :: "string \<Rightarrow> string list" where
  "command_line_args line = win_args 0 False [] False (cmd_unescape line)"

lemma quote_backslash [simp]: "quote \<noteq> backslash" "backslash \<noteq> quote"
  by (simp_all add: quote_def backslash_def)

lemma blank_neq [simp]:
  "CHR '' '' \<noteq> quote" "CHR '' '' \<noteq> backslash" "quote \<noteq> CHR '' ''" "CHR 0x09 \<noteq> quote"
  "quote \<noteq> CHR ''\<newline>''"
  by (simp_all add: quote_def backslash_def)

lemma cmd_unescape_Cons: "c \<noteq> CHR ''^'' \<Longrightarrow> cmd_unescape (c # s) = c # cmd_unescape s"
  by (cases s) auto

lemma cmd_unescape_caret: "cmd_unescape (caret_escape s @ r) = s @ cmd_unescape r"
proof (induction s)
  case Nil
  then show ?case by (simp add: caret_escape_def)
next
  case (Cons c s)
  have "cmd_unescape (caret_escape (c # s) @ r) = c # cmd_unescape (caret_escape s @ r)"
  proof (cases "meta_char c")
    case True
    then show ?thesis by (simp add: caret_escape_def)
  next
    case False
    then have "c \<noteq> CHR ''^''" by (auto simp: meta_char_def)
    with False show ?thesis by (simp add: caret_escape_def cmd_unescape_Cons)
  qed
  with Cons.IH show ?case by simp
qed

lemma double_trailing_Cons:
  "c \<noteq> backslash \<Longrightarrow> double_trailing (xs @ c # zs) = xs @ c # double_trailing zs"
  by (simp add: double_trailing_def takeWhile_stop)

lemma double_trailing_replicate:
  "double_trailing (replicate n backslash) = replicate (2 * n) backslash"
  by (simp add: double_trailing_def mult_2 replicate_add)

lemma win_args_backslashes:
  "win_args m q cur st (replicate k backslash @ s) = win_args (m + k) q cur st s"
  by (induction k arbitrary: m) auto

lemma win_args_quoted:
  "win_args 0 True cur True (double_trailing (double_before_quotes n v) @ quote # rest)
     = win_args 0 False (cur @ replicate n backslash @ v) True rest"
proof (induction v arbitrary: n cur)
  case Nil
  then show ?case by (simp add: double_trailing_replicate win_args_backslashes)
next
  case (Cons c v)
  consider "c = backslash" | "c = quote" | "c \<noteq> backslash" "c \<noteq> quote" by blast
  then show ?case
  proof cases
    case 1
    with Cons.IH [where n = "Suc n" and cur = cur] show ?thesis
      by (simp add: replicate_app_Cons_same)
  next
    case 2
    have "double_trailing (double_before_quotes n (c # v))
        = replicate (2 * n) backslash @ backslash # quote # double_trailing (double_before_quotes 0 v)"
      using 2 double_trailing_Cons [of quote "replicate (2 * n) backslash @ [backslash]"] by simp
    then show ?thesis
      using Cons.IH [where n = 0] 2 by (simp add: win_args_backslashes)
  next
    case 3
    then have "double_before_quotes n (c # v) = replicate n backslash @ c # double_before_quotes 0 v"
      by simp
    then show ?thesis
      using Cons.IH [where n = 0] 3 by (simp add: double_trailing_Cons win_args_backslashes)
  qed
qed

lemma escaped_line_args:
  "command_line_args (join '' '' (map escapeShellArgument vs)) = vs"
proof (induction vs)
  case Nil
  show ?case by (simp add: command_line_args_def)
next
  case (Cons v vs)
  have one: "win_args 0 False [] False (cmd_unescape (escapeShellArgument v @ r))
      = win_args 0 False v True (cmd_unescape r)" for r
    by (simp add: escapeShellArgument_def cmd_unescape_caret win_args_quoted)
  show ?case
  proof (cases vs)
    case Nil
    then show ?thesis using one [of "[]"] by (simp add: command_line_args_def)
  next
    case (Cons w ws)
    then have "join '' '' (map escapeShellArgument (v # vs))
        = escapeShellArgument v @ CHR '' '' # join '' '' (map escapeShellArgument vs)"
      by (simp add: join_Cons)
    with Cons.IH show ?thesis
      by (simp add: command_line_args_def one cmd_unescape_Cons)
  qed
qed


section \<open>Chunking\<close>

lemma ceil_div_bounds:
  assumes "0 < d"
  shows "n \<le> ceil_div n d * d" and "i < ceil_div n d \<Longrightarrow> i * d < n"
proof -
  have "(n + d - 1) div d * d + (n + d - 1) mod d = n + d - 1" by simp
  moreover have "(n + d - 1) mod d < d" using assms by simp
  ultimately show "n \<le> ceil_div n d * d" unfolding ceil_div_def using assms by linarith
  assume "i < ceil_div n d"
  then have "Suc i * d \<le> n + d - 1"
    using assms by (metis Suc_leI ceil_div_def div_times_less_eq_dividend le_trans mult_le_mono1)
  with assms show "i * d < n" by (cases d) auto
qed

lemma concat_take_drop:
  "concat (map (\<lambda>i. take n (drop (i * n) xs)) [0 ..< k]) = take (k * n) xs"
  by (induction k) (simp_all add: take_add [symmetric] add.commute)

lemma split_chunks_facts:
  assumes "0 < n"
  obtains cs where "split_chunks xs n = Inr cs" and "concat cs = xs"
    and "\<forall>c \<in> set cs. 0 < length c \<and> length c \<le> n"
proof
  let ?cs = "map (\<lambda>i. take n (drop (i * n) xs)) [0 ..< ceil_div (length xs) n]"
  show "split_chunks xs n = Inr ?cs" using assms by (simp add: split_chunks_def)
  show "concat ?cs = xs" using ceil_div_bounds(1) [OF assms, of "length xs"]
    by (simp add: concat_take_drop)
  show "\<forall>c \<in> set ?cs. 0 < length c \<and> length c \<le> n"
    using assms ceil_div_bounds(2) [OF assms] by fastforce
qed


section \<open>Dropping empty fields\<close>

lemma omit_snoc:
  "omit (d @ [(k, v)]) = (case v of None \<Rightarrow> omit d | Some x \<Rightarrow> sset k x (omit d))"
  by (cases v) (simp_all add: omit_def)

lemma wf_omit [simp]: "wf_store (omit d)"
proof (induction d rule: rev_induct)
  case Nil
  show ?case by (simp add: omit_def)
next
  case (snoc kv d)
  then show ?case by (cases kv; cases "snd kv") (simp_all add: omit_snoc)
qed

lemma sget_omit: "wf_store d \<Longrightarrow> sget (omit d) k = (case sget d k of None \<Rightarrow> None | Some v \<Rightarrow> v)"
proof (induction d rule: rev_induct)
  case Nil
  then show ?case by (simp add: omit_def)
next
  case (snoc kv d)
  obtain k' v where kv: "kv = (k', v)" by (cases kv)
  from snoc.prems have wf: "wf_store d" and fresh: "k' \<notin> fst ` set d" by (auto simp: kv)
  then have "sget d k' = None" by (auto simp: map_of_eq_None_iff)
  with snoc.IH [OF wf] show ?case
    by (cases v; cases "k = k'") (auto simp: kv omit_snoc map_add_def split: option.split)
qed


section \<open>Headers\<close>

lemma parse_headers_from_get:
  assumes "parse_headers_from decode acc hs = Inr m"
    and "\<forall>h \<in> set hs. parseHeader decode h = Inr (Some (f h))"
  shows "m = foldl (\<lambda>a h. sset (fst (f h)) (snd (f h)) a) acc hs"
  using assms
proof (induction hs arbitrary: acc)
  case Nil
  then show ?case by simp
next
  case (Cons h hs)
  then show ?case by (cases "f h") auto
qed

lemma parse_headers_from_app:
  "parse_headers_from decode acc (hs @ gs) =
     bind_res (parse_headers_from decode acc hs) (\<lambda>m. parse_headers_from decode m gs)"
proof (induction hs arbitrary: acc)
  case Nil
  then show ?case by simp
next
  case (Cons h hs)
  show ?case
  proof (cases "parseHeader decode h")
    case (Inl e)
    then show ?thesis by simp
  next
    case (Inr kv)
    with Cons.IH show ?thesis by (cases kv) auto
  qed
qed

end
