(* ===== verification/Pool.thy ===== *)
theory Pool
  imports Prelude "HOL-Library.Multiset"
begin

text \<open>
  \<open>Helpers.pool\<close> (\<open>src/Utils/Helpers.ts\<close>): run an asynchronous job per item with a bound on how many
  are pending.  The loop is synchronous between its \<open>await\<close>s, so promise callbacks run only while it
  waits in \<open>Promise.race\<close>, between the race settling and the loop resuming, or after the loop in
  \<open>Promise.all\<close>; \<open>phase\<close> says which.  A fulfilled job splices itself out of \<open>poolPromises\<close>; a rejected
  one stays in it and makes the next race or the final \<open>Promise.all\<close> reject.
\<close>

datatype 'e phase = Looping | Racing | Woken | Draining | Failed 'e | Finished

record ('a, 'r, 'e) pool_state =
  todo :: "'a list"
  next_index :: nat
  poolPromises :: "nat list"
  results :: "(nat \<times> 'r) list"
  rejections :: "(nat \<times> 'e) list"
  pool_phase :: "'e phase"

definition pool_init :: "'a list \<Rightarrow> ('a, 'r, 'e) pool_state" where
  "pool_init items = \<lparr>todo = items, next_index = 0, poolPromises = [], results = [],
     rejections = [], pool_phase = Looping\<rparr>"

text \<open>One iteration of the \<open>for\<close> loop up to its \<open>await\<close>.\<close>

definition launch :: "nat \<Rightarrow> ('a, 'r, 'e) pool_state \<Rightarrow> ('a, 'r, 'e) pool_state" where
  "launch poolLimit s =
     (let ps = poolPromises s @ [next_index s] in
      s\<lparr>todo := tl (todo s), next_index := Suc (next_index s), poolPromises := ps,
        pool_phase := (if poolLimit \<le> length ps then Racing else Looping)\<rparr>)"

definition fulfil :: "nat \<Rightarrow> 'r \<Rightarrow> ('a, 'r, 'e) pool_state \<Rightarrow> ('a, 'r, 'e) pool_state" where
  "fulfil i r s =
     s\<lparr>poolPromises := remove1 i (poolPromises s), results := (i, r) # results s,
       pool_phase := (if pool_phase s = Racing then Woken else pool_phase s)\<rparr>"

definition reject_job :: "nat \<Rightarrow> 'e \<Rightarrow> ('a, 'r, 'e) pool_state \<Rightarrow> ('a, 'r, 'e) pool_state" where
  "reject_job i e s = s\<lparr>rejections := (i, e) # rejections s\<rparr>"

definition pending :: "('a, 'r, 'e) pool_state \<Rightarrow> nat \<Rightarrow> bool" where
  "pending s i \<longleftrightarrow> i \<in> set (poolPromises s) \<and> i \<notin> fst ` set (rejections s)"

inductive pool_step ::
  "nat \<Rightarrow> ('a, 'r, 'e) pool_state \<Rightarrow> ('a, 'r, 'e) pool_state \<Rightarrow> bool" for poolLimit
where
  iterate: "pool_phase s = Looping \<Longrightarrow> todo s \<noteq> [] \<Longrightarrow> pool_step poolLimit s (launch poolLimit s)"
| leave_loop: "pool_phase s = Looping \<Longrightarrow> todo s = [] \<Longrightarrow>
     pool_step poolLimit s (s\<lparr>pool_phase := Draining\<rparr>)"
| job_fulfilled: "pool_phase s \<in> {Racing, Woken, Draining} \<Longrightarrow> pending s i \<Longrightarrow>
     pool_step poolLimit s (fulfil i r s)"
| job_rejected: "pool_phase s \<in> {Racing, Woken, Draining} \<Longrightarrow> pending s i \<Longrightarrow>
     pool_step poolLimit s (reject_job i e s)"
| resume: "pool_phase s = Woken \<Longrightarrow> pool_step poolLimit s (s\<lparr>pool_phase := Looping\<rparr>)"
| race_rejects: "pool_phase s = Racing \<Longrightarrow> (i, e) \<in> set (rejections s) \<Longrightarrow>
     pool_step poolLimit s (s\<lparr>pool_phase := Failed e\<rparr>)"
| all_rejects: "pool_phase s = Draining \<Longrightarrow> (i, e) \<in> set (rejections s) \<Longrightarrow>
     pool_step poolLimit s (s\<lparr>pool_phase := Failed e\<rparr>)"
| all_fulfilled: "pool_phase s = Draining \<Longrightarrow> poolPromises s = [] \<Longrightarrow>
     pool_step poolLimit s (s\<lparr>pool_phase := Finished\<rparr>)"

abbreviation pool_reach :: "nat \<Rightarrow> 'a list \<Rightarrow> ('a, 'r, 'e) pool_state \<Rightarrow> bool" where
  "pool_reach poolLimit items s \<equiv> (pool_step poolLimit)\<^sup>*\<^sup>* (pool_init items) s"

text \<open>The value of \<open>Promise.all(promises)\<close>: one result per item, in the order of the items.\<close>

definition pool_result :: "'a list \<Rightarrow> ('a, 'r, 'e) pool_state \<Rightarrow> 'r option list" where
  "pool_result items s = map (map_of (results s)) [0 ..< length items]"


section \<open>Invariant\<close>

text \<open>
  Every started job is exactly once either in \<open>poolPromises\<close> or among the results, in the order of
  start; the number in \<open>poolPromises\<close> stays below the limit while the loop runs.
\<close>

definition items_inv :: "'a list \<Rightarrow> ('a, 'r, 'e) pool_state \<Rightarrow> bool" where
  "items_inv items s \<longleftrightarrow>
     todo s = drop (next_index s) items \<and> next_index s \<le> length items \<and>
     (pool_phase s \<in> {Draining, Finished} \<longrightarrow> todo s = [])"

definition jobs_inv :: "('a, 'r, 'e) pool_state \<Rightarrow> bool" where
  "jobs_inv s \<longleftrightarrow>
     distinct (poolPromises s @ map fst (results s)) \<and>
     set (poolPromises s @ map fst (results s)) = set [0 ..< next_index s] \<and>
     fst ` set (rejections s) \<subseteq> set (poolPromises s)"

definition bound_inv :: "nat \<Rightarrow> ('a, 'r, 'e) pool_state \<Rightarrow> bool" where
  "bound_inv poolLimit s \<longleftrightarrow>
     length (poolPromises s) \<le> max 1 poolLimit \<and>
     (pool_phase s \<in> {Looping, Woken} \<longrightarrow> length (poolPromises s) < max 1 poolLimit) \<and>
     (pool_phase s = Racing \<longrightarrow> poolPromises s \<noteq> []) \<and>
     (pool_phase s = Finished \<longrightarrow> poolPromises s = [])"

lemmas pool_ops = launch_def fulfil_def reject_job_def pending_def pool_init_def Let_def

lemma items_inv_step: "pool_step n s t \<Longrightarrow> items_inv items s \<Longrightarrow> items_inv items t"
proof (induction rule: pool_step.induct)
  case (iterate s)
  then have "next_index s < length items" by (auto simp: items_inv_def)
  moreover have "tl (drop (next_index s) items) = drop (Suc (next_index s)) items"
    by (simp add: drop_Suc tl_drop)
  ultimately show ?case using iterate by (simp add: items_inv_def pool_ops)
qed (auto simp: items_inv_def pool_ops)

lemma jobs_inv_fulfil: "jobs_inv s \<Longrightarrow> pending s i \<Longrightarrow> jobs_inv (fulfil i r s)"
proof -
  assume inv: "jobs_inv s" and i: "pending s i"
  have d: "distinct (poolPromises s)" using inv by (simp add: jobs_inv_def)
  have rm: "set (remove1 i (poolPromises s)) = set (poolPromises s) - {i}"
    by (rule set_remove1_eq [OF d])
  have "set (remove1 i (poolPromises s)) \<union> insert i (fst ` set (results s)) = {0 ..< next_index s}"
    using inv i by (auto simp: jobs_inv_def pending_def rm)
  moreover have "fst ` set (rejections s) \<subseteq> set (remove1 i (poolPromises s))"
    using inv i unfolding rm by (auto simp: jobs_inv_def pending_def)
  moreover have "distinct (remove1 i (poolPromises s) @ i # map fst (results s))"
    using inv i by (auto simp: jobs_inv_def pending_def rm)
  ultimately show "jobs_inv (fulfil i r s)" by (simp add: jobs_inv_def fulfil_def)
qed

lemma jobs_inv_step: "pool_step n s t \<Longrightarrow> jobs_inv s \<Longrightarrow> jobs_inv t"
proof (induction rule: pool_step.induct)
  case (iterate s)
  have "set [0 ..< Suc (next_index s)] = insert (next_index s) (set [0 ..< next_index s])" by auto
  moreover have "next_index s \<notin> set (poolPromises s @ map fst (results s))"
    using iterate.prems unfolding jobs_inv_def by simp
  ultimately show ?case using iterate by (simp add: jobs_inv_def pool_ops) blast
next
  case (job_fulfilled s i r)
  then show ?case by (intro jobs_inv_fulfil)
qed (simp_all add: jobs_inv_def pool_ops)

lemma bound_inv_fulfil:
  assumes "bound_inv n s" and "pending s i" and "pool_phase s \<in> {Racing, Woken, Draining}"
  shows "bound_inv n (fulfil i r s)"
proof -
  have "Suc (length (remove1 i (poolPromises s))) = length (poolPromises s)"
    using assms(2) length_pos_if_in_set [of i "poolPromises s"]
    by (simp add: pending_def length_remove1)
  with assms show ?thesis by (auto simp: bound_inv_def fulfil_def)
qed

lemma bound_inv_step: "pool_step n s t \<Longrightarrow> bound_inv n s \<Longrightarrow> bound_inv n t"
proof (induction rule: pool_step.induct)
  case (job_fulfilled s i r)
  then show ?case by (intro bound_inv_fulfil)
qed (auto simp: bound_inv_def pool_ops)

interpretation pool_sys: step_system "pool_step n" "\<lambda>s. items_inv items s \<and> jobs_inv s \<and> bound_inv n s" for n items
  by unfold_locales (blast intro: items_inv_step jobs_inv_step bound_inv_step)

lemma pool_reach_inv:
  "pool_reach n items s \<Longrightarrow> items_inv items s \<and> jobs_inv s \<and> bound_inv n s"
  by (rule pool_sys.steps_inv) (auto simp: items_inv_def jobs_inv_def bound_inv_def pool_init_def)

text \<open>
  C1. However jobs finish, \<open>Helpers.pool\<close> never has more than \<open>poolLimit\<close> jobs pending (one, for
  a limit of zero), and items are started in order, each once: the jobs started so far are exactly
  those pending, rejected or done.
\<close>

theorem pool_bounded:
  assumes "pool_reach poolLimit items s"
  shows "length (filter (pending s) (poolPromises s)) \<le> max 1 poolLimit \<and>
    todo s = drop (next_index s) items \<and>
    mset (poolPromises s) + mset (map fst (results s)) = mset [0 ..< next_index s]"
proof -
  from assms have inv: "items_inv items s" "jobs_inv s" "bound_inv poolLimit s"
    using pool_reach_inv by blast+
  have "length (filter (pending s) (poolPromises s)) \<le> length (poolPromises s)"
    by (rule length_filter_le)
  moreover have "length (poolPromises s) \<le> max 1 poolLimit" using inv(3) by (simp add: bound_inv_def)
  ultimately have "length (filter (pending s) (poolPromises s)) \<le> max 1 poolLimit" by (rule le_trans)
  moreover have "mset (poolPromises s @ map fst (results s)) = mset [0 ..< next_index s]"
    using inv(2) by (intro set_eq_iff_mset_eq_distinct [THEN iffD1]) (simp_all add: jobs_inv_def)
  moreover have "todo s = drop (next_index s) items" using inv(1) by (simp add: items_inv_def)
  ultimately show ?thesis by simp
qed

theorem pool_bounded_witness:
  "let s = launch 2 (pool_init [10, 20, 30 :: nat]) :: (nat, bool, string) pool_state in
     pool_reach 2 [10, 20, 30] s \<and>
     length (filter (pending s) (poolPromises s)) \<le> max 1 2 \<and>
     mset (poolPromises s) + mset (map fst (results s)) = mset [0 ..< next_index s]"
proof -
  let ?s = "launch 2 (pool_init [10, 20, 30 :: nat]) :: (nat, bool, string) pool_state"
  have r: "pool_reach 2 [10, 20, 30] ?s"
    by (rule step_reached [OF start_reached], rule iterate) (simp_all add: pool_init_def)
  show ?thesis using pool_bounded [OF r] r by (simp add: Let_def)
qed


definition pool_example :: "(nat, bool, string) pool_state" where
  "pool_example = \<lparr>todo = [], next_index = 1, poolPromises = [], results = [(0, True)],
     rejections = [], pool_phase = Finished\<rparr>"

lemma pool_example_reached: "pool_reach 1 [7] pool_example"
proof -
  let ?s1 = "launch 1 (pool_init [7]) :: (nat, bool, string) pool_state"
  let ?s2 = "fulfil 0 True ?s1"
  let ?s3 = "?s2\<lparr>pool_phase := Looping\<rparr>"
  let ?s4 = "?s3\<lparr>pool_phase := Draining\<rparr>"
  have "pool_reach 1 [7] ?s1"
    by (rule step_reached [OF start_reached], rule iterate) (simp_all add: pool_ops)
  then have "pool_reach 1 [7] ?s2"
    by (rule step_reached, intro job_fulfilled) (simp_all add: pool_ops)
  then have "pool_reach 1 [7] ?s3"
    by (rule step_reached, intro resume) (simp add: pool_ops)
  then have "pool_reach 1 [7] ?s4"
    by (rule step_reached, intro leave_loop) (simp_all add: pool_ops)
  then have "pool_reach 1 [7] (?s4\<lparr>pool_phase := Finished\<rparr>)"
    by (rule step_reached, intro all_fulfilled) (simp_all add: pool_ops)
  then show ?thesis by (simp add: pool_example_def pool_ops)
qed


text \<open>
  The pool never deadlocks: from every state it can reach, it has either settled or can make a
  step, as long as some job is pending whenever it waits (a rejected job lets it fail at once).
\<close>

theorem pool_not_stuck:
  assumes "pool_reach poolLimit items s"
  shows "pool_phase s = Finished \<or> (\<exists>e. pool_phase s = Failed e) \<or> (\<exists>t. pool_step poolLimit s t)"
proof -
  from assms have inv: "jobs_inv s" "bound_inv poolLimit s"
    using pool_reach_inv by blast+
  have wait: "\<exists>t. pool_step poolLimit s t"
    if ph: "pool_phase s \<in> {Racing, Draining}" and ne: "poolPromises s \<noteq> []"
  proof (cases "rejections s")
    case Nil
    with ne have "pending s (hd (poolPromises s))" by (simp add: pending_def)
    then show ?thesis using job_fulfilled [of s _ poolLimit] ph by blast
  next
    case (Cons ie es)
    then have "(fst ie, snd ie) \<in> set (rejections s)" by simp
    then show ?thesis
      using race_rejects [of s "fst ie" "snd ie"] all_rejects [of s "fst ie" "snd ie"] ph by auto
  qed
  show ?thesis
  proof (cases "pool_phase s")
    case Looping
    then show ?thesis using iterate leave_loop by blast
  next
    case Racing
    then show ?thesis using wait inv(2) by (auto simp: bound_inv_def)
  next
    case Woken
    then show ?thesis using resume by blast
  next
    case Draining
    then show ?thesis using wait all_fulfilled by (cases "poolPromises s = []") blast+
  qed simp_all
qed

theorem pool_not_stuck_witness:
  "pool_reach 2 [7 :: nat] (pool_init [7] :: (nat, bool, string) pool_state) \<and>
   (\<exists>t. pool_step 2 (pool_init [7] :: (nat, bool, string) pool_state) t)"
proof -
  have r: "pool_reach 2 [7 :: nat] (pool_init [7] :: (nat, bool, string) pool_state)"
    by (rule start_reached)
  show ?thesis using pool_not_stuck [OF r] r by (simp add: pool_init_def)
qed

end
