(* ===== verification/Backoff.thy ===== *)
theory Backoff
  imports Prelude
begin

text \<open>
  The retry wrapper \<open>Backoff\<close> of \<open>src/Utils/Backoff.ts\<close>.  The task is a function from the number of
  the call to its outcome, so that a task may fail a few times and then succeed.  The state counts
  the calls made and records the waits and the warnings printed; \<open>bo_depth\<close> is the private field
  \<open>depth\<close>, which is never reset.
\<close>

record backoff =
  bo_depth :: nat
  bo_calls :: nat
  bo_waits :: "nat list"
  bo_warnings :: "(nat \<times> nat \<times> nat) list"

definition new_backoff :: "nat \<Rightarrow> backoff" where
  "new_backoff calls = \<lparr>bo_depth = 0, bo_calls = calls, bo_waits = [], bo_warnings = []\<rparr>"

definition retry_delay :: "nat \<Rightarrow> nat" where
  "retry_delay depth = max (2 ^ depth * 100) 1000"

text \<open>\<open>Math.round\<close> of a non-negative quotient.\<close>

definition round_div :: "nat \<Rightarrow> nat \<Rightarrow> nat" where
  "round_div a b = (2 * a + b) div (2 * b)"

definition retry :: "nat \<Rightarrow> backoff \<Rightarrow> backoff" where
  "retry maxDepth b =
     (let delay = retry_delay (bo_depth b) in
      b\<lparr>bo_warnings := bo_warnings b @ [(round_div delay 1000, bo_depth b + 1, maxDepth)],
        bo_waits := bo_waits b @ [delay],
        bo_depth := bo_depth b + 1\<rparr>)"

function execute ::
  "nat \<Rightarrow> ('e \<Rightarrow> bool) \<Rightarrow> (nat \<Rightarrow> 'e + 'a) \<Rightarrow> backoff \<Rightarrow> ('e + 'a) \<times> backoff"
where
  "execute maxDepth shouldRetry task b =
     (let b' = b\<lparr>bo_calls := Suc (bo_calls b)\<rparr> in
      case task (bo_calls b) of
        Inr x \<Rightarrow> (Inr x, b')
      | Inl e \<Rightarrow> if shouldRetry e \<and> bo_depth b < maxDepth
                 then execute maxDepth shouldRetry task (retry maxDepth b')
                 else (Inl e, b'))"
  by pat_completeness auto
termination
  by (relation "measure (\<lambda>(maxDepth, _, _, b). maxDepth - bo_depth b)") (auto simp: retry_def Let_def)

declare execute.simps [simp del]

lemma retry_sel [simp]:
  "bo_depth (retry m b) = Suc (bo_depth b)" "bo_calls (retry m b) = bo_calls b"
  "bo_waits (retry m b) = bo_waits b @ [retry_delay (bo_depth b)]"
  by (simp_all add: retry_def Let_def)

definition retryable :: "('e \<Rightarrow> bool) \<Rightarrow> 'e + 'a \<Rightarrow> bool" where
  "retryable p r = (case r of Inl e \<Rightarrow> p e | Inr _ \<Rightarrow> False)"

lemma execute_stop:
  "\<not> (retryable p (task (bo_calls b)) \<and> bo_depth b < m) \<Longrightarrow>
     execute m p task b = (task (bo_calls b), b\<lparr>bo_calls := Suc (bo_calls b)\<rparr>)"
  by (subst execute.simps) (auto simp: retryable_def Let_def split: sum.splits)

lemma execute_again:
  "retryable p (task (bo_calls b)) \<Longrightarrow> bo_depth b < m \<Longrightarrow>
     execute m p task b = execute m p task (retry m (b\<lparr>bo_calls := Suc (bo_calls b)\<rparr>))"
  by (subst execute.simps) (auto simp: retryable_def Let_def split: sum.splits)

text \<open>
  The calls made form a block: all but the last end in a retryable error, and the outcome is that of
  the last; the waits are those of the successive depths.
\<close>

lemma execute_spec:
  assumes "execute m p task b = (r, b')"
  shows "\<exists>n. bo_calls b' = bo_calls b + Suc n \<and> n \<le> m - bo_depth b \<and>
    r = task (bo_calls b + n) \<and>
    (\<forall>i < n. retryable p (task (bo_calls b + i))) \<and>
    (retryable p r \<longrightarrow> m \<le> bo_depth b + n) \<and>
    bo_waits b' = bo_waits b @ map (\<lambda>i. retry_delay (bo_depth b + i)) [0 ..< n]"
  using assms
proof (induction m p task b rule: execute.induct)
  case (1 m p task b)
  let ?b1 = "b\<lparr>bo_calls := Suc (bo_calls b)\<rparr>"
  show ?case
  proof (cases "retryable p (task (bo_calls b)) \<and> bo_depth b < m")
    case False
    with 1(2) have "r = task (bo_calls b)" and "b' = ?b1" by (auto simp: execute_stop)
    with False show ?thesis by (intro exI [of _ 0]) auto
  next
    case True
    then obtain e where e: "task (bo_calls b) = Inl e" and pe: "p e"
      by (auto simp: retryable_def split: sum.splits)
    from True 1(2) have "execute m p task (retry m ?b1) = (r, b')"
      by (simp add: execute_again)
    from 1(1) [OF refl e _ this] pe True obtain n where n:
      "bo_calls b' = bo_calls b + Suc (Suc n)" "n \<le> m - Suc (bo_depth b)"
      "r = task (Suc (bo_calls b) + n)" "\<forall>i < n. retryable p (task (Suc (bo_calls b) + i))"
      "retryable p r \<longrightarrow> m \<le> Suc (bo_depth b) + n"
      "bo_waits b' = bo_waits b @ retry_delay (bo_depth b)
         # map (\<lambda>i. retry_delay (Suc (bo_depth b) + i)) [0 ..< n]"
      by auto
    have "\<forall>i < Suc n. retryable p (task (bo_calls b + i))"
      using n(4) True by (auto simp: less_Suc_eq_0_disj)
    moreover have "map (\<lambda>i. retry_delay (bo_depth b + i)) [0 ..< Suc n] =
        retry_delay (bo_depth b) # map (\<lambda>i. retry_delay (Suc (bo_depth b) + i)) [0 ..< n]"
      by (simp add: map_upt_Suc del: upt_Suc)
    ultimately show ?thesis
      using n True by (intro exI [of _ "Suc n"]) auto
  qed
qed


section \<open>The contract callers rely on\<close>

text \<open>
  \<open>run task k\<close> makes calls from number \<open>k\<close> on and returns the outcome with the number of the next
  call.
\<close>

locale retrier =
  fixes run :: "(nat \<Rightarrow> 'e + 'a) \<Rightarrow> nat \<Rightarrow> ('e + 'a) \<times> nat"
    and temporary :: "'e \<Rightarrow> bool"
    and limit :: nat
  assumes run_last: "run task k = (r, k') \<Longrightarrow> k < k' \<and> r = task (k' - 1)"
    and run_bound: "run task k = (r, k') \<Longrightarrow> k' \<le> k + limit + 1"
    and run_only_temporary: "run task k = (r, k') \<Longrightarrow> k \<le> i \<Longrightarrow> i + 1 < k' \<Longrightarrow>
      \<exists>e. task i = Inl e \<and> temporary e"
    and run_gives_up: "run task k = (Inl e, k') \<Longrightarrow> temporary e \<Longrightarrow> k' = k + limit + 1"
begin

lemma run_first_success:
  assumes ok: "task (k + n) = Inr x" and n: "n \<le> limit"
    and before: "\<forall>i < n. \<exists>e. task (k + i) = Inl e \<and> temporary e"
  shows "run task k = (Inr x, k + n + 1)"
proof -
  obtain r k' where r: "run task k = (r, k')" by (cases "run task k")
  have last: "k < k'" "r = task (k' - 1)" using run_last [OF r] by auto
  have "k' = k + n + 1"
  proof (rule ccontr)
    assume "k' \<noteq> k + n + 1"
    then consider "k' < k + n + 1" | "k + n + 1 < k'" by linarith
    then show False
    proof cases
      case 1
      define i where "i = k' - 1 - k"
      with 1 last(1) have "k' - 1 = k + i" "i < n" by auto
      with last(2) before obtain e where "r = Inl e" "temporary e" by metis
      with run_gives_up r 1 n show False by fastforce
    next
      case 2
      with run_only_temporary [OF r, of "k + n"] ok show False by auto
    qed
  qed
  with last ok r show ?thesis by simp
qed

lemma run_permanent_error:
  assumes "task k = Inl e" and "\<not> temporary e"
  shows "run task k = (Inl e, k + 1)"
proof -
  obtain r k' where r: "run task k = (r, k')" by (cases "run task k")
  have last: "k < k'" "r = task (k' - 1)" using run_last [OF r] by auto
  have "\<not> k + 1 < k'"
    using run_only_temporary [OF r, of k] assms by auto
  with last have "k' = k + 1" by simp
  with last r assms show ?thesis by simp
qed

end

text \<open>A fresh \<open>Backoff\<close>, as the polling loops make one per request.\<close>

definition backoff_run ::
  "nat \<Rightarrow> ('e \<Rightarrow> bool) \<Rightarrow> (nat \<Rightarrow> 'e + 'a) \<Rightarrow> nat \<Rightarrow> ('e + 'a) \<times> nat"
where
  "backoff_run m p task k = map_prod id bo_calls (execute m p task (new_backoff k))"

lemma backoff_run_spec:
  assumes "backoff_run m p task k = (r, k')"
  obtains n where "k' = k + Suc n" "n \<le> m" "r = task (k + n)"
    "\<forall>i < n. retryable p (task (k + i))" "retryable p r \<longrightarrow> m \<le> n"
proof -
  obtain b' where b': "execute m p task (new_backoff k) = (r, b')" "k' = bo_calls b'"
    using assms by (cases "execute m p task (new_backoff k)") (auto simp: backoff_run_def)
  from execute_spec [OF b'(1)] b'(2) that show ?thesis by (auto simp: new_backoff_def)
qed

interpretation fresh: retrier "backoff_run m p" p m for m p
proof
  fix task :: "nat \<Rightarrow> 'a + 'b" and k r k'
  assume run: "backoff_run m p task k = (r, k')"
  from backoff_run_spec [OF run] obtain n where n: "k' = k + Suc n" "n \<le> m" "r = task (k + n)"
    "\<forall>i < n. retryable p (task (k + i))" "retryable p r \<longrightarrow> m \<le> n" by blast
  from n show "k < k' \<and> r = task (k' - 1)" by simp
  from n show "k' \<le> k + m + 1" by simp
  show "\<exists>e. task i = Inl e \<and> p e" if "k \<le> i" "i + 1 < k'" for i
  proof -
    from that n(1) have "i - k < n" by simp
    with n(4) that(1) have "retryable p (task i)" by (metis le_add_diff_inverse)
    then show ?thesis by (auto simp: retryable_def split: sum.splits)
  qed
next
  fix task :: "nat \<Rightarrow> 'a + 'b" and k e k'
  assume run: "backoff_run m p task k = (Inl e, k')" and "p e"
  from backoff_run_spec [OF run] obtain n where n: "k' = k + Suc n" "n \<le> m"
    "retryable p (Inl e :: 'a + 'b) \<longrightarrow> m \<le> n" by metis
  with \<open>p e\<close> show "k' = k + m + 1" by (simp add: retryable_def)
qed


section \<open>Properties\<close>

text \<open>
  C13. \<open>Backoff.execute\<close> calls the task again exactly while it fails with an error the predicate
  accepts and the limit is not used up: it returns the outcome of the last call, makes at most
  \<open>maxDepth + 1\<close> calls, and gives up on a temporary error only after all of them.
\<close>

theorem backoff_outcome:
  "\<exists>n \<le> m. fst (execute m p task (new_backoff k)) = task (k + n) \<and>
     bo_calls (snd (execute m p task (new_backoff k))) = k + n + 1 \<and>
     bo_waits (snd (execute m p task (new_backoff k))) = map retry_delay [0 ..< n] \<and>
     (\<forall>i < n. retryable p (task (k + i))) \<and>
     (retryable p (task (k + n)) \<longrightarrow> n = m)"
proof -
  obtain r b' where e: "execute m p task (new_backoff k) = (r, b')"
    by (cases "execute m p task (new_backoff k)")
  from execute_spec [OF e] show ?thesis unfolding e by (fastforce simp: new_backoff_def)
qed

theorem backoff_outcome_witness:
  "\<exists>n \<le> 3. fst (execute 3 (\<lambda>e. e = ''ECONNRESET'')
      (\<lambda>i. if i < 2 then Inl ''ECONNRESET'' else Inr i) (new_backoff 0)) =
      (if n < 2 then Inl ''ECONNRESET'' else Inr n) \<and>
    (retryable (\<lambda>e. e = ''ECONNRESET'') (if n < 2 then Inl ''ECONNRESET'' else Inr n :: string + nat)
      \<longrightarrow> n = 3)"
  using backoff_outcome [of 3 "\<lambda>e. e = ''ECONNRESET''"
    "\<lambda>i. if i < 2 then Inl ''ECONNRESET'' else Inr i" 0] by auto

lemma retry_delay_large: "4 \<le> d \<Longrightarrow> retry_delay d = 2 ^ d * 100"
proof -
  assume "4 \<le> d"
  then have "(2::nat) ^ 4 \<le> 2 ^ d" by (rule power_increasing) simp
  then show ?thesis by (simp add: retry_delay_def)
qed

lemma retry_delay_small: "d < 4 \<Longrightarrow> retry_delay d = 1000"
proof -
  assume "d < 4"
  then have "(2::nat) ^ d \<le> 2 ^ 3" by (intro power_increasing) simp_all
  then show ?thesis by (simp add: retry_delay_def)
qed

text \<open>
  The wait before a retry is one second for the first four retries and doubles from the fifth
  on without an upper bound.  With the limit of twenty that the polling loops use, a service that
  stays unreachable is retried over 104 860 seconds, more than 29 hours, and the last single wait is
  52 428.8 seconds.
\<close>

theorem backoff_waits:
  "(\<forall>d. 1000 \<le> retry_delay d) \<and> (\<forall>d < 4. retry_delay d = 1000) \<and>
   (\<forall>d \<ge> 4. retry_delay (Suc d) = 2 * retry_delay d) \<and>
   (let b = snd (execute 20 (\<lambda>_. True) (\<lambda>_. Inl ''ECONNREFUSED'' :: string + unit) (new_backoff 0)) in
      sum_list (bo_waits b) = 104860000 \<and> last (bo_waits b) = 52428800)"
proof -
  let ?t = "\<lambda>_ :: nat. Inl ''ECONNREFUSED'' :: string + unit"
  let ?b = "snd (execute 20 (\<lambda>_. True) ?t (new_backoff 0))"
  obtain n where "n \<le> 20" and waits: "bo_waits ?b = map retry_delay [0 ..< n]"
    and "retryable (\<lambda>_. True) (?t n) \<longrightarrow> n = 20"
  proof -
    obtain r b' where e: "execute 20 (\<lambda>_. True) ?t (new_backoff 0) = (r, b')"
      by (cases "execute 20 (\<lambda>_. True) ?t (new_backoff 0)")
    from execute_spec [OF e] that show thesis unfolding e by (fastforce simp: new_backoff_def)
  qed
  then have n: "n = 20" by (simp add: retryable_def)
  have "\<forall>d < 4. retry_delay d = 1000"
    by (simp add: retry_delay_small)
  moreover have "\<forall>d \<ge> 4. retry_delay (Suc d) = 2 * retry_delay d"
    by (simp add: retry_delay_large)
  moreover have "sum_list (map retry_delay [0 ..< 20]) = 104860000 \<and>
      last (map retry_delay [0 ..< 20]) = 52428800"
    by (simp add: upt_rec retry_delay_def)
  moreover have "\<forall>d. 1000 \<le> retry_delay d" by (simp add: retry_delay_def)
  ultimately show ?thesis unfolding Let_def waits n by blast
qed

theorem backoff_waits_witness: "retry_delay 3 = 1000 \<and> retry_delay 5 = 2 * retry_delay 4"
proof -
  have "(3::nat) < 4" and "(4::nat) \<le> 4" by simp_all
  with backoff_waits show ?thesis by (metis eval_nat_numeral(3))
qed

end
