(* ===== verification/Breakpoints.thy ===== *)
theory Breakpoints
  imports Prelude
begin

text \<open>
  Scan states, severities and breakpoints (\<open>src/Scan/Severity.ts\<close>, \<open>src/Scan/Scans.ts\<close>,
  \<open>src/Scan/Breakpoint.ts\<close>, \<open>src/Scan/Breakpoints/OnSeverity.ts\<close>,
  \<open>src/Scan/DefaultBreakpointFactory.ts\<close>): when polling a scan must stop with the breakpoint exit
  code.
\<close>

datatype severity = MEDIUM | HIGH | LOW | CRITICAL

definition severity_values :: "severity list" where
  "severity_values = [MEDIUM, HIGH, LOW, CRITICAL]"

primrec severity_name :: "severity \<Rightarrow> string" where
  "severity_name MEDIUM = ''Medium''"
| "severity_name HIGH = ''High''"
| "severity_name LOW = ''Low''"
| "severity_name CRITICAL = ''Critical''"

primrec severity_range :: "severity \<Rightarrow> severity list" where
  "severity_range CRITICAL = [CRITICAL]"
| "severity_range HIGH = [HIGH, CRITICAL]"
| "severity_range MEDIUM = [MEDIUM, HIGH, CRITICAL]"
| "severity_range LOW = severity_values"

definition severityRanges :: "(severity, severity list) store" where
  "severityRanges = map (\<lambda>s. (s, severity_range s)) severity_values"

datatype scan_status = RUNNING | PENDING | STOPPED | FAILED | DONE | DISRUPTED | SCHEDULED | QUEUED

record scan_state =
  scan_status :: scan_status
  numberOfIssues :: "severity \<Rightarrow> nat"

definition break_severities :: "severity \<Rightarrow> severity list" where
  "break_severities sev = (case sget severityRanges sev of None \<Rightarrow> [] | Some r \<Rightarrow> r)"

definition isExcepted :: "severity \<Rightarrow> scan_state \<Rightarrow> bool" where
  "isExcepted sev stats = list_ex (\<lambda>s. numberOfIssues stats s > 0) (break_severities sev)"

definition breakOn :: "severity \<Rightarrow> js_error" where
  "breakOn sev = (mk_error (''Bright CLI found a first '' @ severity_name sev @ '' issue.''))
     \<lparr>err_name := ''BreakpointException''\<rparr>"

definition breakpoint_execute :: "severity \<Rightarrow> scan_state \<Rightarrow> unit js_result" where
  "breakpoint_execute sev scanIssues =
     (if isExcepted sev scanIssues then Inl (breakOn sev) else Inr ())"

definition create_breakpoint :: "string \<Rightarrow> severity option" where
  "create_breakpoint t =
     (if t = ''any'' then Some LOW
      else if t = ''high_issue'' then Some HIGH
      else if t = ''medium_issue'' then Some MEDIUM
      else if t = ''critical_issue'' then Some CRITICAL
      else None)"


section \<open>Severities are ordered\<close>

primrec severity_rank :: "severity \<Rightarrow> nat" where
  "severity_rank LOW = 0"
| "severity_rank MEDIUM = 1"
| "severity_rank HIGH = 2"
| "severity_rank CRITICAL = 3"

lemma severity_rank_inj: "severity_rank a = severity_rank b \<longleftrightarrow> a = b"
  by (cases a; cases b) auto

instantiation severity :: linorder
begin

definition less_eq_severity :: "severity \<Rightarrow> severity \<Rightarrow> bool" where
  "less_eq_severity a b \<longleftrightarrow> severity_rank a \<le> severity_rank b"

definition less_severity :: "severity \<Rightarrow> severity \<Rightarrow> bool" where
  "less_severity a b \<longleftrightarrow> severity_rank a < severity_rank b"

instance
  by standard (auto simp: less_eq_severity_def less_severity_def severity_rank_inj)

end

lemma severityRanges_get: "sget severityRanges s = Some (severity_range s)"
  by (cases s) (simp_all add: severityRanges_def severity_values_def)

lemma break_severities_iff: "s \<in> set (break_severities sev) \<longleftrightarrow> sev \<le> s"
  by (cases sev; cases s)
    (simp_all add: break_severities_def severityRanges_get severity_values_def less_eq_severity_def)

lemma isExcepted_iff: "isExcepted sev st \<longleftrightarrow> (\<exists>s \<ge> sev. 0 < numberOfIssues st s)"
  by (auto simp: isExcepted_def list_ex_iff break_severities_iff)

lemma breakpoint_execute_cases:
  "breakpoint_execute sev st = Inl (breakOn sev) \<and> isExcepted sev st \<or>
   breakpoint_execute sev st = Inr () \<and> \<not> isExcepted sev st"
  by (simp add: breakpoint_execute_def)

lemma breakOn_sel [simp]: "err_name (breakOn sev) = ''BreakpointException''" "err_axios (breakOn sev) = False"
  "err_code (breakOn sev) = None"
  by (simp_all add: breakOn_def mk_error_def)

text \<open>
  A breakpoint for a severity fires exactly when the scan has an issue of that severity or a
  worse one, and then with the exception naming its own severity.  Hence a breakpoint for a lower
  severity fires whenever one for a higher severity does.
\<close>

theorem breakpoint_fires_iff:
  "(breakpoint_execute sev st = Inl (breakOn sev) \<longleftrightarrow> (\<exists>s \<ge> sev. 0 < numberOfIssues st s)) \<and>
   (breakpoint_execute sev st = Inr () \<longleftrightarrow> (\<forall>s \<ge> sev. numberOfIssues st s = 0)) \<and>
   (sev \<le> sev' \<longrightarrow> isExcepted sev' st \<longrightarrow> isExcepted sev st)"
  using isExcepted_iff [of sev st] isExcepted_iff [of sev' st] order_trans
  by (auto simp: breakpoint_execute_def)

theorem breakpoint_fires_iff_witness:
  "let st = \<lparr>scan_status = RUNNING, numberOfIssues = (\<lambda>s. if s = HIGH then 2 else 0)\<rparr> in
     MEDIUM \<le> HIGH \<and> isExcepted HIGH st \<and> isExcepted MEDIUM st \<and>
     breakpoint_execute MEDIUM st = Inl (breakOn MEDIUM)"
proof -
  let ?st = "\<lparr>scan_status = RUNNING, numberOfIssues = (\<lambda>s. if s = HIGH then 2 else 0)\<rparr>"
  have le: "MEDIUM \<le> HIGH" by (simp add: less_eq_severity_def)
  have h: "isExcepted HIGH ?st" by (simp add: isExcepted_def break_severities_def severityRanges_get)
  from breakpoint_fires_iff [of MEDIUM ?st HIGH] le h
  have "isExcepted MEDIUM ?st" by blast
  with le h show ?thesis by (simp add: Let_def breakpoint_execute_def)
qed

end
