(* ===== verification/Poll_Loop.thy ===== *)
theory Poll_Loop
  imports Backoff
begin

text \<open>
  What the three pollers share (\<open>src/Scan/BasePolling.ts\<close>, \<open>src/Discovery/DiscoveryPolling.ts\<close>,
  \<open>src/EntryPoint/HostUpdateJobStatusPolling.ts\<close>): the clock in milliseconds with the one timer that
  ends the polling, the request made through a fresh \<open>Backoff\<close>, and the loop.  A remote service is a
  function from the number of the call to its outcome, and the time each call takes is a function of
  the same number.  A timer due at the very millisecond in which the loop continues counts as fired.
\<close>

record poll_config =
  cfg_timeout :: "nat option"
  cfg_interval :: "nat option"

text \<open>
  \<open>expiry\<close> is the time at which the pending timeout timer fires; \<open>aborted\<close> is the negated \<open>_active\<close> of
  \<open>BasePolling\<close> and \<open>abortController.signal.aborted\<close> of the others; \<open>out\<close> is what was logged, debug
  messages apart.
\<close>

record poller =
  now :: nat
  calls :: nat
  expiry :: "nat option"
  aborted :: bool
  out :: "string list"

definition new_poller :: poller where
  "new_poller = \<lparr>now = 0, calls = 0, expiry = None, aborted = False, out = []\<rparr>"

definition log_msg :: "string \<Rightarrow> poller \<Rightarrow> poller" where
  "log_msg m s = s\<lparr>out := out s @ [m]\<rparr>"

text \<open>The delay of a Node.js timer: out of the range of a positive 32-bit integer it becomes 1 ms.\<close>

definition timer_ms :: "nat \<Rightarrow> nat" where
  "timer_ms d = (if 1 \<le> d \<and> d \<le> 2147483647 then d else 1)"

definition defaultInterval :: nat where
  "defaultInterval = 10000"

definition DEFAULT_RECONNECT_TIMES :: nat where
  "DEFAULT_RECONNECT_TIMES = 20"

definition polling_warnings :: "string \<Rightarrow> poll_config \<Rightarrow> string list" where
  "polling_warnings advice opts =
     (if cfg_timeout opts \<in> {None, Some 0}
      then [''Warning: It looks like you've been running polling without \"timeout\" option.'',
            ''The recommended way to install polling with a minimal timeout: '' @ advice]
      else []) @
     (case cfg_interval opts of
        None \<Rightarrow> []
      | Some i \<Rightarrow> if i \<noteq> 0 \<and> i < defaultInterval
                  then [''Warning: The minimal value for polling interval is 10 seconds.''] else [])"

definition set_timer :: "poll_config \<Rightarrow> poller \<Rightarrow> poller" where
  "set_timer opts s =
     (case cfg_timeout opts of
        None \<Rightarrow> s
      | Some t \<Rightarrow> if t = 0 then s else s\<lparr>expiry := Some (now s + timer_ms t)\<rparr>)"

definition delay_ms :: "poll_config \<Rightarrow> nat" where
  "delay_ms opts = timer_ms (case cfg_interval opts of None \<Rightarrow> defaultInterval | Some i \<Rightarrow> i)"

text \<open>Time passes; the timer callback runs when it is due and logs \<open>msgs\<close>.\<close>

definition advance :: "string list \<Rightarrow> nat \<Rightarrow> poller \<Rightarrow> poller" where
  "advance msgs dt s =
     (let s' = s\<lparr>now := now s + dt\<rparr> in
      case expiry s of
        None \<Rightarrow> s'
      | Some t \<Rightarrow> if t \<le> now s + dt
                  then s'\<lparr>expiry := None, aborted := True, out := out s @ msgs\<rparr> else s')"

definition transient :: "js_error \<Rightarrow> bool" where
  "transient e \<longleftrightarrow>
     (err_axios e \<and> (case err_status e of None \<Rightarrow> False | Some st \<Rightarrow> 500 < st)) \<or>
     (case err_code e of
        None \<Rightarrow> False
      | Some c \<Rightarrow> c \<in> {''ECONNRESET'', ''ENETDOWN'', ''ENETUNREACH'', ''ETIMEDOUT'', ''ECONNREFUSED'',
                       ''ENOTFOUND'', ''EAI_AGAIN'', ''ESOCKETTIMEDOUT''})"

definition fetch ::
  "string list \<Rightarrow> (nat \<Rightarrow> nat) \<Rightarrow> (nat \<Rightarrow> 'a js_result) \<Rightarrow> poller \<Rightarrow> 'a js_result \<times> poller"
where
  "fetch msgs latency service s =
     (let (r, b) = execute DEFAULT_RECONNECT_TIMES transient service (new_backoff (calls s));
          dt = sum_list (bo_waits b) + sum_list (map latency [calls s ..< bo_calls b])
      in (r, (advance msgs dt s)\<lparr>calls := bo_calls b\<rparr>))"

text \<open>A \<open>while\<close> loop with at most \<open>n\<close> rounds: a round ends with the loop's result or a new state.\<close>

fun run_loop :: "nat \<Rightarrow> ('s \<Rightarrow> 'o + 's) \<Rightarrow> 's \<Rightarrow> 'o option" where
  "run_loop 0 step s = None"
| "run_loop (Suc n) step s =
     (case step s of Inl r \<Rightarrow> Some r | Inr s' \<Rightarrow> run_loop n step s')"


lemma run_loop_more: "run_loop n step s = Some r \<Longrightarrow> n \<le> m \<Longrightarrow> run_loop m step s = Some r"
proof (induction n step s arbitrary: m rule: run_loop.induct)
  case (2 n step s)
  from 2(3) obtain k where k: "m = Suc k" "n \<le> k" by (cases m) auto
  with 2(1) [of _ k] 2(2) show ?case by (auto split: sum.splits)
qed simp

lemma run_loop_inv:
  assumes "run_loop n step s = Some r" and "I s"
    and "\<And>s s'. I s \<Longrightarrow> step s = Inr s' \<Longrightarrow> I s'" and "\<And>s r. I s \<Longrightarrow> step s = Inl r \<Longrightarrow> Q r"
  shows "Q r"
  using assms(1,2)
proof (induction n arbitrary: s)
  case (Suc n)
  then show ?case using assms(3,4) by (cases "step s") auto
qed simp


section \<open>Clock and requests\<close>

lemma advance_sel [simp]:
  "now (advance m dt s) = now s + dt" "calls (advance m dt s) = calls s"
  by (auto simp: advance_def Let_def split: option.splits)

lemma advance_aborted: "aborted s \<Longrightarrow> aborted (advance m dt s)"
  by (auto simp: advance_def Let_def split: option.splits)

lemma timer_ms_pos [simp]: "0 < timer_ms d"
  by (simp add: timer_ms_def)

lemma delay_ms_pos [simp]: "0 < delay_ms opts"
  by (simp add: delay_ms_def)

text \<open>The timer is pending before its time, or has fired.\<close>

definition armed :: "nat \<Rightarrow> poller \<Rightarrow> bool" where
  "armed t s \<longleftrightarrow> aborted s \<or> expiry s = Some t \<and> now s < t"

lemma armed_advance: "armed t s \<Longrightarrow> armed t (advance m dt s)"
  by (auto simp: armed_def advance_def Let_def split: option.splits)

lemma armed_expired: "armed t s \<Longrightarrow> t \<le> now s + dt \<Longrightarrow> aborted (advance m dt s)"
  by (auto simp: armed_def advance_def Let_def split: option.splits)

lemma armed_late: "armed t s \<Longrightarrow> t \<le> now s \<Longrightarrow> aborted s"
  by (auto simp: armed_def)

lemma armed_calls [simp]: "armed t (s\<lparr>calls := k\<rparr>) = armed t s" "armed t (log_msg m s) = armed t s"
  "armed t (s\<lparr>out := l\<rparr>) = armed t s"
  by (simp_all add: armed_def log_msg_def)

text \<open>The time of the timeout, if one is configured, and the state of its timer in a poller started at 0.\<close>

definition due :: "poll_config \<Rightarrow> nat option" where
  "due opts = (case cfg_timeout opts of None \<Rightarrow> None | Some t \<Rightarrow> if t = 0 then None else Some (timer_ms t))"

definition timer_inv :: "poll_config \<Rightarrow> poller \<Rightarrow> bool" where
  "timer_inv opts s \<longleftrightarrow>
     (if aborted s then \<exists>t. due opts = Some t \<and> t \<le> now s
      else expiry s = due opts \<and> (\<forall>t. due opts = Some t \<longrightarrow> now s < t))"

lemma timer_inv_advance: "timer_inv opts s \<Longrightarrow> timer_inv opts (advance m dt s)"
  by (auto simp: timer_inv_def advance_def Let_def split: if_splits option.splits)

lemma timer_inv_upd [simp]:
  "timer_inv opts (s\<lparr>calls := k\<rparr>) = timer_inv opts s" "timer_inv opts (s\<lparr>out := l\<rparr>) = timer_inv opts s"
  by (simp_all add: timer_inv_def)

lemma timer_inv_set_timer:
  "now s = 0 \<Longrightarrow> \<not> aborted s \<Longrightarrow> expiry s = None \<Longrightarrow> timer_inv opts (set_timer opts s)"
  by (auto simp: timer_inv_def set_timer_def due_def split: option.splits)

lemma timer_inv_armed: "timer_inv opts s \<Longrightarrow> due opts = Some t \<Longrightarrow> armed t s"
  by (auto simp: timer_inv_def armed_def split: if_splits)

lemma fetch_run:
  assumes "fetch msgs lat service s = (r, s')"
  shows "backoff_run DEFAULT_RECONNECT_TIMES transient service (calls s) = (r, calls s')"
  using assms by (auto simp: fetch_def backoff_run_def Let_def split: prod.splits)

lemma fetch_calls:
  assumes "fetch msgs lat service s = (r, s')"
  shows "calls s < calls s'" and "r = service (calls s' - 1)"
    and "\<And>i. calls s \<le> i \<Longrightarrow> i + 1 < calls s' \<Longrightarrow> \<exists>e. service i = Inl e \<and> transient e"
  using fresh.run_last [OF fetch_run [OF assms]] fresh.run_only_temporary [OF fetch_run [OF assms]]
  by auto

lemma fetch_armed: "fetch msgs lat service s = (r, s') \<Longrightarrow> armed t s \<Longrightarrow> armed t s'"
  by (auto simp: fetch_def Let_def armed_advance split: prod.splits)

lemma fetch_timer_inv: "fetch msgs lat service s = (r, s') \<Longrightarrow> timer_inv opts s \<Longrightarrow> timer_inv opts s'"
  by (auto simp: fetch_def Let_def timer_inv_advance split: prod.splits)

lemma fetch_now: "fetch msgs lat service s = (r, s') \<Longrightarrow> now s \<le> now s'"
  by (auto simp: fetch_def Let_def split: prod.splits)

lemma fetch_aborted: "fetch msgs lat service s = (r, s') \<Longrightarrow> aborted s \<Longrightarrow> aborted s'"
  by (auto simp: fetch_def Let_def advance_aborted split: prod.splits)

text \<open>One request with all its retries takes at most 104 860 seconds and twenty-one calls.\<close>

definition request_bound :: "nat \<Rightarrow> nat" where
  "request_bound slowest = 104860000 + 21 * slowest"

lemma sum_delays_le:
  assumes "n \<le> 20"
  shows "sum_list (map retry_delay [0 ..< n]) \<le> 104860000"
proof -
  have "sum_list (map retry_delay [0 ..< n]) \<le> sum_list (map retry_delay [0 ..< 20])"
    using upt_add_eq_append [of 0 n "20 - n"] assms by simp
  also have "\<dots> = 104860000" by (simp add: upt_rec retry_delay_def)
  finally show ?thesis .
qed

lemma fetch_time:
  assumes "fetch msgs lat service s = (r, s')" and lat: "\<And>k. lat k \<le> slowest"
  shows "now s' \<le> now s + request_bound slowest"
proof -
  obtain b where b: "execute DEFAULT_RECONNECT_TIMES transient service (new_backoff (calls s)) = (r, b)"
    and t: "now s' = now s + (sum_list (bo_waits b) + sum_list (map lat [calls s ..< bo_calls b]))"
    using assms(1) by (auto simp: fetch_def Let_def split: prod.splits)
  from execute_spec [OF b] obtain n where n: "bo_calls b = calls s + Suc n" "n \<le> 20"
    and w: "bo_waits b = map retry_delay [0 ..< n]"
    by (auto simp: new_backoff_def DEFAULT_RECONNECT_TIMES_def)
  have "sum_list (map lat [calls s ..< bo_calls b]) \<le> length [calls s ..< bo_calls b] * slowest"
    using sum_list_mono [of "[calls s ..< bo_calls b]" lat "\<lambda>_. slowest"] lat
    by (simp add: sum_list_triv)
  also have "\<dots> \<le> 21 * slowest" using n by simp
  finally show ?thesis
    using sum_delays_le [OF n(2)] t w by (simp add: request_bound_def)
qed


section \<open>Loops that a timer or a final answer ends\<close>

text \<open>
  The contract of one round of a poller: it makes at least one call, takes time, respects the timer,
  and does not start once the timer has fired.
\<close>

locale poller_loop =
  fixes step :: "poller \<Rightarrow> 'o + poller"
  assumes step_now: "step s = Inr s' \<Longrightarrow> now s < now s'"
    and step_calls: "step s = Inr s' \<Longrightarrow> calls s < calls s'"
    and step_armed: "step s = Inr s' \<Longrightarrow> armed t s \<Longrightarrow> armed t s'"
    and step_aborted: "aborted s \<Longrightarrow> \<exists>r. step s = Inl r"
begin

lemma ends_by_timer:
  assumes "armed t s"
  shows "\<exists>r. run_loop (Suc (Suc (t - now s))) step s = Some r"
  using assms
proof (induction "t - now s" arbitrary: s rule: less_induct)
  case less
  show ?case
  proof (cases "step s")
    case (Inr s')
    have now: "now s < now s'" and a: "armed t s'"
      using Inr less.prems step_now step_armed by blast+
    have live: "now s < t"
      using less.prems step_aborted [of s] Inr by (auto simp: armed_def)
    have "t - now s' < t - now s" using now live by simp
    from less.hyps [OF this a] obtain r where r: "run_loop (Suc (Suc (t - now s'))) step s' = Some r"
      by blast
    moreover have "run_loop m step s' = Some r"
      if "run_loop k step s' = Some r" "k \<le> m" for k m
      using that by (rule run_loop_more)
    ultimately have "run_loop (Suc (t - now s)) step s' = Some r"
      using \<open>t - now s' < t - now s\<close> by (meson Suc_leI le_refl Suc_le_mono)
    with Inr show ?thesis by simp
  qed simp
qed

lemma ends_by_answer:
  assumes final: "\<And>s s'. calls s \<le> k \<Longrightarrow> step s = Inr s' \<Longrightarrow> calls s' \<le> k" and "calls s \<le> k"
  shows "\<exists>r. run_loop (Suc (k - calls s)) step s = Some r"
  using assms(2)
proof (induction "k - calls s" arbitrary: s rule: less_induct)
  case less
  show ?case
  proof (cases "step s")
    case (Inr s')
    have c: "calls s < calls s'" "calls s' \<le> k"
      using Inr less.prems step_calls final by blast+
    then have "k - calls s' < k - calls s" by simp
    from less.hyps [OF this c(2)] obtain r where r: "run_loop (Suc (k - calls s')) step s' = Some r"
      by blast
    from run_loop_more [OF r, of "k - calls s"] c have "run_loop (k - calls s) step s' = Some r"
      by simp
    with Inr show ?thesis by simp
  qed simp
qed

end

end
