(* ===== verification/Scan_Polling.thy ===== *)
theory Scan_Polling
  imports Breakpoints Poll_Loop
begin

text \<open>
  The scan poller of \<open>src/Scan/BasePolling.ts\<close> and its factory (\<open>src/Scan/DefaultPollingFactory.ts\<close>).
  \<open>status\<close> is \<open>scanManager.status(scanId)\<close> by number of call.
\<close>

definition isRedundant :: "scan_status \<Rightarrow> bool" where
  "isRedundant st \<longleftrightarrow> st = DONE \<or> st = STOPPED \<or> st = DISRUPTED \<or> st = FAILED"

text \<open>One round of the \<open>while\<close> in \<open>poll\<close> together with the body of the \<open>for await\<close> in \<open>start\<close>.\<close>

definition poll_round ::
  "poll_config \<Rightarrow> severity \<Rightarrow> (nat \<Rightarrow> nat) \<Rightarrow> (nat \<Rightarrow> scan_state js_result) \<Rightarrow> poller \<Rightarrow>
     (unit js_result \<times> poller) + poller"
where
  "poll_round opts breakpoint latency status s =
     (if aborted s then Inl (Inr (), s)
      else let (r, s') = fetch [] latency status (advance [] (delay_ms opts) s) in
        case r of
          Inl e \<Rightarrow> Inl (Inl e, s')
        | Inr state \<Rightarrow>
            if isRedundant (scan_status state) then Inl (Inr (), s')
            else (case breakpoint_execute breakpoint state of
                    Inl e \<Rightarrow> Inl (Inl e, s')
                  | Inr _ \<Rightarrow> Inr s'))"

definition stop_polling :: "poller \<Rightarrow> poller" where
  "stop_polling s =
     (let s' = (if aborted s then log_msg ''Polling has been terminated by timeout.'' s else s) in
      s'\<lparr>aborted := True, expiry := None\<rparr>)"

definition start_polling :: "poll_config \<Rightarrow> poller \<Rightarrow> poller" where
  "start_polling opts s = set_timer opts (log_msg ''Starting polling...'' s)"

definition start ::
  "nat \<Rightarrow> poll_config \<Rightarrow> severity \<Rightarrow> (nat \<Rightarrow> nat) \<Rightarrow> (nat \<Rightarrow> scan_state js_result) \<Rightarrow>
     poller \<Rightarrow> (unit js_result \<times> poller) option"
where
  "start fuel opts breakpoint latency status s =
     map_option (map_prod id stop_polling)
       (run_loop fuel (poll_round opts breakpoint latency status) (start_polling opts s))"

text \<open>The constructor, as the factory calls it: it warns and insists on a breakpoint.\<close>

definition new_polling :: "poll_config \<Rightarrow> severity option \<Rightarrow> (severity \<times> poller) js_result" where
  "new_polling opts breakpoint =
     (case breakpoint of
        None \<Rightarrow> Inl (assertion_error ''You should choose a breakpoint for polling.'')
      | Some b \<Rightarrow> Inr (b, new_poller\<lparr>out := polling_warnings ''10-20min.'' opts\<rparr>))"

definition create_polling :: "poll_config \<Rightarrow> string \<Rightarrow> (severity \<times> poller) js_result" where
  "create_polling opts breakpoint_type = new_polling opts (create_breakpoint breakpoint_type)"


section \<open>A round keeps the contract of a poller\<close>

lemma poll_round_Inr:
  assumes "poll_round opts b lat status s = Inr s'"
  obtains st where "\<not> aborted s"
    "fetch [] lat status (advance [] (delay_ms opts) s) = (Inr st, s')"
    "\<not> isRedundant (scan_status st)" "\<not> isExcepted b st"
  using assms breakpoint_execute_cases [of b]
  by (fastforce simp: poll_round_def breakpoint_execute_def split: if_splits prod.splits sum.splits)

interpretation scan_loop: poller_loop "poll_round opts b lat status" for opts b lat status
proof
  fix s s' t
  assume "poll_round opts b lat status s = Inr s'"
  then obtain st where f: "fetch [] lat status (advance [] (delay_ms opts) s) = (Inr st, s')"
    by (rule poll_round_Inr)
  from fetch_now [OF f] delay_ms_pos [of opts] show "now s < now s'" unfolding advance_sel by linarith
  from fetch_calls(1) [OF f] show "calls s < calls s'" by simp
  show "armed t s'" if "armed t s"
    using fetch_armed [OF f] armed_advance [OF that] by blast
qed (simp add: poll_round_def)


section \<open>Outcome\<close>

text \<open>An answer after which polling goes on.\<close>

definition quiet :: "severity \<Rightarrow> scan_state js_result \<Rightarrow> bool" where
  "quiet b r = (case r of Inl e \<Rightarrow> transient e
     | Inr st \<Rightarrow> \<not> isRedundant (scan_status st) \<and> \<not> isExcepted b st)"

text \<open>What ends the polling after the answer \<open>r\<close> of the last call.\<close>

fun decides :: "severity \<Rightarrow> scan_state js_result \<Rightarrow> unit js_result \<Rightarrow> bool" where
  "decides b (Inl e) r \<longleftrightarrow> r = Inl e"
| "decides b (Inr st) r \<longleftrightarrow>
     (if isRedundant (scan_status st) then r = Inr () else isExcepted b st \<and> r = Inl (breakOn b))"

lemma fetch_quiet:
  assumes "fetch m lat status s = (r, s')" and "\<forall>i < calls s. quiet b (status i)" and "i + 1 < calls s'"
  shows "quiet b (status i)"
proof (cases "i < calls s")
  case False
  with fetch_calls(3) [OF assms(1), of i] assms(3) show ?thesis by (auto simp: quiet_def)
qed (use assms in simp)

lemma poll_round_quiet:
  assumes "poll_round opts b lat status s = Inr s'" and "\<forall>i < calls s. quiet b (status i)"
  shows "\<forall>i < calls s'. quiet b (status i)"
proof -
  from assms(1) obtain st
    where f: "fetch [] lat status (advance [] (delay_ms opts) s) = (Inr st, s')"
      and st: "\<not> isRedundant (scan_status st)" "\<not> isExcepted b st"
    by (rule poll_round_Inr)
  from fetch_calls(2) [OF f] have "status (calls s' - 1) = Inr st" by simp
  with st have last: "quiet b (status (calls s' - 1))" by (simp add: quiet_def)
  show ?thesis
  proof (intro allI impI)
    fix i assume "i < calls s'"
    then consider "i + 1 < calls s'" | "i = calls s' - 1" by linarith
    then show "quiet b (status i)"
      using fetch_quiet [OF f, of b i] assms(2) last by cases auto
  qed
qed

lemma poll_round_ends:
  assumes "poll_round opts b lat status s = Inl (r, s')" and "\<forall>i < calls s. quiet b (status i)"
  shows "r = Inr () \<and> aborted s' \<and> (\<forall>i < calls s'. quiet b (status i)) \<or>
    0 < calls s' \<and> decides b (status (calls s' - 1)) r \<and>
      (\<forall>i. i + 1 < calls s' \<longrightarrow> quiet b (status i))"
proof (cases "aborted s")
  case False
  obtain a s1 where f: "fetch [] lat status (advance [] (delay_ms opts) s) = (a, s1)"
    by (cases "fetch [] lat status (advance [] (delay_ms opts) s)")
  from assms(1) False f have "s' = s1" and d: "decides b a r"
    by (auto simp: poll_round_def breakpoint_execute_def split: sum.splits if_splits)
  with fetch_calls(1,2) [OF f] fetch_quiet [OF f] assms(2) show ?thesis by auto
qed (use assms in \<open>auto simp: poll_round_def\<close>)

lemma stop_polling_sel [simp]:
  "calls (stop_polling s) = calls s" "now (stop_polling s) = now s" "aborted (stop_polling s)"
  "expiry (stop_polling s) = None"
  by (simp_all add: stop_polling_def Let_def log_msg_def)

lemma start_polling_sel [simp]:
  "calls (start_polling opts s) = calls s" "now (start_polling opts s) = now s"
  by (auto simp: start_polling_def set_timer_def log_msg_def split: option.splits)

lemma poll_round_timer_inv:
  "poll_round opts b lat status s = Inr s' \<Longrightarrow> timer_inv opts s \<Longrightarrow> timer_inv opts s'"
  "poll_round opts b lat status s = Inl (r, s') \<Longrightarrow> timer_inv opts s \<Longrightarrow> timer_inv opts s'"
  by (auto simp: poll_round_def intro: fetch_timer_inv timer_inv_advance
      split: if_splits prod.splits sum.splits)

lemma poll_round_time:
  assumes lat: "\<And>k. lat k \<le> slowest" and inv: "timer_inv opts s" and due: "due opts = Some t"
    and "now s \<le> t + delay_ms opts + request_bound slowest"
  shows "poll_round opts b lat status s = Inr s' \<Longrightarrow> now s' \<le> t + delay_ms opts + request_bound slowest"
    and "poll_round opts b lat status s = Inl (r, s') \<Longrightarrow> now s' \<le> t + delay_ms opts + request_bound slowest"
proof -
  obtain a s1 where f: "fetch [] lat status (advance [] (delay_ms opts) s) = (a, s1)"
    by (cases "fetch [] lat status (advance [] (delay_ms opts) s)")
  have "now s1 \<le> t + delay_ms opts + request_bound slowest" if "\<not> aborted s"
    using fetch_time [OF f lat] inv due that by (auto simp: timer_inv_def)
  with f assms(4) show
    "poll_round opts b lat status s = Inr s' \<Longrightarrow> now s' \<le> t + delay_ms opts + request_bound slowest"
    "poll_round opts b lat status s = Inl (r, s') \<Longrightarrow> now s' \<le> t + delay_ms opts + request_bound slowest"
    by (auto simp: poll_round_def split: if_splits sum.splits)
qed

lemma create_polling_sel:
  assumes "create_polling opts ty = Inr (b, s)"
  shows "create_breakpoint ty = Some b" "calls s = 0" "now s = 0"
    "timer_inv opts (start_polling opts s)"
  using assms
  by (auto simp: create_polling_def new_polling_def new_poller_def start_polling_def log_msg_def
      intro!: timer_inv_set_timer split: option.splits)

lemma start_Some:
  assumes "start fuel opts b lat status s = Some (r, s')"
  obtains s1 where "s' = stop_polling s1"
    "run_loop fuel (poll_round opts b lat status) (start_polling opts s) = Some (r, s1)"
  using assms by (auto simp: start_def)

lemma start_outcome:
  assumes "create_polling opts ty = Inr (b, s0)"
    and "start fuel opts b lat status s0 = Some (r, s)"
  shows "aborted s \<and> expiry s = None \<and>
    (r = Inr () \<and> (\<forall>i < calls s. quiet b (status i)) \<and> (\<exists>t. due opts = Some t \<and> t \<le> now s) \<or>
     0 < calls s \<and> decides b (status (calls s - 1)) r \<and> (\<forall>i. i + 1 < calls s \<longrightarrow> quiet b (status i)))"
proof -
  let ?step = "poll_round opts b lat status"
  let ?I = "\<lambda>s. timer_inv opts s \<and> (\<forall>i < calls s. quiet b (status i))"
  let ?Q = "\<lambda>(r, s). timer_inv opts s \<and>
    (r = Inr () \<and> aborted s \<and> (\<forall>i < calls s. quiet b (status i)) \<or>
     0 < calls s \<and> decides b (status (calls s - 1)) r \<and> (\<forall>i. i + 1 < calls s \<longrightarrow> quiet b (status i)))"
  obtain s1 where s: "s = stop_polling s1"
    and run: "run_loop fuel ?step (start_polling opts s0) = Some (r, s1)"
    using assms(2) by (rule start_Some)
  have "?Q (r, s1)"
  proof (rule run_loop_inv [OF run])
    show "?I (start_polling opts s0)" using create_polling_sel [OF assms(1)] by simp
    show "?I s2" if "?I s1" "?step s1 = Inr s2" for s1 s2
      using that poll_round_timer_inv(1) poll_round_quiet by blast
    show "?Q q" if "?I s1" "?step s1 = Inl q" for s1 q
      using that poll_round_timer_inv(2) poll_round_ends by (cases q) blast
  qed
  with s show ?thesis by (auto simp: timer_inv_def)
qed

text \<open>
  C2. Polling a scan never misses its breakpoint and never stops early: whenever \<open>start\<close> settles, all
  answers before the last were connection problems that were retried or states of a live scan
  below the breakpoint, and either the configured timeout has passed, or the last answer decided:
  a final status ends the polling normally, a state at the breakpoint rejects with the breakpoint
  exception, an error rejects with that error.  The poller is inactive afterwards, its timer gone.
\<close>

theorem scan_polling_outcome:
  assumes "create_polling opts ty = Inr (b, s0)"
    and "start fuel opts b lat status s0 = Some (r, s)"
  shows "aborted s \<and> expiry s = None \<and>
    (r = Inr () \<and> (\<forall>i < calls s. quiet b (status i)) \<and> (\<exists>t. due opts = Some t \<and> t \<le> now s) \<or>
     0 < calls s \<and> decides b (status (calls s - 1)) r \<and> (\<forall>i. i + 1 < calls s \<longrightarrow> quiet b (status i)))"
  by (rule start_outcome [OF assms])

text \<open>
  C14. With a timeout configured, polling a scan always settles, whatever the service answers: within
  as many rounds as the timeout has milliseconds, and at the latest one interval and one fully
  retried request after the timeout.
\<close>

theorem scan_polling_times_out:
  assumes "create_polling opts ty = Inr (b, s0)" and "due opts = Some t"
    and "\<forall>k. lat k \<le> slowest"
  shows "\<exists>r s. start (t + 2) opts b lat status s0 = Some (r, s) \<and>
    now s \<le> t + delay_ms opts + request_bound slowest"
proof -
  let ?step = "poll_round opts b lat status"
  let ?B = "t + delay_ms opts + request_bound slowest"
  note init = create_polling_sel [OF assms(1)]
  obtain q where "run_loop (Suc (Suc (t - now s0))) ?step (start_polling opts s0) = Some q"
    using scan_loop.ends_by_timer [OF timer_inv_armed [OF init(4) assms(2)], of opts b lat status]
    by (auto simp del: run_loop.simps)
  with init(3) have "run_loop (t + 2) ?step (start_polling opts s0) = Some q" by simp
  moreover obtain r s where "q = (r, s)" by (cases q)
  ultimately have run: "run_loop (t + 2) ?step (start_polling opts s0) = Some (r, s)" by simp
  have "(\<lambda>(r, s). now s \<le> ?B) (r, s)"
  proof (rule run_loop_inv [OF run])
    show "timer_inv opts (start_polling opts s0) \<and> now (start_polling opts s0) \<le> ?B"
      using init by simp
    show "timer_inv opts s2 \<and> now s2 \<le> ?B"
      if "timer_inv opts s1 \<and> now s1 \<le> ?B" "?step s1 = Inr s2" for s1 s2
      using that poll_round_timer_inv(1) poll_round_time(1) [of lat slowest] assms(2,3) by blast
    show "(\<lambda>(r, s). now s \<le> ?B) q" if "timer_inv opts s1 \<and> now s1 \<le> ?B" "?step s1 = Inl q" for s1 q
      using that poll_round_time(2) [of lat slowest] assms(2,3) by (cases q) blast
  qed
  with run show ?thesis by (auto simp: start_def)
qed

text \<open>
  Without any assumption on the timeout, polling settles after at most \<open>k + 1\<close> rounds when the
  answer to call \<open>k\<close> is final: a finished scan, a reached breakpoint or an error that is not retried.
\<close>

theorem scan_polling_settles:
  assumes "create_polling opts ty = Inr (b, s0)" and "\<not> quiet b (status k)"
  shows "\<exists>r s. start (k + 1) opts b lat status s0 = Some (r, s)"
proof -
  have "calls s' \<le> k"
    if "calls s \<le> k" and round: "poll_round opts b lat status s = Inr s'" for s s'
  proof (rule ccontr)
    assume "\<not> calls s' \<le> k"
    from round obtain st
      where f: "fetch [] lat status (advance [] (delay_ms opts) s) = (Inr st, s')"
        and st: "\<not> isRedundant (scan_status st)" "\<not> isExcepted b st"
      by (rule poll_round_Inr)
    from \<open>\<not> calls s' \<le> k\<close> consider "k = calls s' - 1" | "k + 1 < calls s'" by linarith
    then show False
    proof cases
      case 1
      with fetch_calls(2) [OF f] have "status k = Inr st" by simp
      with st assms(2) show False by (simp add: quiet_def)
    next
      case 2
      with fetch_calls(3) [OF f, of k] \<open>calls s \<le> k\<close> assms(2) show False by (auto simp: quiet_def)
    qed
  qed
  from scan_loop.ends_by_answer [OF this, where s = "start_polling opts s0"] create_polling_sel(2) [OF assms(1)]
  show ?thesis by (auto simp: start_def)
qed


section \<open>Witnesses\<close>

text \<open>A scan that runs for two answers, loses the connection once and is then done.\<close>

definition live_scan :: scan_state where
  "live_scan = \<lparr>scan_status = RUNNING, numberOfIssues = (\<lambda>s. if s = LOW then 3 else 0)\<rparr>"

definition sample_status :: "nat \<Rightarrow> scan_state js_result" where
  "sample_status n =
     (if n < 2 then Inr live_scan
      else if n = 2 then Inl ((mk_error ''reset'')\<lparr>err_code := Some ''ECONNRESET''\<rparr>)
      else Inr (live_scan\<lparr>scan_status := DONE\<rparr>))"

definition sample_opts :: poll_config where
  "sample_opts = \<lparr>cfg_timeout = Some 600000, cfg_interval = Some 15000\<rparr>"

definition sample_poller :: poller where
  "sample_poller = new_poller"

lemma create_sample: "create_polling sample_opts ''high_issue'' = Inr (HIGH, sample_poller)"
  by (simp add: create_polling_def create_breakpoint_def new_polling_def sample_opts_def
      polling_warnings_def defaultInterval_def sample_poller_def new_poller_def)

lemma due_sample: "due sample_opts = Some 600000"
  by (simp add: due_def sample_opts_def timer_ms_def)

lemma live_scan_quiet: "\<not> isExcepted HIGH live_scan" "\<not> isRedundant (scan_status live_scan)"
  by (simp_all add: live_scan_def isExcepted_def isRedundant_def break_severities_def severityRanges_get)

theorem scan_polling_settles_witness:
  "\<not> quiet HIGH (sample_status 3) \<and>
   (\<exists>r s. start (3 + 1) sample_opts HIGH (\<lambda>_. 250) sample_status sample_poller = Some (r, s))"
proof -
  have "\<not> quiet HIGH (sample_status 3)"
    by (simp add: quiet_def sample_status_def isRedundant_def)
  then show ?thesis using scan_polling_settles [OF create_sample] by blast
qed

theorem scan_polling_times_out_witness:
  "\<exists>r s. start (600000 + 2) sample_opts HIGH (\<lambda>_. 250) (\<lambda>_. Inr live_scan) sample_poller = Some (r, s) \<and>
     now s \<le> 600000 + 15000 + request_bound 250"
proof -
  have "delay_ms sample_opts = 15000" by (simp add: delay_ms_def sample_opts_def timer_ms_def)
  with scan_polling_times_out [OF create_sample due_sample, of "\<lambda>_. 250" 250 "\<lambda>_. Inr live_scan"]
  show ?thesis by simp
qed

lemma sample_execute:
  "execute m p sample_status b =
     (if retryable p (sample_status (bo_calls b)) \<and> bo_depth b < m
      then execute m p sample_status (retry m (b\<lparr>bo_calls := Suc (bo_calls b)\<rparr>))
      else (sample_status (bo_calls b), b\<lparr>bo_calls := Suc (bo_calls b)\<rparr>))"
  using execute_stop [of p sample_status b m] execute_again [of p sample_status b m] by simp

theorem scan_polling_outcome_witness:
  "\<exists>s. start (Suc (Suc (Suc 0))) sample_opts HIGH (\<lambda>_. 250) sample_status sample_poller = Some (Inr (), s) \<and>
     calls s = 4 \<and> now s = 47000 \<and> aborted s \<and> decides HIGH (sample_status 3) (Inr ())"
proof -
  have "scan_status live_scan = RUNNING" by (simp add: live_scan_def)
  note ev = this retryable_def transient_def mk_error_def sample_execute fetch_def poll_round_def live_scan_quiet(1) breakpoint_execute_def
    isRedundant_def new_backoff_def advance_def Let_def retry_delay_def
  have d: "delay_ms sample_opts = 15000" by (simp add: delay_ms_def sample_opts_def timer_ms_def)
  have i: "start_polling sample_opts sample_poller =
      \<lparr>now = 0, calls = 0, expiry = Some 600000, aborted = False, out = [''Starting polling...'']\<rparr>"
    by (simp add: start_polling_def sample_poller_def new_poller_def log_msg_def set_timer_def
        sample_opts_def timer_ms_def)
  have "\<exists>s. start (Suc (Suc (Suc 0))) sample_opts HIGH (\<lambda>_. 250) sample_status sample_poller = Some (Inr (), s) \<and>
     calls s = 4 \<and> now s = 47000"
    by (simp add: start_def i d ev DEFAULT_RECONNECT_TIMES_def upt_rec sample_status_def)
  then obtain s where s: "start (Suc (Suc (Suc 0))) sample_opts HIGH (\<lambda>_. 250) sample_status sample_poller =
      Some (Inr (), s)" "calls s = 4" "now s = 47000" by blast
  from scan_polling_outcome [OF create_sample s(1)] s(2,3) due_sample show ?thesis
    by (auto simp: s(1))
qed

end
