(* ===== verification/Error_Messages.thy ===== *)
theory Error_Messages
  imports Js_Text
begin

text \<open>
  The one-line messages commands print before they exit with an error
  (\<open>src/Utils/ErrorMessageFactory.ts\<close>).
\<close>

datatype thrown = Thrown_String string | Thrown_Error js_error

datatype error_params = Of_Command string thrown | Of_Message string thrown

definition formatFinalMessage :: "string \<Rightarrow> string option \<Rightarrow> string" where
  "formatFinalMessage baseMessage errorDetails =
     (if truthy errorDetails then baseMessage @ '': '' @ the errorDetails @ ''.''
      else baseMessage @ ''.'')"

fun getTitle :: "error_params \<Rightarrow> string" where
  "getTitle (Of_Message message _) = message"
| "getTitle (Of_Command command _) = ''Error during \"'' @ command @ ''\"''"

fun thrown_of :: "error_params \<Rightarrow> thrown" where
  "thrown_of (Of_Message _ e) = e"
| "thrown_of (Of_Command _ e) = e"

definition extractErrorDetails :: "error_params \<Rightarrow> string option" where
  "extractErrorDetails params =
     (case thrown_of params of
        Thrown_String s \<Rightarrow> Some s
      | Thrown_Error e \<Rightarrow>
          if err_axios e \<and> err_data e \<noteq> None then err_data e
          else Some (if truthy (err_error e) then the (err_error e) else err_message e))"

definition genericCommandError :: "error_params \<Rightarrow> string" where
  "genericCommandError params = formatFinalMessage (getTitle params) (extractErrorDetails params)"

abbreviation command_error :: "string \<Rightarrow> js_error \<Rightarrow> string" where
  "command_error command e \<equiv> genericCommandError (Of_Command command (Thrown_Error e))"

text \<open>
  The message starts with the title and ends with a full stop.  The response body wins over the
  message for a failed HTTP request.
\<close>

lemma genericCommandError_form:
  "startsWith (genericCommandError params) (getTitle params)"
  "last (genericCommandError params) = CHR ''.''"
  by (simp_all add: genericCommandError_def formatFinalMessage_def startsWith_def)

lemma command_error_response:
  "err_axios e \<Longrightarrow> err_data e = Some d \<Longrightarrow> d \<noteq> [] \<Longrightarrow>
     command_error c e = ''Error during \"'' @ c @ ''\": '' @ d @ ''.''"
  by (simp add: genericCommandError_def formatFinalMessage_def extractErrorDetails_def)

end
