(* ===== verification/Abort_Polling.thy ===== *)
theory Abort_Polling
  imports Poll_Loop Error_Messages
begin

text \<open>
  The pollers of discoveries and of host update jobs (\<open>src/Discovery/DiscoveryPolling.ts\<close>,
  \<open>src/EntryPoint/HostUpdateJobStatusPolling.ts\<close>).  They have the same code around an
  \<open>AbortController\<close>, up to the messages and the final statuses: \<open>abort_round\<close>, \<open>delay\<close> and
  \<open>abort_start\<close> are that code, with what differs as arguments.  An answer is \<open>None\<close> when the service
  returns no view.
\<close>

datatype poll_exit = Returned | Exited nat

definition timeout_msg :: "string list" where
  "timeout_msg = [''Polling has been stopped by timeout.'']"

text \<open>
  \<open>delay\<close>: the sleep rejects with an \<open>AbortError\<close> at once when the signal is already aborted, and as
  soon as the timer aborts it (\<open>Inl\<close>).
\<close>

definition delay :: "poll_config \<Rightarrow> poller \<Rightarrow> poller + poller" where
  "delay opts s =
     (if aborted s then Inl s
      else let s' = advance timeout_msg (delay_ms opts) s in
        if aborted s' then Inl (advance timeout_msg (the (expiry s) - now s) s) else Inr s')"

definition handleError :: "(js_error \<Rightarrow> string list) \<Rightarrow> js_error \<Rightarrow> poller \<Rightarrow> poll_exit \<times> poller" where
  "handleError report e s =
     (if aborted s then (Returned, s) else (Exited 1, s\<lparr>out := out s @ report e\<rparr>))"

definition abort_error :: js_error where
  "abort_error = (mk_error ''The operation was aborted'')\<lparr>err_name := ''AbortError'', err_code := Some ''ABORT_ERR''\<rparr>"

definition abort_round ::
  "('v option \<Rightarrow> bool \<times> string list) \<Rightarrow> (js_error \<Rightarrow> string list) \<Rightarrow> poll_config \<Rightarrow> (nat \<Rightarrow> nat) \<Rightarrow>
     (nat \<Rightarrow> 'v option js_result) \<Rightarrow> poller \<Rightarrow> (poll_exit \<times> poller) + poller"
where
  "abort_round process report opts latency service s =
     (if aborted s then Inl (Returned, s)
      else let (r, s') = fetch timeout_msg latency service s in
        case r of
          Inl e \<Rightarrow> Inl (handleError report e s')
        | Inr view \<Rightarrow>
            let (continue, msgs) = process view; s'' = s'\<lparr>out := out s' @ msgs\<rparr> in
            if \<not> continue then Inl (Returned, s'')
            else (case delay opts s'' of
                    Inl s3 \<Rightarrow> Inl (handleError report abort_error s3)
                  | Inr s3 \<Rightarrow> Inr s3))"

definition abort_stop :: "poll_exit \<times> poller \<Rightarrow> poll_exit \<times> poller" where
  "abort_stop q =
     (case q of
        (Returned, s) \<Rightarrow> (Returned, s\<lparr>aborted := True, expiry := None\<rparr>)
      | (Exited n, s) \<Rightarrow> (Exited n, s))"

definition abort_start ::
  "nat \<Rightarrow> ('v option \<Rightarrow> bool \<times> string list) \<Rightarrow> (js_error \<Rightarrow> string list) \<Rightarrow> poll_config \<Rightarrow>
     (nat \<Rightarrow> nat) \<Rightarrow> (nat \<Rightarrow> 'v option js_result) \<Rightarrow> poller \<Rightarrow> (poll_exit \<times> poller) option"
where
  "abort_start fuel process report opts latency service s =
     map_option abort_stop
       (run_loop fuel (abort_round process report opts latency service)
          (set_timer opts (log_msg ''Starting polling...'' s)))"


section \<open>Discoveries\<close>

text \<open>Statuses are the strings the service sends.\<close>

record discovery_view =
  view_id :: string
  view_name :: string
  view_status :: string

definition discovery_finished :: "string \<Rightarrow> bool" where
  "discovery_finished st \<longleftrightarrow> st \<in> {''done'', ''stopped'', ''disrupted'', ''failed''}"

definition discovery_messages :: "(string, string) store" where
  "discovery_messages =
     [(''running'', ''Discovery is running.''), (''pending'', ''Discovery is pending.''),
      (''scheduled'', ''Discovery is scheduled.''), (''queued'', ''Discovery is queued.''),
      (''done'', ''Discovery has been completed.''), (''stopped'', ''Discovery has been stopped.''),
      (''disrupted'', ''Discovery has been disrupted.''), (''failed'', ''Discovery has failed.'')]"

definition handleDiscoveryStatus :: "string \<Rightarrow> string" where
  "handleDiscoveryStatus st =
     (case sget discovery_messages st of None \<Rightarrow> ''Discovery status is '' @ st @ ''.'' | Some m \<Rightarrow> m)"

definition processDiscoveryView :: "discovery_view option \<Rightarrow> bool \<times> string list" where
  "processDiscoveryView discovery =
     (case discovery of
        None \<Rightarrow> (False, [''The discovery has not been found.''])
      | Some d \<Rightarrow>
          if discovery_finished (view_status d)
          then (False, [handleDiscoveryStatus (view_status d),
                        ''The discovery has been finished with status: '' @ view_status d @ ''.''])
          else (True, [handleDiscoveryStatus (view_status d)]))"

text \<open>\<open>handleError\<close> of the discovery poller composes a message and drops it.\<close>

definition discovery_report :: "js_error \<Rightarrow> string list" where
  "discovery_report e = []"

definition discovery_polling :: "poll_config \<Rightarrow> poller" where
  "discovery_polling opts = new_poller\<lparr>out := polling_warnings ''10-20min.'' opts\<rparr>"

definition discovery_start ::
  "nat \<Rightarrow> poll_config \<Rightarrow> (nat \<Rightarrow> nat) \<Rightarrow> (nat \<Rightarrow> discovery_view option js_result) \<Rightarrow> poller \<Rightarrow>
     (poll_exit \<times> poller) option"
where
  "discovery_start fuel = abort_start fuel processDiscoveryView discovery_report"


section \<open>Host update jobs\<close>

record host_job_view =
  job_id :: string
  job_status :: string
  totalCount :: nat
  processedCount :: nat
  skippedCount :: nat
  job_error :: "string option"

definition job_finished :: "string \<Rightarrow> bool" where
  "job_finished st \<longleftrightarrow> st = ''completed'' \<or> st = ''failed''"

definition job_messages :: "(string, string) store" where
  "job_messages =
     [(''pending'', ''Host update job is pending.''), (''processing'', ''Host update job is processing.''),
      (''completed'', ''Host update job has been completed.''), (''failed'', ''Host update job has failed.'')]"

definition handleJobStatus :: "string \<Rightarrow> string" where
  "handleJobStatus st =
     (case sget job_messages st of None \<Rightarrow> ''Host update job status is '' @ st @ ''.'' | Some m \<Rightarrow> m)"

definition processJobView :: "host_job_view option \<Rightarrow> bool \<times> string list" where
  "processJobView job =
     (case job of
        None \<Rightarrow> (False, [''The host update job has not been found.''])
      | Some j \<Rightarrow>
          if job_finished (job_status j)
          then (False, [handleJobStatus (job_status j),
                        ''The host update job has been finished with status: '' @ job_status j @ ''.''])
          else (True, [handleJobStatus (job_status j)]))"

definition job_report :: "js_error \<Rightarrow> string list" where
  "job_report e = [command_error ''entrypoints:update-host-polling'' e]"

definition host_job_polling :: "poll_config \<Rightarrow> poller" where
  "host_job_polling opts = new_poller\<lparr>out := polling_warnings ''10-60min.'' opts\<rparr>"

definition host_job_start ::
  "nat \<Rightarrow> poll_config \<Rightarrow> (nat \<Rightarrow> nat) \<Rightarrow> (nat \<Rightarrow> host_job_view option js_result) \<Rightarrow> poller \<Rightarrow>
     (poll_exit \<times> poller) option"
where
  "host_job_start fuel = abort_start fuel processJobView job_report"


section \<open>A round keeps the contract of a poller\<close>

lemma delay_Inr:
  "delay opts s = Inr s' \<longleftrightarrow> s' = advance timeout_msg (delay_ms opts) s \<and> \<not> aborted s'"
  using advance_aborted [of s timeout_msg "delay_ms opts"] by (auto simp: delay_def Let_def)

lemma delay_Inl:
  assumes "delay opts s = Inl s'"
  shows "aborted s'" "calls s' = calls s" "now s' \<le> now s + delay_ms opts"
  using assms by (auto simp: delay_def Let_def advance_def split: if_splits option.splits)

lemma abort_round_Inr:
  assumes "abort_round process report opts lat service s = Inr s'"
  obtains v s1 where "\<not> aborted s" "fetch timeout_msg lat service s = (Inr v, s1)" "fst (process v)"
    "s' = advance timeout_msg (delay_ms opts) (s1\<lparr>out := out s1 @ snd (process v)\<rparr>)" "\<not> aborted s'"
  using assms
  by (auto simp: abort_round_def Let_def delay_Inr split: if_splits prod.splits sum.splits)

interpretation abort_loop: poller_loop "abort_round process report opts lat service"
  for process report opts lat service
proof
  fix s s' t
  assume "abort_round process report opts lat service s = Inr s'"
  then obtain v s1 where f: "fetch timeout_msg lat service s = (Inr v, s1)"
    and s': "s' = advance timeout_msg (delay_ms opts) (s1\<lparr>out := out s1 @ snd (process v)\<rparr>)"
    by (rule abort_round_Inr)
  have "now s < now s1 + delay_ms opts" using fetch_now [OF f] delay_ms_pos [of opts] by linarith
  with s' show "now s < now s'" by simp
  from fetch_calls(1) [OF f] s' show "calls s < calls s'" by simp
  show "armed t s'" if "armed t s"
    using fetch_armed [OF f that] s' by (simp add: armed_advance)
qed (simp add: abort_round_def)


section \<open>Outcome\<close>

definition view_quiet :: "('v option \<Rightarrow> bool \<times> string list) \<Rightarrow> 'v option js_result \<Rightarrow> bool" where
  "view_quiet process r = (case r of Inl e \<Rightarrow> transient e | Inr v \<Rightarrow> fst (process v))"

text \<open>The ways the loop can end, given the answers so far.\<close>

definition abort_ended ::
  "('v option \<Rightarrow> bool \<times> string list) \<Rightarrow> poll_config \<Rightarrow> (nat \<Rightarrow> 'v option js_result) \<Rightarrow> poll_exit \<Rightarrow> poller \<Rightarrow> bool"
where
  "abort_ended process opts service x s \<longleftrightarrow>
     (\<forall>i. i + 1 < calls s \<longrightarrow> view_quiet process (service i)) \<and>
     (x = Returned \<and> (\<exists>t. due opts = Some t \<and> t \<le> now s) \<or>
      x = Returned \<and> 0 < calls s \<and> (\<exists>v. service (calls s - 1) = Inr v \<and> \<not> fst (process v)) \<or>
      x = Exited 1 \<and> 0 < calls s \<and> (\<exists>e. service (calls s - 1) = Inl e) \<and>
        (\<forall>t. due opts = Some t \<longrightarrow> now s < t))"

lemma fetch_view_quiet:
  assumes "fetch m lat service s = (r, s')" and "\<forall>i < calls s. view_quiet process (service i)"
    and "i + 1 < calls s'"
  shows "view_quiet process (service i)"
proof (cases "i < calls s")
  case False
  with fetch_calls(3) [OF assms(1), of i] assms(3) show ?thesis by (auto simp: view_quiet_def)
qed (use assms in simp)

lemma abort_round_inv:
  assumes "abort_round process report opts lat service s = Inr s'"
    and "timer_inv opts s" and q: "\<forall>i < calls s. view_quiet process (service i)"
  shows "timer_inv opts s' \<and> (\<forall>i < calls s'. view_quiet process (service i)) \<and> \<not> aborted s'"
proof -
  from assms(1) obtain v s1 where f: "fetch timeout_msg lat service s = (Inr v, s1)" and "fst (process v)"
    and s': "s' = advance timeout_msg (delay_ms opts) (s1\<lparr>out := out s1 @ snd (process v)\<rparr>)"
    and live: "\<not> aborted s'"
    by (rule abort_round_Inr)
  from \<open>fst (process v)\<close> have last: "view_quiet process (service (calls s1 - 1))"
    unfolding fetch_calls(2) [OF f, symmetric] by (simp add: view_quiet_def)
  have "view_quiet process (service i)" if "i < calls s'" for i
  proof -
    from that s' consider "i + 1 < calls s1" | "i = calls s1 - 1" by fastforce
    then show ?thesis using fetch_view_quiet [OF f q, of i] last by cases auto
  qed
  then show ?thesis
    using fetch_timer_inv [OF f assms(2)] s' live by (simp add: timer_inv_advance)
qed

lemma abort_round_ends:
  assumes "abort_round process report opts lat service s = Inl (x, s')"
    and inv: "timer_inv opts s" and q: "\<forall>i < calls s. view_quiet process (service i)"
  shows "abort_ended process opts service x s'"
proof (cases "aborted s")
  case True
  with assms show ?thesis by (auto simp: abort_round_def abort_ended_def timer_inv_def)
next
  case False
  obtain r s1 where f: "fetch timeout_msg lat service s = (r, s1)"
    by (cases "fetch timeout_msg lat service s")
  note before = fetch_view_quiet [OF f q] and pos = fetch_calls(1) [OF f]
    and ans = fetch_calls(2) [OF f, symmetric]
  have tinv: "timer_inv opts s1" by (rule fetch_timer_inv [OF f inv])
  show ?thesis
  proof (cases r)
    case (Inl e)
    with assms(1) False f have res: "(x, s') = handleError report e s1" by (simp add: abort_round_def)
    show ?thesis
    proof (cases "aborted s1")
      case True
      with res tinv before show ?thesis by (simp add: handleError_def abort_ended_def timer_inv_def)
    next
      case False
      with res tinv before pos ans Inl show ?thesis
        by (simp add: handleError_def abort_ended_def timer_inv_def)
    qed
  next
    case (Inr v)
    let ?s2 = "s1\<lparr>out := out s1 @ snd (process v)\<rparr>"
    show ?thesis
    proof (cases "fst (process v)")
      case False
      with assms(1) \<open>\<not> aborted s\<close> f Inr have "x = Returned" "s' = ?s2"
        by (auto simp: abort_round_def Let_def split: prod.splits)
      with before pos ans Inr False show ?thesis by (simp add: abort_ended_def)
    next
      case True
      with assms(1) \<open>\<not> aborted s\<close> f Inr obtain s3 where d: "delay opts ?s2 = Inl s3"
        and res: "(x, s') = handleError report abort_error s3"
        by (auto simp: abort_round_def Let_def split: prod.splits sum.splits)
      note d' = delay_Inl [OF d]
      have "timer_inv opts s3"
        using d tinv by (auto simp: delay_def Let_def timer_inv_advance split: if_splits)
      with d' res before show ?thesis by (auto simp: handleError_def abort_ended_def timer_inv_def)
    qed
  qed
qed

lemma timer_inv_start:
  "timer_inv opts (set_timer opts (log_msg m (new_poller\<lparr>out := l\<rparr>)))"
  by (rule timer_inv_set_timer) (simp_all add: new_poller_def log_msg_def)

lemma start_sel [simp]:
  "calls (set_timer opts (log_msg m (new_poller\<lparr>out := l\<rparr>))) = 0"
  "now (set_timer opts (log_msg m (new_poller\<lparr>out := l\<rparr>))) = 0"
  by (auto simp: set_timer_def log_msg_def new_poller_def split: option.splits)

lemma abort_start_ended:
  assumes "abort_start fuel process report opts lat service (new_poller\<lparr>out := l\<rparr>) = Some (x, s)"
  shows "abort_ended process opts service x s \<and> (x = Returned \<longrightarrow> aborted s \<and> expiry s = None)"
proof -
  let ?step = "abort_round process report opts lat service"
  let ?I = "\<lambda>s. timer_inv opts s \<and> (\<forall>i < calls s. view_quiet process (service i))"
  obtain y s1 where run: "run_loop fuel ?step
      (set_timer opts (log_msg ''Starting polling...'' (new_poller\<lparr>out := l\<rparr>))) = Some (y, s1)"
    and xs: "(x, s) = abort_stop (y, s1)"
    using assms by (auto simp: abort_start_def)
  have "(\<lambda>(x, s). abort_ended process opts service x s) (y, s1)"
  proof (rule run_loop_inv [OF run])
    show "?I (set_timer opts (log_msg ''Starting polling...'' (new_poller\<lparr>out := l\<rparr>)))"
      using timer_inv_start by simp
    show "?I s2" if "?I s1" "?step s1 = Inr s2" for s1 s2
      using that abort_round_inv by blast
    show "(\<lambda>(x, s). abort_ended process opts service x s) z" if "?I s1" "?step s1 = Inl z" for s1 z
      using that abort_round_ends by (cases z) blast
  qed
  with xs show ?thesis
    by (auto simp: abort_stop_def abort_ended_def split: poll_exit.splits)
qed

lemma abort_round_time:
  assumes lat: "\<And>k. lat k \<le> slowest" and inv: "timer_inv opts s" and due: "due opts = Some t"
    and round: "abort_round process report opts lat service s = Inl (x, s')"
    and late: "aborted s \<longrightarrow> now s \<le> t + request_bound slowest"
  shows "now s' \<le> t + request_bound slowest"
proof (cases "aborted s")
  case True
  with round late show ?thesis by (simp add: abort_round_def)
next
  case False
  obtain r s1 where f: "fetch timeout_msg lat service s = (r, s1)"
    by (cases "fetch timeout_msg lat service s")
  have "now s < t" using inv due False by (simp add: timer_inv_def)
  with fetch_time [OF f lat] have s1: "now s1 < t + request_bound slowest" by simp
  have tinv: "timer_inv opts s1" by (rule fetch_timer_inv [OF f inv])
  have cut: "now s3 \<le> t + request_bound slowest" if "delay opts (s1\<lparr>out := l\<rparr>) = Inl s3" for l s3
    using that s1 tinv due by (auto simp: delay_def Let_def timer_inv_def split: if_splits)
  have "now s' = now s1 \<or> (\<exists>l s3. delay opts (s1\<lparr>out := l\<rparr>) = Inl s3 \<and> now s' = now s3)"
    using round False f
    by (fastforce simp: abort_round_def Let_def handleError_def split: if_splits prod.splits sum.splits)
  with s1 cut show ?thesis by auto
qed

lemma abort_start_times_out:
  assumes due: "due opts = Some t" and lat: "\<And>k. lat k \<le> slowest"
  shows "\<exists>x s. abort_start (t + 2) process report opts lat service (new_poller\<lparr>out := l\<rparr>) = Some (x, s) \<and>
    now s \<le> t + request_bound slowest"
proof -
  let ?step = "abort_round process report opts lat service"
  let ?s0 = "set_timer opts (log_msg ''Starting polling...'' (new_poller\<lparr>out := l\<rparr>))"
  let ?I = "\<lambda>s. timer_inv opts s \<and> (aborted s \<longrightarrow> now s \<le> t + request_bound slowest)"
  obtain q where "run_loop (Suc (Suc (t - now ?s0))) ?step ?s0 = Some q"
    using abort_loop.ends_by_timer [OF timer_inv_armed [OF timer_inv_start due]] by blast
  moreover obtain x s where "q = (x, s)" by (cases q)
  ultimately have run: "run_loop (t + 2) ?step ?s0 = Some (x, s)" by simp
  have "(\<lambda>(x, s). now s \<le> t + request_bound slowest) (x, s)"
  proof (rule run_loop_inv [OF run])
    show "?I ?s0" using timer_inv_start by simp
    show "?I s2" if "?I s1" "?step s1 = Inr s2" for s1 s2
    proof -
      from that(2) obtain v u where f: "fetch timeout_msg lat service s1 = (Inr v, u)"
        and s2: "s2 = advance timeout_msg (delay_ms opts) (u\<lparr>out := out u @ snd (process v)\<rparr>)"
        and "\<not> aborted s2" by (rule abort_round_Inr)
      with fetch_timer_inv [OF f] that(1) show ?thesis by (simp add: timer_inv_advance)
    qed
    show "(\<lambda>(x, s). now s \<le> t + request_bound slowest) z" if "?I s1" "?step s1 = Inl z" for s1 z
      using that abort_round_time [of lat slowest, OF lat _ due] by (cases z) blast
  qed
  moreover have "now (snd (abort_stop (x, s))) = now s"
    by (simp add: abort_stop_def split: poll_exit.splits)
  ultimately show ?thesis
    using run by (cases "abort_stop (x, s)") (auto simp: abort_start_def)
qed

lemma abort_start_settles:
  assumes "\<not> view_quiet process (service k)"
  shows "\<exists>x s. abort_start (k + 1) process report opts lat service (new_poller\<lparr>out := l\<rparr>) = Some (x, s)"
proof -
  let ?step = "abort_round process report opts lat service"
  let ?s0 = "set_timer opts (log_msg ''Starting polling...'' (new_poller\<lparr>out := l\<rparr>))"
  have final: "calls s' \<le> k"
    if "calls s \<le> k" and round: "abort_round process report opts lat service s = Inr s'" for s s'
  proof (rule ccontr)
    assume "\<not> calls s' \<le> k"
    from round obtain v s1 where f: "fetch timeout_msg lat service s = (Inr v, s1)" and v: "fst (process v)"
      and s': "s' = advance timeout_msg (delay_ms opts) (s1\<lparr>out := out s1 @ snd (process v)\<rparr>)"
      by (rule abort_round_Inr)
    from \<open>\<not> calls s' \<le> k\<close> s' consider "k = calls s1 - 1" | "k + 1 < calls s1" by fastforce
    then show False
    proof cases
      case 1
      with fetch_calls(2) [OF f, symmetric] have "service k = Inr v" by simp
      with v assms show False by (simp add: view_quiet_def)
    next
      case 2
      with fetch_calls(3) [OF f, of k] \<open>calls s \<le> k\<close> assms show False by (auto simp: view_quiet_def)
    qed
  qed
  have "calls ?s0 \<le> k" by simp
  with final have "\<exists>q. run_loop (Suc (k - calls ?s0)) ?step ?s0 = Some q"
    by (rule abort_loop.ends_by_answer)
  then obtain q where "run_loop (k + 1) ?step ?s0 = Some q" by auto
  then show ?thesis by (cases "abort_stop q") (simp add: abort_start_def del: run_loop.simps)
qed


section \<open>Properties of the two pollers\<close>

lemma processDiscoveryView_goes_on:
  "fst (processDiscoveryView v) \<longleftrightarrow> (\<exists>d. v = Some d \<and> \<not> discovery_finished (view_status d))"
  by (auto simp: processDiscoveryView_def split: option.splits)

lemma processJobView_goes_on:
  "fst (processJobView v) \<longleftrightarrow> (\<exists>j. v = Some j \<and> \<not> job_finished (job_status j))"
  by (auto simp: processJobView_def split: option.splits)

text \<open>
  C15. When polling a discovery returns, either the timeout has passed or the last answer was that
  the discovery does not exist or has a final status; the process exits with code 1 only on an
  error that was not retried and that came before the timeout.  All earlier answers were retried
  errors or statuses of a discovery still in progress.
\<close>

theorem discovery_polling_outcome:
  assumes "discovery_start fuel opts lat service (discovery_polling opts) = Some (x, s)"
  shows "(\<forall>i. i + 1 < calls s \<longrightarrow> (case service i of Inl e \<Rightarrow> transient e
            | Inr v \<Rightarrow> \<exists>d. v = Some d \<and> \<not> discovery_finished (view_status d))) \<and>
    (case x of
       Returned \<Rightarrow> (\<exists>t. due opts = Some t \<and> t \<le> now s) \<or>
         0 < calls s \<and> (service (calls s - 1) = Inr None \<or>
           (\<exists>d. service (calls s - 1) = Inr (Some d) \<and> discovery_finished (view_status d)))
     | Exited n \<Rightarrow> n = 1 \<and> 0 < calls s \<and> (\<exists>e. service (calls s - 1) = Inl e) \<and>
         (\<forall>t. due opts = Some t \<longrightarrow> now s < t))"
proof -
  have e: "abort_ended processDiscoveryView opts service x s"
    using abort_start_ended assms by (simp add: discovery_start_def discovery_polling_def) blast
  have "\<forall>i. i + 1 < calls s \<longrightarrow> view_quiet processDiscoveryView (service i)"
    using e by (simp add: abort_ended_def)
  then have "\<forall>i. i + 1 < calls s \<longrightarrow> (case service i of Inl e \<Rightarrow> transient e
            | Inr v \<Rightarrow> \<exists>d. v = Some d \<and> \<not> discovery_finished (view_status d))"
    by (simp add: view_quiet_def processDiscoveryView_goes_on cong: sum.case_cong)
  then show ?thesis
    using e by (cases x) (auto simp: abort_ended_def processDiscoveryView_goes_on)
qed

text \<open>
  With a timeout, polling a discovery always comes to an end, at most one fully retried request
  after the timeout: the sleep between two requests is cut short, a request under way is not.
\<close>

theorem discovery_polling_times_out:
  assumes "due opts = Some t" and "\<forall>k. lat k \<le> slowest"
  shows "\<exists>x s. discovery_start (t + 2) opts lat service (discovery_polling opts) = Some (x, s) \<and>
    now s \<le> t + request_bound slowest"
  unfolding discovery_start_def discovery_polling_def
  using abort_start_times_out [OF assms(1)] assms(2) by blast

text \<open>
  Polling a host update job ends after at most \<open>k + 1\<close> rounds when the answer to call \<open>k\<close> is an
  error that is not retried, a missing job or a final status; if the process then exits, it does so
  with code 1 and on an error answer, and if it returns without a timeout the job was missing or had
  a final status.
\<close>

theorem host_job_polling_settles:
  assumes "case service k of Inl e \<Rightarrow> \<not> transient e
      | Inr v \<Rightarrow> v = None \<or> (\<exists>j. v = Some j \<and> job_finished (job_status j))"
    and "cfg_timeout opts = None"
  shows "\<exists>x s. host_job_start (k + 1) opts lat service (host_job_polling opts) = Some (x, s) \<and>
    0 < calls s \<and>
    (case x of
       Returned \<Rightarrow> service (calls s - 1) = Inr None \<or>
         (\<exists>j. service (calls s - 1) = Inr (Some j) \<and> job_finished (job_status j))
     | Exited n \<Rightarrow> n = 1 \<and> (\<exists>e. service (calls s - 1) = Inl e))"
proof -
  have "\<not> view_quiet processJobView (service k)"
    using assms(1) by (auto simp: view_quiet_def processJobView_goes_on split: sum.splits)
  then obtain x s where run: "host_job_start (k + 1) opts lat service (host_job_polling opts) = Some (x, s)"
    unfolding host_job_start_def host_job_polling_def using abort_start_settles by blast
  have e: "abort_ended processJobView opts service x s"
    using abort_start_ended run by (simp add: host_job_start_def host_job_polling_def) blast
  have "due opts = None" using assms(2) by (simp add: due_def)
  with e run show ?thesis
    by (cases x) (auto simp: abort_ended_def processJobView_goes_on)
qed


section \<open>Witnesses\<close>

definition sample_discovery :: "nat \<Rightarrow> discovery_view option js_result" where
  "sample_discovery n = Inr (Some \<lparr>view_id = ''d1'', view_name = ''spec'',
     view_status = (if n = 0 then ''running'' else ''done'')\<rparr>)"

definition timed_opts :: poll_config where
  "timed_opts = \<lparr>cfg_timeout = Some 60000, cfg_interval = None\<rparr>"

definition untimed_opts :: poll_config where
  "untimed_opts = \<lparr>cfg_timeout = None, cfg_interval = Some 20000\<rparr>"

lemma due_timed: "due timed_opts = Some 60000"
  by (simp add: due_def timed_opts_def timer_ms_def)

theorem discovery_polling_outcome_witness:
  "\<exists>s. discovery_start (Suc (Suc 0)) timed_opts (\<lambda>_. 300) sample_discovery (discovery_polling timed_opts) =
       Some (Returned, s) \<and> calls s = 2 \<and> now s = 10600 \<and>
     (\<exists>d. sample_discovery 1 = Inr (Some d) \<and> discovery_finished (view_status d))"
proof -
  have ex: "execute m p sample_discovery b = (sample_discovery (bo_calls b), b\<lparr>bo_calls := Suc (bo_calls b)\<rparr>)"
    for m p and b
    by (rule execute_stop) (simp add: retryable_def sample_discovery_def)
  have i: "set_timer timed_opts (log_msg ''Starting polling...'' (discovery_polling timed_opts)) =
      \<lparr>now = 0, calls = 0, expiry = Some 60000, aborted = False, out = [''Starting polling...'']\<rparr>"
    by (simp add: set_timer_def timed_opts_def log_msg_def discovery_polling_def new_poller_def
        polling_warnings_def timer_ms_def)
  have d: "delay_ms timed_opts = 10000"
    by (simp add: delay_ms_def timed_opts_def timer_ms_def defaultInterval_def)
  note ev = abort_round_def fetch_def ex Let_def advance_def new_backoff_def processDiscoveryView_def
    sample_discovery_def discovery_finished_def delay_def d upt_rec
  have "\<exists>s. discovery_start (Suc (Suc 0)) timed_opts (\<lambda>_. 300) sample_discovery (discovery_polling timed_opts) =
       Some (Returned, s) \<and> calls s = 2 \<and> now s = 10600"
    by (simp add: discovery_start_def abort_start_def i ev abort_stop_def)
  then obtain s where s: "discovery_start (Suc (Suc 0)) timed_opts (\<lambda>_. 300) sample_discovery
      (discovery_polling timed_opts) = Some (Returned, s)" "calls s = 2" "now s = 10600" by blast
  from discovery_polling_outcome [OF s(1)] s(2,3) show ?thesis
    by (auto simp: s(1) due_timed sample_discovery_def)
qed

theorem discovery_polling_times_out_witness:
  "\<exists>x s. discovery_start (60000 + 2) timed_opts (\<lambda>_. 300) sample_discovery (discovery_polling timed_opts) =
     Some (x, s) \<and> now s \<le> 60000 + request_bound 300"
  using discovery_polling_times_out [OF due_timed, of "\<lambda>_. 300" 300 sample_discovery] by simp

theorem host_job_polling_settles_witness:
  "\<exists>x s. host_job_start (2 + 1) untimed_opts (\<lambda>_. 300) (\<lambda>_. Inr None) (host_job_polling untimed_opts) =
     Some (x, s) \<and> 0 < calls s \<and> x = Returned"
proof -
  have "cfg_timeout untimed_opts = None" by (simp add: untimed_opts_def)
  from host_job_polling_settles [of "\<lambda>_. Inr None" 2, OF _ this]
  show ?thesis by (fastforce split: poll_exit.splits)
qed

end
