(* ===== verification/Rest_Client.thy ===== *)
theory Rest_Client
  imports Helpers
begin

text \<open>
  How the REST clients reach the service: the choice of proxy agents
  (\<open>src/Utils/DefaultProxyFactory.ts\<close>, \<open>src/Utils/ProxyFactory.ts\<close>), the Axios client the constructors
  of \<open>RestScans\<close>, \<open>RestDiscoveries\<close>, \<open>RestEntryPoints\<close> and \<open>RestArchives\<close> set up, and requests as data.
  The service is a parameter: a function from requests to their outcomes.  Operations return the
  requests they made beside their result.
\<close>

section \<open>Proxies\<close>

datatype agent =
  Http_Agent
| Https_Agent bool
| Http_Proxy_Agent string bool
| Patched_Https_Proxy_Agent string bool
| Socks_Proxy_Agent string

record agents =
  httpAgent :: agent
  httpsAgent :: agent

definition createHttpProxy :: "string \<Rightarrow> bool \<Rightarrow> agents" where
  "createHttpProxy proxyUrl rejectUnauthorized =
     \<lparr>httpAgent = Http_Proxy_Agent proxyUrl rejectUnauthorized,
      httpsAgent = Patched_Https_Proxy_Agent proxyUrl rejectUnauthorized\<rparr>"

definition createSocksProxy :: "string \<Rightarrow> agents" where
  "createSocksProxy proxyUrl =
     (let common = Socks_Proxy_Agent proxyUrl in \<lparr>httpAgent = common, httpsAgent = common\<rparr>)"

definition replace_first :: "string \<Rightarrow> string \<Rightarrow> string \<Rightarrow> string" where
  "replace_first sep by s = (case cut_at sep s of None \<Rightarrow> s | Some (a, b) \<Rightarrow> a @ by @ b)"

definition createProxy :: "url_parser \<Rightarrow> string \<Rightarrow> bool \<Rightarrow> agents js_result" where
  "createProxy parse proxyUrl rejectUnauthorized =
     (case parse proxyUrl of
        None \<Rightarrow> Inl (mk_error (''Invalid Proxy URL: '' @ apos @ proxyUrl @ apos @ ''. Please provide a valid URL.''))
      | Some u \<Rightarrow>
          let protocol = url_protocol u in
          if protocol \<in> {''http:'', ''https:''} then Inr (createHttpProxy proxyUrl rejectUnauthorized)
          else if protocol \<in> {''socks:'', ''socks4:'', ''socks4a:'', ''socks5:'', ''socks5h:''}
          then Inr (createSocksProxy proxyUrl)
          else Inl (mk_error (''Unsupported proxy protocol: '' @ apos @ replace_first '':'' [] protocol @
                 apos @ ''. Please use a supported protocol (HTTP(S), SOCKS4, or SOCKS5).'')))"

definition createProxyForClient :: "url_parser \<Rightarrow> string \<Rightarrow> string \<Rightarrow> bool \<Rightarrow> agent js_result" where
  "createProxyForClient parse targetUrl proxyUrl rejectUnauthorized =
     bind_res (createProxy parse proxyUrl rejectUnauthorized) (\<lambda>proxies.
       case parse targetUrl of
         None \<Rightarrow> Inl (mk_error (''Invalid Target URL: '' @ apos @ targetUrl @ apos @
                   ''. Please contact support at support@brightsec.com''))
       | Some u \<Rightarrow>
           let protocol = url_protocol u in
           if protocol \<in> {''http:'', ''ws:''} then Inr (httpAgent proxies)
           else if protocol \<in> {''https:'', ''wss:''} then Inr (httpsAgent proxies)
           else Inl (mk_error (''Proxy not supported for protocol '' @ apos @ protocol @ apos @
                  ''. Please contact support at support@brightsec.com'')))"


section \<open>The Axios client\<close>

record rest_options =
  ro_baseURL :: string
  ro_apiKey :: string
  ro_timeout :: "nat option"
  ro_insecure :: bool
  ro_proxyURL :: "string option"

record client =
  cl_baseURL :: string
  cl_timeout :: "nat option"
  cl_agents :: agents
  cl_authorization :: string

definition new_client :: "url_parser \<Rightarrow> rest_options \<Rightarrow> client js_result" where
  "new_client parse opts =
     bind_res
       (if truthy (ro_proxyURL opts)
        then createProxy parse (the (ro_proxyURL opts)) (\<not> ro_insecure opts)
        else Inr \<lparr>httpAgent = Http_Agent, httpsAgent = Https_Agent (\<not> ro_insecure opts)\<rparr>)
       (\<lambda>a. Inr \<lparr>cl_baseURL = ro_baseURL opts, cl_timeout = ro_timeout opts, cl_agents = a,
                 cl_authorization = ''Api-Key '' @ ro_apiKey opts\<rparr>)"

datatype http_method = GET | POST | PUT | DELETE

record ('p, 'b) request =
  req_method :: http_method
  req_path :: string
  req_params :: "'p option"
  req_body :: "'b option"

text \<open>
  An operation on the service: what it returns and the requests it made, in order.  \<open>io_bind\<close> is \<open>await\<close>.
\<close>

type_synonym ('q, 'a) io = "'a js_result \<times> 'q list"

definition io_bind :: "('q, 'a) io \<Rightarrow> ('a \<Rightarrow> ('q, 'b) io) \<Rightarrow> ('q, 'b) io" where
  "io_bind m f =
     (case fst m of Inl e \<Rightarrow> (Inl e, snd m) | Inr x \<Rightarrow> (fst (f x), snd m @ snd (f x)))"

definition send :: "('q \<Rightarrow> 'a js_result) \<Rightarrow> 'q \<Rightarrow> ('q, 'a) io" where
  "send service q = (service q, [q])"

lemma io_bind_simps [simp]:
  "io_bind (Inl e, qs) f = (Inl e, qs)" "io_bind (Inr x, qs) f = (fst (f x), qs @ snd (f x))"
  by (simp_all add: io_bind_def)


section \<open>Properties of the proxies\<close>

lemma createProxy_ok:
  assumes "createProxy parse p r = Inr a"
  shows "\<exists>u. parse p = Some u \<and>
    (url_protocol u \<in> {''http:'', ''https:''} \<and> a = createHttpProxy p r \<or>
     url_protocol u \<in> {''socks:'', ''socks4:'', ''socks4a:'', ''socks5:'', ''socks5h:''} \<and> a = createSocksProxy p)"
  using assms by (auto simp: createProxy_def Let_def split: option.splits if_splits)

text \<open>An agent verifies the peer's certificate unless told otherwise.\<close>

fun verifies :: "agent \<Rightarrow> bool" where
  "verifies (Https_Agent r) = r"
| "verifies (Patched_Https_Proxy_Agent _ r) = r"
| "verifies (Http_Proxy_Agent _ r) = r"
| "verifies _ = True"

fun proxied_through :: "agent \<Rightarrow> string option" where
  "proxied_through (Http_Proxy_Agent u _) = Some u"
| "proxied_through (Patched_Https_Proxy_Agent u _) = Some u"
| "proxied_through (Socks_Proxy_Agent u) = Some u"
| "proxied_through _ = None"

text \<open>
  Every REST client sends the API key in the authorization header, goes through the configured
  proxy for both plain and TLS requests and through none if there is none, and skips the check of the
  peer's certificate only when the option \<open>insecure\<close> is set.
\<close>

theorem new_client_respects_options:
  assumes "new_client parse opts = Inr c"
  shows "cl_authorization c = ''Api-Key '' @ ro_apiKey opts \<and>
    proxied_through (httpAgent (cl_agents c)) = (if truthy (ro_proxyURL opts) then ro_proxyURL opts else None) \<and>
    proxied_through (httpsAgent (cl_agents c)) = (if truthy (ro_proxyURL opts) then ro_proxyURL opts else None) \<and>
    (\<not> ro_insecure opts \<longrightarrow> verifies (httpsAgent (cl_agents c)))"
proof (cases "truthy (ro_proxyURL opts)")
  case True
  then obtain p where p: "ro_proxyURL opts = Some p" by (cases "ro_proxyURL opts") auto
  from assms True p obtain a where a: "createProxy parse p (\<not> ro_insecure opts) = Inr a"
    and "cl_agents c = a" "cl_authorization c = ''Api-Key '' @ ro_apiKey opts"
    by (auto simp: new_client_def)
  with createProxy_ok [OF a] True p show ?thesis
    by (auto simp: createHttpProxy_def createSocksProxy_def Let_def)
next
  case False
  with assms show ?thesis by (auto simp: new_client_def)
qed

theorem new_client_respects_options_witness:
  "\<exists>c. new_client (\<lambda>_. Some \<lparr>url_protocol = ''socks5:'', url_host = ''p:1'', url_hostname = ''p'', url_port = ''1''\<rparr>)
       \<lparr>ro_baseURL = ''https://app.brightsec.com'', ro_apiKey = ''k'', ro_timeout = None, ro_insecure = False,
        ro_proxyURL = Some ''socks5://p:1''\<rparr> = Inr c \<and>
     proxied_through (httpsAgent (cl_agents c)) = Some ''socks5://p:1'' \<and> verifies (httpsAgent (cl_agents c))"
proof -
  let ?parse = "\<lambda>_ :: string. Some \<lparr>url_protocol = ''socks5:'', url_host = ''p:1'', url_hostname = ''p'', url_port = ''1''\<rparr>"
  let ?o = "\<lparr>ro_baseURL = ''https://app.brightsec.com'', ro_apiKey = ''k'', ro_timeout = None, ro_insecure = False,
        ro_proxyURL = Some ''socks5://p:1''\<rparr>"
  have "\<exists>c. new_client ?parse ?o = Inr c" by (simp add: new_client_def createProxy_def Let_def)
  then obtain c where c: "new_client ?parse ?o = Inr c" by blast
  from new_client_respects_options [OF c] c show ?thesis by auto
qed

end
