(* ===== verification/Rest_Scans.thy ===== *)
theory Rest_Scans
  imports Rest_Client Breakpoints
begin

text \<open>
  The scan client (\<open>src/Scan/RestScans.ts\<close>, with the data of \<open>src/Scan/Scans.ts\<close>): the defaults and
  corrections applied to a scan configuration and the requests that create, repeat, inspect, stop and
  delete a scan.
\<close>

datatype discovery_type = CRAWLER | ARCHIVE | OAS

datatype attack_param_location =
  ARTIFICAL_FRAGMENT | ARTIFICAL_QUERY | ARTIFICIAL_FRAGMENT | ARTIFICIAL_QUERY
| BODY | FRAGMENT | HEADER | PATH | QUERY

definition ATTACK_PARAM_LOCATIONS_DEFAULT :: "attack_param_location list" where
  "ATTACK_PARAM_LOCATIONS_DEFAULT = [BODY, FRAGMENT, QUERY]"

datatype scan_module = DAST | FUZZER

record header =
  hd_name :: string
  hd_value :: string
  hd_mergeStrategy :: string

record request_exclusion =
  rx_patterns :: "string list"
  rx_methods :: "string list"

record exclusions =
  ex_params :: "string list option"
  ex_requests :: "request_exclusion list option"

text \<open>\<open>ScanConfig\<close> without its headers, which \<open>prepareScanConfig\<close> splits off.\<close>

record scan_config =
  sc_name :: string
  sc_module :: "scan_module option"
  sc_authObjectId :: "string option"
  sc_projectId :: "string option"
  sc_templateId :: "string option"
  sc_discoveryTypes :: "discovery_type list option"
  sc_tests :: "string list option"
  sc_buckets :: "string list option"
  sc_poolSize :: "nat option"
  sc_fileId :: "string option"
  sc_attackParamLocations :: "attack_param_location list option"
  sc_smart :: "bool option"
  sc_extraHosts :: "(string, string) store option"
  sc_exclusions :: "exclusions option"
  sc_crawlerUrls :: "string list option"
  sc_hostsFilter :: "string list option"
  sc_repeaters :: "string list option"
  sc_entryPointIds :: "string list option"

record client_info =
  ci_source :: string
  ci_name :: string
  ci_version :: string

record scan_body =
  sb_config :: scan_config
  sb_info :: client_info
  sb_headers :: "header list option"

text \<open>The JSON object of an answer of the service, by the fields the client reads.\<close>

record answer =
  an_id :: "string option"
  an_type :: "string option"
  an_warnings :: "string list option"
  an_state :: "scan_state option"

type_synonym scan_request = "(unit, scan_body) request"
type_synonym 'a scan_io = "(scan_request, 'a) io"

definition scan_req :: "http_method \<Rightarrow> string \<Rightarrow> scan_body option \<Rightarrow> scan_request" where
  "scan_req m path body = \<lparr>req_method = m, req_path = path, req_params = None, req_body = body\<rparr>"

definition exploreDiscovery :: "(scan_request \<Rightarrow> answer js_result) \<Rightarrow> scan_config \<Rightarrow> discovery_type list scan_io" where
  "exploreDiscovery service body =
     (let crawler = (if sc_crawlerUrls body \<noteq> None then [CRAWLER] else []) in
      if truthy (sc_fileId body) then
        let fileId = the (sc_fileId body);
            (r, qs) = send service (scan_req GET (''/api/v2/files/'' @ fileId) None)
        in (case r of
              Inr data \<Rightarrow> (Inr (crawler @ [if an_type data = Some ''har'' then ARCHIVE else OAS]), qs)
            | Inl _ \<Rightarrow> (Inl (mk_error (''Error loading file with id \"'' @ fileId @
                     ''\": No such file or you do not have permissions.'')), qs))
      else (Inr crawler, []))"

definition default_locations :: "scan_config \<Rightarrow> attack_param_location list option" where
  "default_locations c =
     nullish (sc_attackParamLocations c)
       (if truthy (sc_templateId c) then None else Some ATTACK_PARAM_LOCATIONS_DEFAULT)"

definition default_exclusions :: "exclusions option \<Rightarrow> exclusions option" where
  "default_exclusions x =
     (case x of
        None \<Rightarrow> None
      | Some e \<Rightarrow> if ex_params e \<noteq> None \<or> ex_requests e \<noteq> None then Some e else None)"

definition applyDefaultSettings :: "(scan_request \<Rightarrow> answer js_result) \<Rightarrow> scan_config \<Rightarrow> scan_config scan_io" where
  "applyDefaultSettings service scanConfig =
     io_bind (exploreDiscovery service scanConfig) (\<lambda>discoveryTypes.
       (Inr (scanConfig\<lparr>sc_attackParamLocations := default_locations scanConfig,
          sc_discoveryTypes := (if discoveryTypes \<noteq> [] then Some discoveryTypes else None),
          sc_exclusions := default_exclusions (sc_exclusions scanConfig)\<rparr>), []))"

definition replace_location ::
  "attack_param_location \<Rightarrow> attack_param_location \<Rightarrow> attack_param_location list \<Rightarrow> attack_param_location list"
where
  "replace_location old new locs =
     (if old \<in> set locs then
        let rest = filter (\<lambda>l. l \<noteq> old) locs in
        if new \<notin> set rest then rest @ [new] else rest
      else locs)"

definition replaceDeprecatedAttackParamLocations :: "scan_config \<Rightarrow> scan_config" where
  "replaceDeprecatedAttackParamLocations scanConfig =
     scanConfig\<lparr>sc_attackParamLocations :=
       map_option (replace_location ARTIFICAL_QUERY ARTIFICIAL_QUERY \<circ>
                   replace_location ARTIFICAL_FRAGMENT ARTIFICIAL_FRAGMENT)
         (sc_attackParamLocations scanConfig)\<rparr>"

definition header_list :: "(string, string) store \<Rightarrow> header list" where
  "header_list headers =
     map (\<lambda>(name, value). \<lparr>hd_name = name, hd_value = value, hd_mergeStrategy = ''replace''\<rparr>) headers"

definition client_info_of :: "string \<Rightarrow> client_info" where
  "client_info_of version = \<lparr>ci_source = ''cli'', ci_name = ''bright-cli'', ci_version = version\<rparr>"

definition prepareScanConfig ::
  "string \<Rightarrow> (scan_request \<Rightarrow> answer js_result) \<Rightarrow> (string, string) store option \<Rightarrow> scan_config \<Rightarrow> scan_body scan_io"
where
  "prepareScanConfig version service headers rest =
     io_bind (applyDefaultSettings service rest) (\<lambda>config.
       (Inr \<lparr>sb_config = replaceDeprecatedAttackParamLocations config,
             sb_info = client_info_of version,
             sb_headers = map_option header_list headers\<rparr>, []))"

definition create ::
  "string \<Rightarrow> (scan_request \<Rightarrow> answer js_result) \<Rightarrow> (string, string) store option \<Rightarrow> scan_config \<Rightarrow> answer scan_io"
where
  "create version service headers body =
     io_bind (prepareScanConfig version service headers body) (\<lambda>scanConfig.
       send service (scan_req POST ''/api/v1/scans'' (Some scanConfig)))"

definition retest :: "(scan_request \<Rightarrow> answer js_result) \<Rightarrow> string \<Rightarrow> string option scan_io" where
  "retest service scanId =
     io_bind (send service (scan_req POST (''/api/v1/scans/'' @ scanId @ ''/retest'') None)) (\<lambda>res. (Inr (an_id res), []))"

definition status :: "(scan_request \<Rightarrow> answer js_result) \<Rightarrow> string \<Rightarrow> scan_state option scan_io" where
  "status service scanId =
     io_bind (send service (scan_req GET (''/api/v1/scans/'' @ scanId) None)) (\<lambda>res. (Inr (an_state res), []))"

definition stop_scan :: "(scan_request \<Rightarrow> answer js_result) \<Rightarrow> string \<Rightarrow> unit scan_io" where
  "stop_scan service scanId =
     io_bind (send service (scan_req GET (''/api/v1/scans/'' @ scanId @ ''/stop'') None)) (\<lambda>_. (Inr (), []))"

definition delete_scan :: "(scan_request \<Rightarrow> answer js_result) \<Rightarrow> string \<Rightarrow> unit scan_io" where
  "delete_scan service scanId =
     io_bind (send service (scan_req DELETE (''/api/v1/scans/'' @ scanId) None)) (\<lambda>_. (Inr (), []))"


section \<open>Attack locations\<close>

lemma set_replace_location:
  "old \<noteq> new \<Longrightarrow> set (replace_location old new locs) =
     (if old \<in> set locs then insert new (set locs - {old}) else set locs)"
  by (auto simp: replace_location_def Let_def)

lemma distinct_replace_location: "distinct locs \<Longrightarrow> distinct (replace_location old new locs)"
  by (auto simp: replace_location_def Let_def)

lemma replace_location_absent: "old \<notin> set locs \<Longrightarrow> replace_location old new locs = locs"
  by (simp add: replace_location_def)

text \<open>The current name of a location.\<close>

fun modern :: "attack_param_location \<Rightarrow> attack_param_location" where
  "modern ARTIFICAL_FRAGMENT = ARTIFICIAL_FRAGMENT"
| "modern ARTIFICAL_QUERY = ARTIFICIAL_QUERY"
| "modern l = l"

lemma modern_image:
  "x \<in> modern ` S \<longleftrightarrow>
     (if x \<in> {ARTIFICAL_FRAGMENT, ARTIFICAL_QUERY} then False
      else x \<in> S \<or> x = ARTIFICIAL_FRAGMENT \<and> ARTIFICAL_FRAGMENT \<in> S \<or> x = ARTIFICIAL_QUERY \<and> ARTIFICAL_QUERY \<in> S)"
  by (cases x) (auto simp: image_iff elim: modern.elims [OF sym] intro: bexI [where x = x]
      bexI [where x = ARTIFICAL_FRAGMENT] bexI [where x = ARTIFICAL_QUERY])

text \<open>
  The correction of misspelt attack locations replaces each by its current name and nothing else:
  the set of locations sent is the image of the set given under the renaming, without duplicates if
  there were none, in the same order where none is misspelt, and correcting twice changes nothing.
\<close>

theorem locations_modernised:
  assumes "sc_attackParamLocations c = Some locs"
  shows "\<exists>locs'. sc_attackParamLocations (replaceDeprecatedAttackParamLocations c) = Some locs' \<and>
    set locs' = modern ` set locs \<and> (distinct locs \<longrightarrow> distinct locs') \<and>
    (ARTIFICAL_FRAGMENT \<notin> set locs \<and> ARTIFICAL_QUERY \<notin> set locs \<longrightarrow> locs' = locs) \<and>
    replaceDeprecatedAttackParamLocations (replaceDeprecatedAttackParamLocations c) =
      replaceDeprecatedAttackParamLocations c"
proof -
  let ?f = "replace_location ARTIFICAL_FRAGMENT ARTIFICIAL_FRAGMENT"
  let ?q = "replace_location ARTIFICAL_QUERY ARTIFICIAL_QUERY"
  have set: "set (?q (?f locs)) = modern ` set locs"
    by (rule set_eqI) (auto simp: modern_image set_replace_location split: if_splits)
  have "ARTIFICAL_FRAGMENT \<notin> modern ` set locs" "ARTIFICAL_QUERY \<notin> modern ` set locs"
    by (simp_all only: modern_image) simp_all
  then have "?f (?q (?f locs)) = ?q (?f locs)" "?q (?q (?f locs)) = ?q (?f locs)"
    using set by (simp_all add: replace_location_absent)
  with assms set show ?thesis
    by (simp add: replaceDeprecatedAttackParamLocations_def distinct_replace_location replace_location_absent)
qed

theorem locations_modernised_witness:
  "let c = \<lparr>sc_name = ''n'', sc_module = Some DAST, sc_authObjectId = None, sc_projectId = None, sc_templateId = None,
      sc_discoveryTypes = None, sc_tests = None, sc_buckets = None, sc_poolSize = None, sc_fileId = None,
      sc_attackParamLocations = Some [ARTIFICAL_QUERY, BODY, ARTIFICIAL_QUERY], sc_smart = None,
      sc_extraHosts = None, sc_exclusions = None, sc_crawlerUrls = None, sc_hostsFilter = None,
      sc_repeaters = None, sc_entryPointIds = None\<rparr> in
   \<exists>locs. sc_attackParamLocations (replaceDeprecatedAttackParamLocations c) = Some locs \<and>
     set locs = {ARTIFICIAL_QUERY, BODY} \<and> distinct locs"
proof -
  let ?c = "\<lparr>sc_name = ''n'', sc_module = Some DAST, sc_authObjectId = None, sc_projectId = None, sc_templateId = None,
      sc_discoveryTypes = None, sc_tests = None, sc_buckets = None, sc_poolSize = None, sc_fileId = None,
      sc_attackParamLocations = Some [ARTIFICAL_QUERY, BODY, ARTIFICIAL_QUERY], sc_smart = None,
      sc_extraHosts = None, sc_exclusions = None, sc_crawlerUrls = None, sc_hostsFilter = None,
      sc_repeaters = None, sc_entryPointIds = None\<rparr>"
  have "sc_attackParamLocations ?c = Some [ARTIFICAL_QUERY, BODY, ARTIFICIAL_QUERY]" by simp
  from locations_modernised [OF this] show ?thesis by (auto simp: Let_def)
qed


section \<open>Creating a scan\<close>

text \<open>The request for the file of the configuration, if there is one, and the discoveries to run.\<close>

definition file_query :: "scan_config \<Rightarrow> scan_request list" where
  "file_query c = (if truthy (sc_fileId c) then [scan_req GET (''/api/v2/files/'' @ the (sc_fileId c)) None] else [])"

definition discoveries :: "scan_config \<Rightarrow> discovery_type list" where
  "discoveries c = (case sc_discoveryTypes c of None \<Rightarrow> [] | Some d \<Rightarrow> d)"

lemma exploreDiscovery_cases:
  "(\<exists>q e. file_query c = [q] \<and> service q = Inl e \<and>
      exploreDiscovery service c = (Inl (mk_error (''Error loading file with id \"'' @ the (sc_fileId c) @
                     ''\": No such file or you do not have permissions.'')), [q])) \<or>
   (\<exists>ds. exploreDiscovery service c = (Inr ds, file_query c) \<and>
      (CRAWLER \<in> set ds \<longleftrightarrow> sc_crawlerUrls c \<noteq> None) \<and>
      (ARCHIVE \<in> set ds \<longleftrightarrow> (\<exists>q a. file_query c = [q] \<and> service q = Inr a \<and> an_type a = Some ''har'')) \<and>
      (OAS \<in> set ds \<longleftrightarrow> (\<exists>q a. file_query c = [q] \<and> service q = Inr a \<and> an_type a \<noteq> Some ''har'')))"
  by (auto simp: exploreDiscovery_def file_query_def send_def Let_def split: sum.splits)


end
