(* ===== verification/Rest_Discoveries.thy ===== *)
theory Rest_Discoveries
  imports Rest_Scans
begin

text \<open>
  The discovery client (\<open>src/Discovery/RestDiscoveries.ts\<close>, with the data of
  \<open>src/Discovery/Discoveries.ts\<close>).  Headers reach it as a record or, from \<open>RunDiscovery\<close>, as the raw
  lines of the command line; \<open>Object.entries\<close> of an array pairs each element with its index.
\<close>

text \<open>The constructor of \<open>RestDiscoveries\<close> creates its client as \<open>RestScans\<close> does.\<close>

abbreviation discoveries_client :: "url_parser \<Rightarrow> rest_options \<Rightarrow> client js_result" where
  "discoveries_client parse opts \<equiv> new_client parse opts"

datatype headers_arg = Header_Record "(string, string) store" | Header_Lines "string list"

fun object_entries :: "headers_arg \<Rightarrow> (string \<times> string) list" where
  "object_entries (Header_Record h) = h"
| "object_entries (Header_Lines ls) = zip (map nat_str [0 ..< length ls]) ls"

record discovery_config =
  dc_name :: string
  dc_authObjectId :: "string option"
  dc_poolSize :: "nat option"
  dc_crawlerUrls :: "string list option"
  dc_extraHosts :: "(string, string) store option"
  dc_fileId :: "string option"
  dc_targetId :: "string option"
  dc_hostsFilter :: "string list option"
  dc_optimizedCrawler :: "bool option"
  dc_maxInteractionsChainLength :: nat
  dc_subdomainsCrawl :: bool
  dc_exclusions :: "exclusions option"
  dc_repeaters :: "string list option"
  dc_discoveryTypes :: "discovery_type list option"
  dc_targetTimeout :: "nat option"

record discovery_body =
  db_config :: discovery_config
  db_info :: client_info
  db_headers :: "header list option"

datatype lifecycle_or_body = Discovery_Body discovery_body | Lifecycle string

type_synonym discovery_request = "(unit, lifecycle_or_body) request"
type_synonym 'a discovery_io = "(discovery_request, 'a) io"

definition disc_req :: "http_method \<Rightarrow> string \<Rightarrow> lifecycle_or_body option \<Rightarrow> discovery_request" where
  "disc_req m path body = \<lparr>req_method = m, req_path = path, req_params = None, req_body = body\<rparr>"

definition discovery_path :: "string \<Rightarrow> string \<Rightarrow> string" where
  "discovery_path projectId discoveryId =
     ''/api/v2/projects/'' @ projectId @ ''/discoveries/'' @ discoveryId"

definition explore_discovery ::
  "(discovery_request \<Rightarrow> answer js_result) \<Rightarrow> discovery_config \<Rightarrow> discovery_type list discovery_io"
where
  "explore_discovery service body =
     (let crawler = (if dc_crawlerUrls body \<noteq> None then [CRAWLER] else []) in
      if truthy (dc_fileId body) then
        let fileId = the (dc_fileId body);
            (r, qs) = send service (disc_req GET (''/api/v2/files/'' @ fileId) None)
        in (case r of
              Inr data \<Rightarrow> (Inr (crawler @ [if an_type data = Some ''har'' then ARCHIVE else OAS]), qs)
            | Inl _ \<Rightarrow> (Inl (mk_error (''Error loading file with id \"'' @ fileId @
                     ''\": No such file or you do not have permissions.'')), qs))
      else (Inr crawler, []))"

definition apply_default_settings ::
  "(discovery_request \<Rightarrow> answer js_result) \<Rightarrow> discovery_config \<Rightarrow> discovery_config discovery_io"
where
  "apply_default_settings service discoveryConfig =
     io_bind (explore_discovery service discoveryConfig) (\<lambda>discoveryTypes.
       (Inr (discoveryConfig\<lparr>
          dc_discoveryTypes := (if discoveryTypes \<noteq> [] then Some discoveryTypes else None),
          dc_exclusions := default_exclusions (dc_exclusions discoveryConfig)\<rparr>), []))"

definition prepareConfig ::
  "string \<Rightarrow> (discovery_request \<Rightarrow> answer js_result) \<Rightarrow> headers_arg option \<Rightarrow> discovery_config \<Rightarrow>
     discovery_body discovery_io"
where
  "prepareConfig version service headers rest =
     io_bind (apply_default_settings service rest) (\<lambda>config.
       (Inr \<lparr>db_config = config, db_info = client_info_of version,
             db_headers = map_option (\<lambda>h. header_list (object_entries h)) headers\<rparr>, []))"

definition create_discovery ::
  "string \<Rightarrow> (discovery_request \<Rightarrow> answer js_result) \<Rightarrow> string \<Rightarrow> headers_arg option \<Rightarrow> discovery_config \<Rightarrow>
     answer discovery_io"
where
  "create_discovery version service projectId headers config =
     io_bind (prepareConfig version service headers config) (\<lambda>preparedConfig.
       send service (disc_req POST (''/api/v2/projects/'' @ projectId @ ''/discoveries'')
         (Some (Discovery_Body preparedConfig))))"

definition rerun_discovery ::
  "(discovery_request \<Rightarrow> answer js_result) \<Rightarrow> string \<Rightarrow> string \<Rightarrow> string option discovery_io"
where
  "rerun_discovery service projectId discoveryId =
     io_bind (send service (disc_req POST (discovery_path projectId discoveryId @ ''/rerun'') None))
       (\<lambda>res. (Inr (an_id res), []))"

definition stop_discovery ::
  "(discovery_request \<Rightarrow> answer js_result) \<Rightarrow> string \<Rightarrow> string \<Rightarrow> unit discovery_io"
where
  "stop_discovery service projectId discoveryId =
     io_bind (send service (disc_req PUT (discovery_path projectId discoveryId @ ''/lifecycle'')
         (Some (Lifecycle ''stop''))))
       (\<lambda>_. (Inr (), []))"

definition delete_discovery ::
  "(discovery_request \<Rightarrow> answer js_result) \<Rightarrow> string \<Rightarrow> string \<Rightarrow> unit discovery_io"
where
  "delete_discovery service projectId discoveryId =
     io_bind (send service (disc_req DELETE (discovery_path projectId discoveryId) None)) (\<lambda>_. (Inr (), []))"

definition get_discovery ::
  "(discovery_request \<Rightarrow> 'v js_result) \<Rightarrow> string \<Rightarrow> string \<Rightarrow> 'v discovery_io"
where
  "get_discovery service projectId discoveryId =
     send service (disc_req GET (discovery_path projectId discoveryId) None)"


section \<open>Headers\<close>

lemma header_list_sel:
  "map hd_name (header_list es) = map fst es" "map hd_value (header_list es) = map snd es"
  by (induction es) (auto simp: header_list_def)

lemma create_discovery_no_file:
  assumes "dc_fileId c = None"
  shows "create_discovery v service p h c =
    (let post = disc_req POST (''/api/v2/projects/'' @ p @ ''/discoveries'')
       (Some (Discovery_Body
         \<lparr>db_config = c\<lparr>dc_discoveryTypes := (if dc_crawlerUrls c \<noteq> None then Some [CRAWLER] else None),
                          dc_exclusions := default_exclusions (dc_exclusions c)\<rparr>,
          db_info = client_info_of v, db_headers = map_option (\<lambda>h. header_list (object_entries h)) h\<rparr>))
     in (service post, [post]))"
  using assms
  by (simp add: create_discovery_def prepareConfig_def apply_default_settings_def explore_discovery_def
      send_def Let_def)

text \<open>
  A record of headers is sent as it is.  Header lines passed unparsed, as the discovery command
  passes them, are sent under the names 0, 1, 2, \<open>\<dots>\<close> with the whole line as the value: none of
  them has the name the user gave.
\<close>

theorem discovery_headers_sent:
  "(\<forall>hs. map (\<lambda>h. (hd_name h, hd_value h)) (header_list (object_entries (Header_Record hs))) = hs) \<and>
   (\<forall>ls i. i < length ls \<longrightarrow>
      header_list (object_entries (Header_Lines ls)) ! i =
        \<lparr>hd_name = nat_str i, hd_value = ls ! i, hd_mergeStrategy = ''replace''\<rparr>)"
proof -
  have "map (\<lambda>h. (hd_name h, hd_value h)) (header_list hs) = hs" for hs
    by (induction hs) (auto simp: header_list_def)
  then show ?thesis by (simp add: header_list_def)
qed

theorem discovery_headers_sent_witness:
  "header_list (object_entries (Header_Lines [''X-Api: 1''])) ! 0 =
     \<lparr>hd_name = nat_str 0, hd_value = ''X-Api: 1'', hd_mergeStrategy = ''replace''\<rparr>"
proof -
  have "0 < length [''X-Api: 1'']" by simp
  from discovery_headers_sent [THEN conjunct2, rule_format, OF this] show ?thesis by simp
qed

end
