(* ===== verification/Rest_EntryPoints.thy ===== *)
theory Rest_EntryPoints
  imports Rest_Client
begin

text \<open>
  The entry point client (\<open>src/EntryPoint/RestEntryPoints.ts\<close>, with the data of
  \<open>src/EntryPoint/EntryPoints.ts\<close>): listing in pages of fifty and the two requests of the host update.
\<close>

text \<open>The constructor of \<open>RestEntryPoints\<close> creates its client as \<open>RestScans\<close> does.\<close>

abbreviation entrypoints_client :: "url_parser \<Rightarrow> rest_options \<Rightarrow> client js_result" where
  "entrypoints_client parse opts \<equiv> new_client parse opts"

record entry_point =
  ep_id :: string
  ep_method :: string
  ep_url :: string
  ep_responseStatus :: nat
  ep_connectivity :: string
  ep_lastUpdated :: string
  ep_lastEdited :: string
  ep_lastValidated :: string
  ep_parametersCount :: nat
  ep_responseTime :: nat
  ep_status :: string
  ep_openIssuesCount :: nat
  ep_closedIssuesCount :: nat
  ep_createdAt :: string

record list_options =
  lo_projectId :: string
  lo_limit :: "int option"
  lo_connectivity :: "string list option"
  lo_status :: "string list option"

record page_params =
  pp_nextId :: "string option"
  pp_nextCreatedAt :: "string option"
  pp_connectivity :: "string list option"
  pp_status :: "string list option"
  pp_limit :: int

record update_host_options =
  uh_projectId :: string
  uh_oldHostname :: string
  uh_newHostname :: string
  uh_entryPointIds :: "string list option"

record update_host_body =
  ub_oldHostname :: string
  ub_newHostname :: string
  ub_entryPointIds :: "string list option"

record job_status_options =
  js_jobId :: string
  js_projectId :: string

type_synonym ep_request = "(page_params, update_host_body) request"

definition entrypointsPaginationBatchSize :: int where
  "entrypointsPaginationBatchSize = 50"

definition page_request :: "list_options \<Rightarrow> string option \<Rightarrow> string option \<Rightarrow> int \<Rightarrow> ep_request" where
  "page_request opts nextId nextCreatedAt remaining =
     \<lparr>req_method = GET, req_path = ''/api/v2/projects/'' @ lo_projectId opts @ ''/entry-points'',
      req_params = Some \<lparr>pp_nextId = nextId, pp_nextCreatedAt = nextCreatedAt,
        pp_connectivity = lo_connectivity opts, pp_status = lo_status opts,
        pp_limit = min remaining entrypointsPaginationBatchSize\<rparr>,
      req_body = None\<rparr>"

text \<open>The \<open>while\<close> loop; an answer without \<open>items\<close> is \<open>None\<close>.\<close>

function fetch_pages ::
  "(ep_request \<Rightarrow> entry_point list option js_result) \<Rightarrow> list_options \<Rightarrow> int \<Rightarrow>
     string option \<Rightarrow> string option \<Rightarrow> entry_point list \<Rightarrow> (ep_request, entry_point list) io"
where
  "fetch_pages service opts remaining nextId nextCreatedAt data =
     (if remaining > 0 then
        let q = page_request opts nextId nextCreatedAt remaining in
        io_bind (send service q) (\<lambda>res.
          let items = (case res of None \<Rightarrow> [] | Some is \<Rightarrow> is) in
          if items = [] then (Inr data, [])
          else fetch_pages service opts (remaining - entrypointsPaginationBatchSize)
                 (Some (ep_id (last items))) (Some (ep_createdAt (last items))) (data @ items))
      else (Inr data, []))"
  by pat_completeness auto
termination
  by (relation "measure (\<lambda>(_, _, remaining, _). nat remaining)")
    (auto simp: entrypointsPaginationBatchSize_def)

declare fetch_pages.simps [simp del]

definition entrypoints ::
  "(ep_request \<Rightarrow> entry_point list option js_result) \<Rightarrow> list_options \<Rightarrow> (ep_request, entry_point list) io"
where
  "entrypoints service opts =
     fetch_pages service opts (case lo_limit opts of None \<Rightarrow> 10 | Some l \<Rightarrow> l) None None []"

definition updateHost :: "(ep_request \<Rightarrow> 'a js_result) \<Rightarrow> update_host_options \<Rightarrow> (ep_request, 'a) io" where
  "updateHost service opts =
     send service
       \<lparr>req_method = POST,
        req_path = ''/api/v2/projects/'' @ uh_projectId opts @ ''/entry-points/update-host'',
        req_params = None,
        req_body = Some \<lparr>ub_oldHostname = uh_oldHostname opts, ub_newHostname = uh_newHostname opts,
          ub_entryPointIds = uh_entryPointIds opts\<rparr>\<rparr>"

definition getHostUpdateJobStatus :: "(ep_request \<Rightarrow> 'a js_result) \<Rightarrow> job_status_options \<Rightarrow> (ep_request, 'a) io" where
  "getHostUpdateJobStatus service opts =
     send service
       \<lparr>req_method = GET,
        req_path = ''/api/v2/projects/'' @ js_projectId opts @ ''/entry-points/update-host/'' @ js_jobId opts,
        req_params = None, req_body = None\<rparr>"


section \<open>Paging\<close>

lemma fetch_pages_done: "remaining \<le> 0 \<Longrightarrow> fetch_pages service opts remaining i c data = (Inr data, [])"
  by (simp add: fetch_pages.simps)

lemma fetch_pages_requests:
  "length (snd (fetch_pages service opts remaining i c data)) \<le> nat ((remaining + 49) div 50) \<and>
   (\<forall>q \<in> set (snd (fetch_pages service opts remaining i c data)).
      \<exists>p. req_params q = Some p \<and> 0 < pp_limit p \<and> pp_limit p \<le> 50)"
proof (induction service opts remaining i c data rule: fetch_pages.induct)
  case (1 service opts remaining i c data)
  show ?case
  proof (cases "remaining > 0")
    case True
    let ?q = "page_request opts i c remaining"
    have q: "\<exists>p. req_params ?q = Some p \<and> 0 < pp_limit p \<and> pp_limit p \<le> 50"
      using True by (simp add: page_request_def entrypointsPaginationBatchSize_def)
    have pos: "1 \<le> nat ((remaining + 49) div 50)" using True by linarith
    have less: "Suc (nat ((remaining - 50 + 49) div 50)) = nat ((remaining + 49) div 50)"
      using True by linarith
    show ?thesis
    proof (cases "\<exists>is. service ?q = Inr (Some is) \<and> is \<noteq> []")
      case True
      then obtain "is" where s: "service ?q = Inr (Some is)" "is \<noteq> []" by blast
      note IH = "1.IH" [OF \<open>remaining > 0\<close> refl refl, of "Some is"]
      have "fetch_pages service opts remaining i c data =
          (let r = fetch_pages service opts (remaining - 50) (Some (ep_id (last is)))
                     (Some (ep_createdAt (last is))) (data @ is) in (fst r, ?q # snd r))"
        using s \<open>remaining > 0\<close>
        by (subst fetch_pages.simps) (simp add: send_def Let_def entrypointsPaginationBatchSize_def)
      with IH s q less show ?thesis by (auto simp: Let_def entrypointsPaginationBatchSize_def)
    next
      case False
      then have "snd (fetch_pages service opts remaining i c data) = [?q]"
        using \<open>remaining > 0\<close>
        by (subst fetch_pages.simps) (auto simp: send_def io_bind_def Let_def split: sum.splits option.splits)
      with q pos show ?thesis by simp
    qed
  qed (simp add: fetch_pages_done)
qed

text \<open>A service that keeps a list of entry points and answers a page request with those after the cursor.\<close>

definition after :: "string option \<Rightarrow> entry_point list \<Rightarrow> entry_point list" where
  "after cursor es = (case cursor of None \<Rightarrow> es | Some i \<Rightarrow> tl (dropWhile (\<lambda>e. ep_id e \<noteq> i) es))"

definition pages_of :: "entry_point list \<Rightarrow> ep_request \<Rightarrow> entry_point list option js_result" where
  "pages_of es q =
     (case req_params q of
        None \<Rightarrow> Inl (mk_error ''Bad Request'')
      | Some p \<Rightarrow> Inr (Some (take (nat (pp_limit p)) (after (pp_nextId p) es))))"

lemma after_last:
  assumes "distinct (map ep_id (xs @ ys))" and "xs \<noteq> []"
  shows "after (Some (ep_id (last xs))) (xs @ ys) = ys"
proof -
  from assms(2) obtain zs z where xs: "xs = zs @ [z]" by (meson rev_exhaust)
  with assms(1) have "ep_id z \<notin> ep_id ` set zs" by simp
  then have "\<forall>e \<in> set zs. ep_id e \<noteq> ep_id z" by (metis imageI)
  then have "dropWhile (\<lambda>e. ep_id e \<noteq> ep_id z) (zs @ z # ys) = z # ys"
    by (simp add: dropWhile_append2)
  with xs show ?thesis by (simp add: after_def)
qed

lemma fetch_pages_complete:
  assumes "distinct (map ep_id es)" and "es = data @ rest" and "after i es = rest"
  shows "fst (fetch_pages (pages_of es) opts remaining i c data) = Inr (data @ take (nat remaining) rest)"
  using assms(2,3)
proof (induction "nat remaining" arbitrary: remaining i c data rest rule: less_induct)
  case less
  show ?case
  proof (cases "remaining > 0 \<and> rest \<noteq> []")
    case True
    define items where "items = take (nat (min remaining 50)) rest"
    define rest' where "rest' = drop (nat (min remaining 50)) rest"
    have split: "rest = items @ rest'" by (simp add: items_def rest'_def)
    have ne: "items \<noteq> []" using True by (auto simp: items_def min_def)
    have es: "es = (data @ items) @ rest'" using less.prems(1) split by simp
    have "service_answer = Inr (Some items)"
      if "service_answer = pages_of es (page_request opts i c remaining)" for service_answer
      using that less.prems(2)
      by (simp add: pages_of_def page_request_def entrypointsPaginationBatchSize_def items_def)
    then have "fst (fetch_pages (pages_of es) opts remaining i c data) =
        fst (fetch_pages (pages_of es) opts (remaining - 50) (Some (ep_id (last items)))
          (Some (ep_createdAt (last items))) (data @ items))"
      using True ne
      by (subst fetch_pages.simps) (simp add: send_def Let_def entrypointsPaginationBatchSize_def)
    also have "\<dots> = Inr ((data @ items) @ take (nat (remaining - 50)) rest')"
    proof (rule less.hyps [OF _ es])
      have "distinct (map ep_id ((data @ items) @ rest'))" using assms(1) es by simp
      from after_last [OF this] ne show "after (Some (ep_id (last items))) es = rest'" by (simp add: es)
    qed (use True in linarith)
    also have "(data @ items) @ take (nat (remaining - 50)) rest' = data @ (items @ take (nat (remaining - 50)) rest')"
      by simp
    also have "items @ take (nat (remaining - 50)) rest' = take (nat remaining) rest"
    proof (cases "remaining \<le> 50")
      case False
      then have "nat remaining = 50 + nat (remaining - 50)" by linarith
      with False show ?thesis by (simp add: items_def rest'_def take_add)
    qed (simp add: items_def)
    finally show ?thesis by simp
  next
    case False
    then show ?thesis
    proof (cases "remaining > 0")
      case True
      with False less.prems(2) show ?thesis
        by (subst fetch_pages.simps)
          (simp add: send_def Let_def pages_of_def page_request_def)
    qed (simp add: fetch_pages_done)
  qed
qed


definition sample_entry :: "string \<Rightarrow> entry_point" where
  "sample_entry i = \<lparr>ep_id = i, ep_method = ''GET'', ep_url = ''https://example.com/'', ep_responseStatus = 200,
     ep_connectivity = ''ok'', ep_lastUpdated = [], ep_lastEdited = [], ep_lastValidated = [],
     ep_parametersCount = 0, ep_responseTime = 5, ep_status = ''new'', ep_openIssuesCount = 0,
     ep_closedIssuesCount = 0, ep_createdAt = ''2024-01-01''\<rparr>"


end
