(* ===== verification/Archives.thy ===== *)
theory Archives
  imports Rest_Client
begin

text \<open>
  Reading, validating and uploading specification files (\<open>src/Archive/Parsers\<close>,
  \<open>src/Archive/Validators\<close>, \<open>src/Archive/RestArchives.ts\<close>).  JSON values are a datatype; the parsers
  \<open>JSON.parse\<close> and \<open>js-yaml\<close>, the schema checks of \<open>ajv\<close>, \<open>semver\<close> and the URL parser are parameters,
  as is the file system.  Paths are POSIX paths.
\<close>

datatype json =
  JNull | JBool bool | JNum int | JStr string | JArr "json list" | JObj "(string \<times> json) list"

fun json_truthy :: "json option \<Rightarrow> bool" where
  "json_truthy None = False"
| "json_truthy (Some JNull) = False"
| "json_truthy (Some (JBool b)) = b"
| "json_truthy (Some (JNum n)) = (n \<noteq> 0)"
| "json_truthy (Some (JStr s)) = (s \<noteq> [])"
| "json_truthy (Some _) = True"

text \<open>Property access \<open>v.k\<close>: it throws on \<open>null\<close> and \<open>undefined\<close>.\<close>

fun jprop :: "json option \<Rightarrow> string \<Rightarrow> json option js_result" where
  "jprop None k = Inl (type_error ''Cannot read properties of undefined'')"
| "jprop (Some JNull) k = Inl (type_error ''Cannot read properties of null'')"
| "jprop (Some (JObj kv)) k = Inr (sget kv k)"
| "jprop (Some _) k = Inr None"


section \<open>Validators\<close>

type_synonym schema = "json \<Rightarrow> bool"

definition parseEntry :: "url_parser \<Rightarrow> json \<Rightarrow> string option js_result" where
  "parseEntry parse entry =
     bind_res (jprop (Some entry) ''request'') (\<lambda>req.
     bind_res (jprop req ''url'') (\<lambda>url.
       case url of
         Some (JStr u) \<Rightarrow>
           (case parse u of
              None \<Rightarrow> Inl (type_error ''Invalid URL'')
            | Some v \<Rightarrow> Inr (if url_host v = [] \<or> url_protocol v = [] \<or> url_protocol v = ''chrome-extension:''
                             then None else Some u))
       | _ \<Rightarrow> Inl (type_error ''Invalid URL'')))"

fun parse_entries :: "url_parser \<Rightarrow> json list \<Rightarrow> string option list js_result" where
  "parse_entries parse [] = Inr []"
| "parse_entries parse (e # es) =
     bind_res (parseEntry parse e) (\<lambda>u. bind_res (parse_entries parse es) (\<lambda>us. Inr (u # us)))"

definition entriesAreValid :: "url_parser \<Rightarrow> json option \<Rightarrow> bool js_result" where
  "entriesAreValid parse entries =
     (if \<not> json_truthy entries then Inr False
      else case entries of
        Some (JArr es) \<Rightarrow>
          bind_res (parse_entries parse es) (\<lambda>items.
            let urls = map the (filter (\<lambda>u. truthy u) items); targets = uniq urls
            in Inr (length targets \<noteq> 0))
      | _ \<Rightarrow> Inl (type_error ''entries.map is not a function''))"

definition validate_har :: "url_parser \<Rightarrow> schema \<Rightarrow> json \<Rightarrow> unit js_result" where
  "validate_har parse har_schema data =
     (if \<not> har_schema data then Inl (mk_error ''The HAR file is corrupted.'')
      else bind_res (jprop (Some data) ''log'') (\<lambda>log.
           bind_res (jprop log ''entries'') (\<lambda>entries.
           bind_res (entriesAreValid parse entries) (\<lambda>valid.
             if valid then Inr () else Inl (mk_error ''HAR is empty or contains none of request.'')))))"

record semver =
  semver_valid :: "string \<Rightarrow> bool"
  semver_major :: "string \<Rightarrow> nat js_result"
  semver_gte :: "string \<Rightarrow> string \<Rightarrow> bool js_result"

definition MIN_ALLOWED_VERSION :: string where
  "MIN_ALLOWED_VERSION = ''2.0.0''"

definition VERSION_SCHEMA_MAP :: "(nat, string) store" where
  "VERSION_SCHEMA_MAP =
     [(2, ''http://swagger.io/v2/schema.json#''), (3, ''https://spec.openapis.org/oas/3.0/schema/2019-04-02'')]"

text \<open>The value of \<open>spec.openapi || spec.swagger || ''\<close>.\<close>

definition version_field :: "json \<Rightarrow> json js_result" where
  "version_field spec =
     bind_res (jprop (Some spec) ''openapi'') (\<lambda>openapi.
     bind_res (jprop (Some spec) ''swagger'') (\<lambda>swagger.
       Inr (if json_truthy openapi then the openapi
            else if json_truthy swagger then the swagger else JStr [])))"

definition getVersion :: "semver \<Rightarrow> json \<Rightarrow> string js_result" where
  "getVersion sv spec =
     bind_res (version_field spec) (\<lambda>field.
       case field of
         JStr s \<Rightarrow>
           let version = trim s in
           if version = [] then Inl (assertion_error ''Cannot determine version of specification.'')
           else Inr (if \<not> semver_valid sv version \<and> startsWith MIN_ALLOWED_VERSION version
                     then MIN_ALLOWED_VERSION else version)
       | _ \<Rightarrow> Inl (type_error ''trim is not a function''))"

definition validateVersion :: "semver \<Rightarrow> json \<Rightarrow> unit js_result" where
  "validateVersion sv spec =
     bind_res (getVersion sv spec) (\<lambda>version.
     bind_res (semver_gte sv version MIN_ALLOWED_VERSION) (\<lambda>ge.
       if ge then Inr ()
       else Inl (mk_error ''Swagger v1 are not supported. If you are using an older format, convert it to v2 and try again.'')))"

definition validate_oas :: "semver \<Rightarrow> (string \<Rightarrow> schema) \<Rightarrow> json \<Rightarrow> unit js_result" where
  "validate_oas sv getSchema spec =
     bind_res (getVersion sv spec) (\<lambda>version.
     bind_res (semver_major sv version) (\<lambda>major.
       case sget VERSION_SCHEMA_MAP major of
         None \<Rightarrow> Inl (assertion_error ''Cannot determine version of schema. Schema ID is missed.'')
       | Some schemaId \<Rightarrow>
           bind_res (validateVersion sv spec) (\<lambda>_.
             if getSchema schemaId spec then Inr () else Inl (mk_error ''The OAS file is corrupted.''))))"

definition ALLOWED_SCHEMAS :: "string list" where
  "ALLOWED_SCHEMAS =
     [''https://schema.getpostman.com/json/draft-07/collection/v2.0.0/'',
      ''https://schema.getpostman.com/json/draft-07/collection/v2.1.0/'',
      ''https://schema.getpostman.com/json/collection/v2.0.0/'',
      ''https://schema.getpostman.com/json/collection/v2.1.0/'']"

definition validate_postman :: "(string \<Rightarrow> schema option) \<Rightarrow> json \<Rightarrow> unit js_result" where
  "validate_postman getSchema collection =
     (if \<not> json_truthy (Some collection)
      then Inl (assertion_error ''Postman collection is not provided.'')
      else bind_res (jprop (Some collection) ''info'') (\<lambda>info.
        if \<not> json_truthy info
        then Inl (assertion_error ''\"info\" section is missed in the collection.'')
        else bind_res (jprop info ''schema'') (\<lambda>sch.
          bind_res (if \<not> json_truthy sch then Inr []
                    else case sch of
                           Some (JStr s) \<Rightarrow> Inr (path_dir s @ ''/'')
                         | _ \<Rightarrow> Inl (type_error ''The path argument must be of type string''))
            (\<lambda>schemaId.
              if trim schemaId \<notin> set ALLOWED_SCHEMAS
              then Inl (mk_error ''Postman v1 collections are not supported. If you are using an older format, convert it to v2 and try again.'')
              else case getSchema schemaId of
                     None \<Rightarrow> Inl (mk_error ''Cannot determine version of schema. Schema ID is missed.'')
                   | Some validate \<Rightarrow>
                       if validate collection then Inr ()
                       else Inl (mk_error ''The Postman Collection file is corrupted.'')))))"


section \<open>Parsers\<close>

record parsed_file =
  pf_content :: string
  pf_filename :: string
  pf_contentType :: string

text \<open>A file: its size in bytes and its text.\<close>

type_synonym file_system = "string \<Rightarrow> (nat \<times> string) option"

definition FILE_SIZE_LIMIT :: nat where
  "FILE_SIZE_LIMIT = 500 * 1024 ^ 2"

definition contentType :: "string \<Rightarrow> string" where
  "contentType ext = (if ext \<in> {''.yml'', ''.yaml''} then ''application/yaml'' else ''application/json'')"

definition parse_file ::
  "(string \<Rightarrow> string \<Rightarrow> json js_result) \<Rightarrow> (json \<Rightarrow> unit js_result) \<Rightarrow> file_system \<Rightarrow> string \<Rightarrow>
     parsed_file js_result"
where
  "parse_file deserialize validate fs path =
     (if path = [] then Inl (assertion_error ''The path is invalid.'')
      else case fs path of
        None \<Rightarrow> Inl (mk_error (basename path @ '' file doesn't found.''))
      | Some (sz, content) \<Rightarrow>
          if sz > FILE_SIZE_LIMIT
          then Inl (mk_error ''There is not enough storage space to save this file'')
          else let ext = extname path in
            (case deserialize content ext of
               Inl e \<Rightarrow> Inl (mk_error (''File is invalid. '' @ err_message e))
             | Inr data \<Rightarrow>
                 bind_res (validate data) (\<lambda>_.
                   Inr \<lparr>pf_content = content, pf_filename = basename path, pf_contentType = contentType ext\<rparr>)))"

definition base_deserialize :: "(string \<Rightarrow> json js_result) \<Rightarrow> string \<Rightarrow> string \<Rightarrow> json js_result" where
  "base_deserialize json_parse file ext = json_parse file"

definition oas_deserialize ::
  "(string \<Rightarrow> json js_result) \<Rightarrow> (string \<Rightarrow> json js_result) \<Rightarrow> string \<Rightarrow> string \<Rightarrow> json js_result"
where
  "oas_deserialize json_parse yaml_load file ext =
     (if ext = ''.yml'' \<or> ext = ''.yaml'' then yaml_load file else json_parse file)"

text \<open>The third-party code the parsers use.\<close>

record parser_env =
  pe_url :: url_parser
  pe_json :: "string \<Rightarrow> json js_result"
  pe_yaml :: "string \<Rightarrow> json js_result"
  pe_semver :: semver
  pe_har :: schema
  pe_oas :: "string \<Rightarrow> schema"
  pe_postman :: "string \<Rightarrow> schema option"

datatype spec_type = HAR | OPENAPI | POSTMAN

fun create_parser :: "parser_env \<Rightarrow> spec_type option \<Rightarrow> (file_system \<Rightarrow> string \<Rightarrow> parsed_file js_result) js_result" where
  "create_parser env (Some HAR) =
     Inr (parse_file (base_deserialize (pe_json env)) (validate_har (pe_url env) (pe_har env)))"
| "create_parser env (Some OPENAPI) =
     Inr (parse_file (oas_deserialize (pe_json env) (pe_yaml env)) (validate_oas (pe_semver env) (pe_oas env)))"
| "create_parser env (Some POSTMAN) =
     Inr (parse_file (base_deserialize (pe_json env)) (validate_postman (pe_postman env)))"
| "create_parser env None = Inl (mk_error ''Incorrect a specification type'')"


section \<open>Upload\<close>

record spec =
  sp_file :: parsed_file
  sp_type :: "spec_type option"
  sp_discard :: "bool option"
  sp_projectId :: "string option"
  sp_headers :: "(string, string) store option"
  sp_variables :: "(string, string) store option"

record form_data =
  fd_file :: parsed_file
  fd_projectId :: "string option"
  fd_headers :: "(string, string) store"
  fd_variables :: "(string, string) store"

definition archives_client :: "url_parser \<Rightarrow> rest_options \<Rightarrow> client js_result" where
  "archives_client parse opts =
     new_client parse (opts\<lparr>ro_timeout := nullish (ro_timeout opts) (Some 10000)\<rparr>)"

definition upload ::
  "((bool option, form_data) request \<Rightarrow> string option js_result) \<Rightarrow> spec \<Rightarrow>
     ((bool option, form_data) request, string option) io"
where
  "upload service sp =
     (if sp_type sp \<in> {Some OPENAPI, Some POSTMAN, Some HAR} then
        send service \<lparr>req_method = POST, req_path = ''/api/v1/files'', req_params = Some (sp_discard sp),
          req_body = Some \<lparr>fd_file = sp_file sp, fd_projectId = sp_projectId sp,
            fd_headers = (case sp_headers sp of None \<Rightarrow> [] | Some h \<Rightarrow> h),
            fd_variables = (case sp_variables sp of None \<Rightarrow> [] | Some v \<Rightarrow> v)\<rparr>\<rparr>
      else (Inl (assertion_error ''Invalid specification type. Allowed: OpenAPI,Postman,HAR''), []))"


section \<open>Properties\<close>

lemma parseEntry_parsed:
  assumes "parseEntry parse e = Inr (Some w)"
  shows "parse w \<noteq> None"
proof -
  from assms obtain url where "(case url of
         Some (JStr u) \<Rightarrow>
           (case parse u of
              None \<Rightarrow> Inl (type_error ''Invalid URL'')
            | Some v \<Rightarrow> Inr (if url_host v = [] \<or> url_protocol v = [] \<or> url_protocol v = ''chrome-extension:''
                             then None else Some u))
       | _ \<Rightarrow> Inl (type_error ''Invalid URL'')) = Inr (Some w)"
    by (auto simp: parseEntry_def)
  then show ?thesis by (simp split: option.split_asm json.split_asm if_split_asm)
qed

lemma parseEntry_truthy:
  assumes "parse [] = None" and "parseEntry parse e = Inr u"
  shows "truthy u \<longleftrightarrow> (\<exists>w. u = Some w)"
  using assms parseEntry_parsed [of parse e] by (cases u) auto

lemma parse_entries_total:
  "(\<exists>us. parse_entries parse es = Inr us) \<longleftrightarrow> (\<forall>e \<in> set es. \<exists>t. parseEntry parse e = Inr t)"
  by (induction es) auto

lemma parse_entries_some:
  assumes "parse [] = None"
  shows "parse_entries parse es = Inr us \<Longrightarrow>
    (\<exists>u \<in> set us. truthy u) \<longleftrightarrow> (\<exists>e \<in> set es. \<exists>w. parseEntry parse e = Inr (Some w))"
proof (induction es arbitrary: us)
  case (Cons e es)
  then obtain u us' where "parseEntry parse e = Inr u" "parse_entries parse es = Inr us'" "us = u # us'"
    by auto
  with Cons.IH parseEntry_truthy [of parse, OF assms] show ?case by auto
qed simp


text \<open>
  An OpenAPI file passes validation only if its version, read from \<open>openapi\<close> or \<open>swagger\<close> and
  with 2 and 2.0 standing for 2.0.0, is at least 2.0.0 with major number 2 or 3 and the file satisfies
  the schema of that major version.
\<close>

theorem validate_oas_ok:
  assumes "validate_oas sv getSchema spec = Inr ()"
  shows "\<exists>version major schemaId. getVersion sv spec = Inr version \<and> version \<noteq> [] \<and>
    semver_major sv version = Inr major \<and> major \<in> {2, 3} \<and>
    semver_gte sv version ''2.0.0'' = Inr True \<and>
    sget VERSION_SCHEMA_MAP major = Some schemaId \<and> getSchema schemaId spec"
proof -
  from assms obtain version major where v: "getVersion sv spec = Inr version"
    and m: "semver_major sv version = Inr major"
    and rest: "(case sget VERSION_SCHEMA_MAP major of
         None \<Rightarrow> Inl (assertion_error ''Cannot determine version of schema. Schema ID is missed.'')
       | Some schemaId \<Rightarrow>
           bind_res (validateVersion sv spec) (\<lambda>_.
             if getSchema schemaId spec then Inr () else Inl (mk_error ''The OAS file is corrupted.''))) = Inr ()"
    by (auto simp: validate_oas_def)
  from rest obtain i where i: "sget VERSION_SCHEMA_MAP major = Some i" "getSchema i spec"
    and "validateVersion sv spec = Inr ()"
    by (auto split: option.splits if_splits)
  with v have "semver_gte sv version ''2.0.0'' = Inr True"
    by (auto simp: validateVersion_def MIN_ALLOWED_VERSION_def split: if_splits)
  moreover have "version \<noteq> []"
  proof -
    from v obtain fld where "version_field spec = Inr fld" and
      "(case fld of JStr s \<Rightarrow>
           let version = trim s in
           if version = [] then Inl (assertion_error ''Cannot determine version of specification.'')
           else Inr (if \<not> semver_valid sv version \<and> startsWith MIN_ALLOWED_VERSION version
                     then MIN_ALLOWED_VERSION else version)
       | _ \<Rightarrow> Inl (type_error ''trim is not a function'')) = Inr version"
      by (auto simp: getVersion_def)
    then show ?thesis by (cases fld) (auto simp: Let_def MIN_ALLOWED_VERSION_def split: if_splits)
  qed
  moreover have "major \<in> {2, 3}" using i(1) by (auto simp: VERSION_SCHEMA_MAP_def split: if_splits)
  ultimately show ?thesis using v m i by blast
qed

text \<open>
  Reading a specification file succeeds exactly when the file exists, is at most 500 MiB large,
  deserialises and passes the validator of its type; the content handed on is the file's own text
  under the last component of its path, marked as YAML exactly for the extensions .yml and .yaml.
\<close>

theorem parse_file_iff:
  "parse_file deserialize validate fs path = Inr f \<longleftrightarrow>
     path \<noteq> [] \<and> (\<exists>sz content data. fs path = Some (sz, content) \<and> sz \<le> 524288000 \<and>
       deserialize content (extname path) = Inr data \<and> validate data = Inr () \<and>
       f = \<lparr>pf_content = content, pf_filename = basename path,
            pf_contentType = (if extname path = ''.yml'' \<or> extname path = ''.yaml'' then ''application/yaml''
                              else ''application/json'')\<rparr>)"
  by (auto simp: parse_file_def contentType_def FILE_SIZE_LIMIT_def Let_def split: option.splits sum.splits)


section \<open>Witnesses\<close>

definition sample_url :: url_parser where
  "sample_url u =
     (if startsWith u ''https://''
      then Some \<lparr>url_protocol = ''https:'', url_host = drop 8 u, url_hostname = drop 8 u, url_port = []\<rparr>
      else None)"

definition sample_har_entry :: json where
  "sample_har_entry = JObj [(''request'', JObj [(''url'', JStr ''https://a.b'')])]"

definition sample_har :: json where
  "sample_har = JObj [(''log'', JObj [(''entries'', JArr [sample_har_entry])])]"


definition sample_semver :: semver where
  "sample_semver = \<lparr>semver_valid = (\<lambda>v. length v = 5), semver_major = (\<lambda>v. Inr (digits_val (take 1 v))),
     semver_gte = (\<lambda>a b. Inr (digits_val (take 1 b) \<le> digits_val (take 1 a)))\<rparr>"

theorem validate_oas_ok_witness:
  "validate_oas sample_semver (\<lambda>_ _. True) (JObj [(''swagger'', JStr ''2.0'')]) = Inr () \<and>
   (\<exists>major. semver_major sample_semver ''2.0.0'' = Inr major \<and> major \<in> {2, 3})"
proof -
  have t: "trim ''2.0'' = ''2.0''" by (simp add: trim_def is_space_def code_def)
  have v: "getVersion sample_semver (JObj [(''swagger'', JStr ''2.0'')]) = Inr ''2.0.0''"
    by (simp add: getVersion_def version_field_def Let_def t startsWith_def MIN_ALLOWED_VERSION_def
        sample_semver_def)
  have m: "semver_major sample_semver ''2.0.0'' = Inr 2"
    by (simp add: sample_semver_def digits_val_def code_def)
  have ok: "validate_oas sample_semver (\<lambda>_ _. True) (JObj [(''swagger'', JStr ''2.0'')]) = Inr ()"
    by (simp add: validate_oas_def v m validateVersion_def VERSION_SCHEMA_MAP_def)
      (auto simp: sample_semver_def MIN_ALLOWED_VERSION_def)
  from validate_oas_ok [OF ok] v ok show ?thesis by auto
qed

end
