(* ===== verification/Requests.thy ===== *)
theory Requests
  imports Helpers
begin

text \<open>
  The request the repeater executes (\<open>src/RequestExecutor/Request.ts\<close>, \<open>Response.ts\<close>,
  \<open>RequestExecutorOptions.ts\<close>).  Buffers are lists of bytes; the URL parser and the compilation of a
  regular expression are parameters.
\<close>

datatype protocol = HTTP | WS

datatype header_value = One string | Many "string list"

type_synonym headers = "(string, header_value) store"

record request_options =
  opt_protocol :: protocol
  opt_url :: string
  opt_headers :: "headers option"
  opt_method :: "string option"
  opt_pfx :: "string option"
  opt_ca :: "string option"
  opt_body :: "string option"
  opt_passphrase :: "string option"
  opt_correlationIdRegex :: "string option"
  opt_encoding :: "string option"
  opt_maxContentSize :: "int option"
  opt_timeout :: "nat option"
  opt_decompress :: "bool option"
  opt_keepAlive :: "bool option"

record cert =
  cert_path :: string
  cert_hostname :: string
  cert_passphrase :: "string option"
  cert_port :: "string option"

record http_request =
  rq_protocol :: protocol
  rq_url :: string
  rq_method :: string
  rq_headers :: headers
  rq_body :: "string option"
  rq_ca :: "string option"
  rq_pfx :: "string option"
  rq_passphrase :: "string option"
  rq_correlationIdRegex :: "string option"
  rq_encoding :: "string option"
  rq_maxContentSize :: "int option"
  rq_timeout :: "nat option"
  rq_decompress :: bool
  rq_keepAlive :: "bool option"

record response =
  rs_protocol :: protocol
  rs_statusCode :: "nat option"
  rs_headers :: "headers option"
  rs_body :: "string option"
  rs_encoding :: "string option"
  rs_message :: "string option"
  rs_errorCode :: "string option"
  rs_ttfb :: "nat option"

definition SINGLE_VALUE_HEADERS :: "string list" where
  "SINGLE_VALUE_HEADERS =
     [''authorization'', ''content-disposition'', ''content-length'', ''content-type'', ''from'', ''host'',
      ''if-modified-since'', ''if-unmodified-since'', ''location'', ''max-forwards'',
      ''proxy-authorization'', ''referer'', ''user-agent'']"

fun flatten_header :: "string \<Rightarrow> header_value \<Rightarrow> header_value" where
  "flatten_header field (One v) = One v"
| "flatten_header field (Many vs) =
     (if toLowerCase field \<in> set SINGLE_VALUE_HEADERS then One (join '', '' vs) else Many vs)"

definition setHeaders :: "headers \<Rightarrow> http_request \<Rightarrow> http_request" where
  "setHeaders headers r =
     r\<lparr>rq_headers := map (\<lambda>(field, value). (field, flatten_header field value)) (spread (rq_headers r) headers)\<rparr>"

definition validateUrl :: "url_parser \<Rightarrow> string \<Rightarrow> unit js_result" where
  "validateUrl parse u = (case parse u of None \<Rightarrow> Inl (mk_error ''Invalid URL.'') | Some _ \<Rightarrow> Inr ())"

definition normalizeCorrelationIdRegex :: "(string \<Rightarrow> bool) \<Rightarrow> string option \<Rightarrow> string option js_result" where
  "normalizeCorrelationIdRegex regexp_ok x =
     (if truthy x then
        (if regexp_ok (the x) then Inr x else Inl (mk_error ''Correlation id must be regular expression.''))
      else Inr None)"

text \<open>A falsy buffer or string option is dropped.\<close>

definition buffer_of :: "string option \<Rightarrow> string option" where
  "buffer_of x = (if truthy x then x else None)"

definition new_request :: "url_parser \<Rightarrow> (string \<Rightarrow> bool) \<Rightarrow> request_options \<Rightarrow> http_request js_result" where
  "new_request parse regexp_ok opts =
     bind_res (validateUrl parse (opt_url opts)) (\<lambda>_.
     bind_res (normalizeCorrelationIdRegex regexp_ok (opt_correlationIdRegex opts)) (\<lambda>re.
       Inr (setHeaders (case opt_headers opts of None \<Rightarrow> [] | Some h \<Rightarrow> h)
         \<lparr>rq_protocol = opt_protocol opts,
          rq_url = trim (opt_url opts),
          rq_method = (case opt_method opts of None \<Rightarrow> ''GET'' | Some m \<Rightarrow> toUpperCase m),
          rq_headers = [],
          rq_body = opt_body opts,
          rq_ca = buffer_of (opt_ca opts),
          rq_pfx = buffer_of (opt_pfx opts),
          rq_passphrase = opt_passphrase opts,
          rq_correlationIdRegex = re,
          rq_encoding = opt_encoding opts,
          rq_maxContentSize = opt_maxContentSize opts,
          rq_timeout = opt_timeout opts,
          rq_decompress = (case opt_decompress opts of None \<Rightarrow> True | Some b \<Rightarrow> b),
          rq_keepAlive = opt_keepAlive opts\<rparr>)))"

definition secureEndpoint :: "http_request \<Rightarrow> bool" where
  "secureEndpoint r = startsWith (rq_url r) ''https''"

definition toJSON :: "(string \<Rightarrow> string) \<Rightarrow> http_request \<Rightarrow> request_options" where
  "toJSON utf8 r =
     \<lparr>opt_protocol = rq_protocol r, opt_url = rq_url r, opt_headers = Some (rq_headers r),
      opt_method = Some (rq_method r), opt_pfx = map_option utf8 (rq_pfx r), opt_ca = map_option utf8 (rq_ca r),
      opt_body = rq_body r, opt_passphrase = rq_passphrase r,
      opt_correlationIdRegex = rq_correlationIdRegex r, opt_encoding = None, opt_maxContentSize = None,
      opt_timeout = None, opt_decompress = None, opt_keepAlive = None\<rparr>"

text \<open>
  \<open>loadCert\<close>: the file's bytes, if it can be read, by the extension; \<open>passphrase_ok\<close> is the probe with
  \<open>createSecureContext\<close>, which only warns.  The warnings are returned.
\<close>

definition assertPassphrase ::
  "(string option \<Rightarrow> string option \<Rightarrow> bool) \<Rightarrow> string \<Rightarrow> string option \<Rightarrow> string option \<Rightarrow> string list"
where
  "assertPassphrase passphrase_ok name pfx passphrase =
     (if passphrase_ok passphrase pfx then []
      else [''Error Loading Certificate: Wrong passphrase for certificate '' @ name @ ''.''])"

definition loadCert ::
  "(string \<Rightarrow> string option) \<Rightarrow> (string option \<Rightarrow> string option \<Rightarrow> bool) \<Rightarrow> cert \<Rightarrow> http_request \<Rightarrow>
     http_request \<times> string list"
where
  "loadCert read passphrase_ok c r =
     (let path = cert_path c; data = read path; ext = extname path; name = basename path;
          missing = (if data = None then [''Warning: certificate '' @ path @ '' not found.''] else [])
      in
      if ext \<in> {''.pem'', ''.crt'', ''.ca''} then (r\<lparr>rq_ca := data\<rparr>, missing)
      else if ext = ''.pfx'' then
        (r\<lparr>rq_pfx := data, rq_passphrase := cert_passphrase c\<rparr>,
         missing @ assertPassphrase passphrase_ok name data (cert_passphrase c))
      else (r, missing @ [''Warning: certificate of type \"'' @ ext @ ''\" does not support.'']))"


section \<open>Headers\<close>

lemma flatten_header_idem [simp]: "flatten_header f (flatten_header f v) = flatten_header f v"
  by (cases v) auto

lemma sget_map_entries: "sget (map (\<lambda>(k, v). (k, g k v)) m) k = map_option (g k) (sget m k)"
  by (induction m) auto

lemma setHeaders_get:
  assumes "wf_store h"
  shows "sget (rq_headers (setHeaders h r)) k =
    map_option (flatten_header k) (nullish (sget h k) (sget (rq_headers r) k))"
  using assms by (simp add: setHeaders_def sget_map_entries sget_spread_wf)

lemma map_fst_entries: "map (fst \<circ> (\<lambda>(k, v). (k, g k v))) m = map fst m"
  by (induction m) auto

lemma wf_setHeaders: "wf_store (rq_headers r) \<Longrightarrow> wf_store (rq_headers (setHeaders h r))"
  by (simp add: setHeaders_def map_fst_entries)

lemma setHeaders_flat: "(k, v) \<in> set (rq_headers (setHeaders h r)) \<Longrightarrow> flatten_header k v = v"
  by (auto simp: setHeaders_def)

lemma setHeaders_same:
  assumes "wf_store h" and "\<forall>(k, v) \<in> set h. flatten_header k v = v" and "rq_headers r = []"
  shows "setHeaders h r = r\<lparr>rq_headers := h\<rparr>"
proof -
  have "map (\<lambda>(k, v). (k, flatten_header k v)) h = h"
    by (rule map_idI) (use assms(2) in auto)
  with assms(1,3) show ?thesis by (simp add: setHeaders_def spread_Nil_wf)
qed

text \<open>A request as the constructor leaves it.\<close>

definition wf_request :: "url_parser \<Rightarrow> (string \<Rightarrow> bool) \<Rightarrow> http_request \<Rightarrow> bool" where
  "wf_request parse regexp_ok r \<longleftrightarrow>
     parse (rq_url r) \<noteq> None \<and> trim (rq_url r) = rq_url r \<and> toUpperCase (rq_method r) = rq_method r \<and>
     wf_store (rq_headers r) \<and> (\<forall>(k, v) \<in> set (rq_headers r). flatten_header k v = v) \<and>
     (\<forall>x. rq_correlationIdRegex r = Some x \<longrightarrow> x \<noteq> [] \<and> regexp_ok x) \<and>
     rq_ca r \<noteq> Some [] \<and> rq_pfx r \<noteq> Some []"

lemma setHeaders_sel [simp]:
  "rq_url (setHeaders h r) = rq_url r" "rq_method (setHeaders h r) = rq_method r"
  "rq_correlationIdRegex (setHeaders h r) = rq_correlationIdRegex r"
  "rq_ca (setHeaders h r) = rq_ca r" "rq_pfx (setHeaders h r) = rq_pfx r"
  "rq_protocol (setHeaders h r) = rq_protocol r" "rq_body (setHeaders h r) = rq_body r"
  "rq_encoding (setHeaders h r) = rq_encoding r"
  by (simp_all add: setHeaders_def)

lemma wf_request_setHeaders: "wf_request parse ok r \<Longrightarrow> wf_request parse ok (setHeaders h r)"
  using setHeaders_flat by (fastforce simp: wf_request_def wf_setHeaders)

lemma new_request_wf:
  assumes "new_request parse ok opts = Inr r" and "\<And>u. parse (trim u) = parse u"
  shows "wf_request parse ok r"
proof -
  from assms(1) obtain re r0 where
    u: "parse (opt_url opts) \<noteq> None" and re: "normalizeCorrelationIdRegex ok (opt_correlationIdRegex opts) = Inr re"
    and r: "r = setHeaders (case opt_headers opts of None \<Rightarrow> [] | Some h \<Rightarrow> h) r0"
    and r0: "rq_url r0 = trim (opt_url opts)" "rq_headers r0 = []" "rq_correlationIdRegex r0 = re"
      "rq_ca r0 = buffer_of (opt_ca opts)" "rq_pfx r0 = buffer_of (opt_pfx opts)"
      "rq_method r0 = (case opt_method opts of None \<Rightarrow> ''GET'' | Some m \<Rightarrow> toUpperCase m)"
    by (auto simp: new_request_def validateUrl_def split: option.splits)
  have "toUpperCase ''GET'' = ''GET''" by (simp add: toUpperCase_def upper_char_def is_lower_def code_def)
  then have "wf_request parse ok r0"
    using u re r0 assms(2)
    by (auto simp: wf_request_def normalizeCorrelationIdRegex_def buffer_of_def split: option.splits if_splits)
  then show ?thesis unfolding r by (rule wf_request_setHeaders)
qed


section \<open>Properties\<close>

text \<open>
  Every request the constructor accepts is in normal form: its URL is valid and trimmed, its
  method upper case, no header is repeated, and a header that may have only one value has one, the
  given values joined by commas.  Later calls of \<open>setHeaders\<close> keep that form, and afterwards every
  header named in the call has the given value and every other the one it had.
\<close>

theorem request_normal_form:
  assumes "new_request parse ok opts = Inr r" and "\<forall>u. parse (trim u) = parse u" and "wf_store h"
  shows "wf_request parse ok (setHeaders h r) \<and>
    sget (rq_headers (setHeaders h r)) k =
      map_option (flatten_header k) (nullish (sget h k) (sget (rq_headers r) k)) \<and>
    (toLowerCase k \<in> set SINGLE_VALUE_HEADERS \<longrightarrow> sget h k = Some (Many vs) \<longrightarrow>
      sget (rq_headers (setHeaders h r)) k = Some (One (join '', '' vs)))"
proof -
  have "wf_request parse ok r" using new_request_wf assms(1,2) by blast
  then show ?thesis using setHeaders_get [OF assms(3)] by (simp add: wf_request_setHeaders)
qed


definition sample_request :: http_request where
  "sample_request = \<lparr>rq_protocol = HTTP, rq_url = ''https://a.b/'', rq_method = ''POST'',
     rq_headers = [(''X-A'', Many [''1'', ''2''])], rq_body = Some ''x'', rq_ca = None, rq_pfx = None,
     rq_passphrase = None, rq_correlationIdRegex = None, rq_encoding = Some ''base64'',
     rq_maxContentSize = Some 10, rq_timeout = Some 5000, rq_decompress = False, rq_keepAlive = None\<rparr>"

definition any_url :: url_parser where
  "any_url u = Some \<lparr>url_protocol = ''https:'', url_host = ''a.b'', url_hostname = ''a.b'', url_port = []\<rparr>"


theorem request_normal_form_witness:
  "\<exists>r. new_request any_url (\<lambda>_. True) (toJSON id sample_request) = Inr r \<and>
     sget (rq_headers (setHeaders [(''Host'', Many [''a'', ''b''])] r)) ''Host'' = Some (One (join '', '' [''a'', ''b'']))"
proof -
  have "\<exists>r. new_request any_url (\<lambda>_. True) (toJSON id sample_request) = Inr r"
    by (simp add: new_request_def toJSON_def sample_request_def validateUrl_def any_url_def
        normalizeCorrelationIdRegex_def)
  then obtain r where r: "new_request any_url (\<lambda>_. True) (toJSON id sample_request) = Inr r" by blast
  have h: "wf_store [(''Host'', Many [''a'', ''b''])]" by simp
  have p: "\<forall>u. any_url (trim u) = any_url u" by (simp add: any_url_def)
  have "toLowerCase ''Host'' \<in> set SINGLE_VALUE_HEADERS"
    by code_simp
  with request_normal_form [OF r p h, of "''Host''" "[''a'', ''b'']"] r show ?thesis by auto
qed

end
