(* ===== verification/Certs.thy ===== *)
theory Certs
  imports Requests
begin

text \<open>
  Client certificates of the repeater (\<open>src/RequestExecutor/DefaultCertificatesCache.ts\<close>,
  \<open>DefaultCertificatesResolver.ts\<close>) and the loading of root certificates (\<open>CertificatesLoader.ts\<close>).
\<close>

type_synonym cert_cache = "(string, cert) store"

definition cert_key :: "url_parser \<Rightarrow> http_request \<Rightarrow> string js_result" where
  "cert_key parse r =
     (case parse (rq_url r) of
        None \<Rightarrow> Inl (type_error ''Invalid URL'')
      | Some u \<Rightarrow> Inr (url_hostname u @ ''_'' @ portFromURL u))"

definition cache_add :: "url_parser \<Rightarrow> http_request \<Rightarrow> cert \<Rightarrow> cert_cache \<Rightarrow> cert_cache js_result" where
  "cache_add parse r c cache =
     bind_res (cert_key parse r) (\<lambda>key. Inr (if shas cache key then cache else sset key c cache))"

definition cache_get :: "url_parser \<Rightarrow> http_request \<Rightarrow> cert_cache \<Rightarrow> cert option js_result" where
  "cache_get parse r cache = bind_res (cert_key parse r) (\<lambda>key. Inr (sget cache key))"

definition matchHostnameAndPort :: "string \<Rightarrow> string \<Rightarrow> cert \<Rightarrow> bool" where
  "matchHostnameAndPort hostname port c =
     (if \<not> (cert_hostname c = hostname \<or> re_test (wildcardToRegExp (cert_hostname c)) hostname) then False
      else if \<not> truthy (cert_port c) then True
      else cert_port c = Some port)"

definition resolve_certs :: "url_parser \<Rightarrow> cert_cache \<Rightarrow> http_request \<Rightarrow> cert list \<Rightarrow> cert list js_result" where
  "resolve_certs parse cache r registeredCerts =
     bind_res (cache_get parse r cache) (\<lambda>cached.
       case cached of
         Some c \<Rightarrow> Inr [c]
       | None \<Rightarrow>
           (case parse (rq_url r) of
              None \<Rightarrow> Inl (type_error ''Invalid URL'')
            | Some u \<Rightarrow>
                Inr (filter (matchHostnameAndPort (url_hostname u) (portFromURL u)) registeredCerts)))"


section \<open>Root certificates\<close>

definition CERT_FILES :: "string list" where
  "CERT_FILES =
     [''/etc/ssl/certs/ca-certificates.crt'', ''/etc/pki/tls/certs/ca-bundle.crt'', ''/etc/ssl/ca-bundle.pem'',
      ''/etc/pki/tls/cacert.pem'', ''/etc/pki/ca-trust/extracted/pem/tls-ca-bundle.pem'', ''/etc/ssl/cert.pem'']"

definition END_CERT :: string where
  "END_CERT = ''-----END CERTIFICATE-----''"

text \<open>Splitting at the end marker with its optional newline.\<close>

fun drop_newline :: "string \<Rightarrow> string" where
  "drop_newline [] = []"
| "drop_newline (c # cs) = (if c = CHR 0x0A then cs else c # cs)"

definition split_bundle :: "string \<Rightarrow> string list" where
  "split_bundle ca =
     (case split_on END_CERT ca of [] \<Rightarrow> [] | p # ps \<Rightarrow> p # map drop_newline ps)"

definition loadCertsFromFile :: "(string \<Rightarrow> string option) \<Rightarrow> string \<Rightarrow> string list option" where
  "loadCertsFromFile read path =
     map_option (\<lambda>ca. map (\<lambda>c. c @ END_CERT @ [CHR 0x0A]) (filter (\<lambda>c. c \<noteq> []) (split_bundle ca))) (read path)"

text \<open>The certificates of the global agent after loading, if they change, and the warnings.\<close>

fun discoveryDefaultLocations ::
  "(string \<Rightarrow> string option) \<Rightarrow> string list \<Rightarrow> string list option \<times> string list"
where
  "discoveryDefaultLocations read [] =
     (None, [''Error Loading Certificate: Cannot load certificates from the system root. Please use --cacert option to specify the accurate path to the file. https://docs.brightsec.com/docs/cli-initializing-the-repeater#options''])"
| "discoveryDefaultLocations read (p # ps) =
     (case loadCertsFromFile read p of
        Some ca \<Rightarrow> (Some ca, []) | None \<Rightarrow> discoveryDefaultLocations read ps)"

text \<open>On Windows \<open>win-ca\<close> loads the certificates; \<open>win_loads\<close> says whether it succeeds.\<close>

definition load_certs ::
  "bool \<Rightarrow> bool \<Rightarrow> (string \<Rightarrow> string option) \<Rightarrow> string option \<Rightarrow> string list option \<times> string list"
where
  "load_certs win win_loads read path =
     (if win then
        (None, if win_loads then []
               else [''Error Loading Certificate: Cannot load certificates from Trusted Root Certification Authorities Certificate Store.''])
      else case path of
        Some p \<Rightarrow>
          (case loadCertsFromFile read p of
             Some ca \<Rightarrow> (Some ca, [])
           | None \<Rightarrow> (None, [''Error Loading Certificate: Cannot load certificates from '' @ p @ ''.'']))
      | None \<Rightarrow> discoveryDefaultLocations read CERT_FILES)"


section \<open>The cache\<close>

lemma cert_key_inj:
  assumes "h @ ''_'' @ p = h' @ ''_'' @ p'" and "CHR ''_'' \<notin> set p" "CHR ''_'' \<notin> set p'"
  shows "h = h' \<and> p = p'"
proof -
  let ?t = "takeWhile (\<lambda>c. c \<noteq> CHR ''_'')"
  have eq: "rev p @ CHR ''_'' # rev h = rev p' @ CHR ''_'' # rev h'"
    using arg_cong [OF assms(1), of rev] by simp
  have t: "?t (rev q @ CHR ''_'' # g) = rev q" if "CHR ''_'' \<notin> set q" for q g
    using that by (subst takeWhile_append2) auto
  have "rev p = rev p'"
    using arg_cong [OF eq, of ?t] unfolding t [OF assms(2)] t [OF assms(3)] .
  then show ?thesis using eq by simp
qed

text \<open>A certificate serves a host and port.\<close>

definition serves :: "cert \<Rightarrow> string \<Rightarrow> string \<Rightarrow> bool" where
  "serves c h p \<longleftrightarrow> (cert_hostname c = h \<or> wild (cert_hostname c) h) \<and> (cert_port c \<in> {None, Some [], Some p})"

lemma matchHostnameAndPort_serves: "matchHostnameAndPort h p = (\<lambda>c. serves c h p)"
proof
  fix c
  show "matchHostnameAndPort h p c \<longleftrightarrow> serves c h p"
    by (cases "cert_port c") (auto simp: matchHostnameAndPort_def serves_def host_re.test_compile)
qed

text \<open>Ports hold no underscore; every cached certificate serves the host and port of its key.\<close>

definition cache_inv :: "cert_cache \<Rightarrow> bool" where
  "cache_inv cache \<longleftrightarrow> wf_store cache \<and>
     (\<forall>(k, c) \<in> set cache. \<exists>h p. k = h @ ''_'' @ p \<and> CHR ''_'' \<notin> set p \<and> serves c h p)"

lemma cache_inv_put:
  assumes "cache_inv cache" and "serves c h p" and "CHR ''_'' \<notin> set p"
  shows "cache_inv (sset (h @ ''_'' @ p) c cache)"
proof -
  have "\<exists>h' p'. k = h' @ ''_'' @ p' \<and> CHR ''_'' \<notin> set p' \<and> serves d h' p'"
    if "(k, d) \<in> set (sset (h @ ''_'' @ p) c cache)" for k d
  proof -
    from that set_sset have "(k, d) = (h @ ''_'' @ p, c) \<or> (k, d) \<in> set cache" by fast
    with assms show ?thesis unfolding cache_inv_def by blast
  qed
  then show ?thesis using assms(1) unfolding cache_inv_def by blast
qed

lemma cache_inv_get:
  assumes "cache_inv cache" and "sget cache (h @ ''_'' @ p) = Some c" and "CHR ''_'' \<notin> set p"
  shows "serves c h p"
proof -
  from assms(2) have "(h @ ''_'' @ p, c) \<in> set cache" by (rule map_of_SomeD)
  with assms(1) obtain h' p' where "h @ ''_'' @ p = h' @ ''_'' @ p'" "CHR ''_'' \<notin> set p'" "serves c h' p'"
    unfolding cache_inv_def by fast
  with cert_key_inj assms(3) show ?thesis by metis
qed

lemma portFromURL_plain: "CHR ''_'' \<notin> set (url_port u) \<Longrightarrow> CHR ''_'' \<notin> set (portFromURL u)"
  by (simp add: portFromURL_def)

lemma certs_served:
  assumes "cache_inv cache" and "parse (rq_url r) = Some u" and "CHR ''_'' \<notin> set (url_port u)"
  shows "\<exists>cs. resolve_certs parse cache r registered = Inr cs \<and>
    (\<forall>c \<in> set cs. serves c (url_hostname u) (portFromURL u))"
  using assms(2) cache_inv_get [OF assms(1) _ portFromURL_plain [OF assms(3)]]
  by (auto simp: resolve_certs_def cache_get_def cert_key_def matchHostnameAndPort_serves split: option.splits)

text \<open>
  C22. The certificates tried for a request are the cached one for its host and port alone, or else
  exactly the registered ones, in their order, that are registered for its host, by name or wildcard,
  and for its port or for any.  A cached certificate also serves its host and port, as long as only
  certificates chosen this way are added: adding one keeps the cache sound, and the first one
  added for a host and port stays.
\<close>

theorem certs_resolved:
  assumes "cache_inv cache" and "parse (rq_url r) = Some u" and "CHR ''_'' \<notin> set (url_port u)"
  shows "\<exists>cs. resolve_certs parse cache r registered = Inr cs \<and>
    (\<forall>c \<in> set cs. serves c (url_hostname u) (portFromURL u)) \<and>
    (cache_get parse r cache = Inr None \<longrightarrow>
       cs = filter (\<lambda>c. serves c (url_hostname u) (portFromURL u)) registered) \<and>
    (\<forall>c. cache_get parse r cache = Inr (Some c) \<longrightarrow> cs = [c]) \<and>
    (\<forall>c \<in> set cs. \<exists>cache'. cache_add parse r c cache = Inr cache' \<and> cache_inv cache' \<and>
       cache_get parse r cache' = Inr (case cache_get parse r cache of Inr (Some d) \<Rightarrow> Some d | _ \<Rightarrow> Some c))"
proof -
  let ?h = "url_hostname u" and ?p = "portFromURL u"
  let ?k = "?h @ ''_'' @ ?p"
  have key: "cert_key parse r = Inr ?k" using assms(2) by (simp add: cert_key_def)
  have port: "CHR ''_'' \<notin> set ?p" by (rule portFromURL_plain [OF assms(3)])
  define cs where "cs = (case sget cache ?k of Some c \<Rightarrow> [c]
      | None \<Rightarrow> filter (\<lambda>c. serves c ?h ?p) registered)"
  have res: "resolve_certs parse cache r registered = Inr cs"
    using assms(2)
    by (simp add: resolve_certs_def cache_get_def key cs_def matchHostnameAndPort_serves split: option.splits)
  have serve: "\<forall>c \<in> set cs. serves c ?h ?p"
    using cache_inv_get [OF assms(1) _ port] by (auto simp: cs_def split: option.splits)
  have add: "\<exists>cache'. cache_add parse r c cache = Inr cache' \<and> cache_inv cache' \<and>
       cache_get parse r cache' = Inr (case cache_get parse r cache of Inr (Some d) \<Rightarrow> Some d | _ \<Rightarrow> Some c)"
    if "c \<in> set cs" for c
    using that serve assms(1) cache_inv_put [OF assms(1) _ port]
    by (auto simp: cache_add_def cache_get_def key simp del: append_Cons append_assoc split: option.splits)
  show ?thesis
  proof (intro exI [of _ cs] conjI)
    show "cache_get parse r cache = Inr None \<longrightarrow> cs = filter (\<lambda>c. serves c ?h ?p) registered"
      and "\<forall>c. cache_get parse r cache = Inr (Some c) \<longrightarrow> cs = [c]"
      by (simp_all add: cache_get_def key cs_def)
  qed (use res serve add in blast)+
qed

theorem certs_resolved_witness:
  "\<exists>cs. resolve_certs any_url [] sample_request
     [\<lparr>cert_path = ''c.pfx'', cert_hostname = ''*.b'', cert_passphrase = None, cert_port = Some ''443''\<rparr>,
      \<lparr>cert_path = ''d.pfx'', cert_hostname = ''x'', cert_passphrase = None, cert_port = None\<rparr>] = Inr cs \<and>
     (\<forall>c \<in> set cs. serves c ''a.b'' ''443'')"
proof -
  let ?u = "\<lparr>url_protocol = ''https:'', url_host = ''a.b'', url_hostname = ''a.b'', url_port = []\<rparr>"
  have "cache_inv []" by (simp add: cache_inv_def)
  moreover have "any_url (rq_url sample_request) = Some ?u" by (simp add: any_url_def)
  moreover have "CHR ''_'' \<notin> set (url_port ?u)" by simp
  ultimately obtain cs where "resolve_certs any_url [] sample_request
     [\<lparr>cert_path = ''c.pfx'', cert_hostname = ''*.b'', cert_passphrase = None, cert_port = Some ''443''\<rparr>,
      \<lparr>cert_path = ''d.pfx'', cert_hostname = ''x'', cert_passphrase = None, cert_port = None\<rparr>] = Inr cs"
    and "\<forall>c \<in> set cs. serves c (url_hostname ?u) (portFromURL ?u)"
    using certs_resolved [of "[]" any_url sample_request ?u] by blast
  then show ?thesis by (simp add: portFromURL_def)
qed


section \<open>Bundles of root certificates\<close>

lemma END_CERT_facts [simp]: "END_CERT \<noteq> []" "CHR 0x0A \<notin> set END_CERT"
  by (simp_all add: END_CERT_def)

text \<open>The text of a certificate file: each certificate ends in a newline before its end marker.\<close>

definition pem_file :: "string list \<Rightarrow> string" where
  "pem_file bodies = concat (map (\<lambda>b. (b @ [CHR 0x0A]) @ END_CERT @ [CHR 0x0A]) bodies)"

lemma split_bundle_line:
  assumes "\<not> sublist END_CERT b"
  shows "split_on END_CERT ((b @ [CHR 0x0A]) @ END_CERT @ rest) = (b @ [CHR 0x0A]) # split_on END_CERT rest"
  using cut_at_after_char [OF END_CERT_facts assms, of rest] by simp

lemma split_bundle_pieces:
  assumes "\<forall>b \<in> set bodies. \<not> sublist END_CERT b"
  shows "map drop_newline (split_on END_CERT (CHR 0x0A # pem_file bodies)) = map (\<lambda>b. b @ [CHR 0x0A]) bodies @ [[]]"
  using assms
proof (induction bodies)
  case Nil
  have "cut_at END_CERT [CHR 0x0A] = None" by (simp add: END_CERT_def)
  then show ?case by (simp add: pem_file_def)
next
  case (Cons b bs)
  have "split_on END_CERT (CHR 0x0A # pem_file (b # bs)) =
      (CHR 0x0A # b @ [CHR 0x0A]) # split_on END_CERT (CHR 0x0A # pem_file bs)"
  proof -
    have "\<not> sublist END_CERT (CHR 0x0A # b)"
      using Cons.prems by (auto simp: sublist_Cons_right prefix_Cons END_CERT_def)
    from split_bundle_line [OF this, of "CHR 0x0A # pem_file bs"] show ?thesis by (simp add: pem_file_def)
  qed
  with Cons show ?case by simp
qed

lemma split_bundle_bodies:
  assumes "\<forall>b \<in> set bodies. \<not> sublist END_CERT b"
  shows "filter (\<lambda>c. c \<noteq> []) (split_bundle (pem_file bodies)) = map (\<lambda>b. b @ [CHR 0x0A]) bodies"
proof (cases bodies)
  case Nil
  have "cut_at END_CERT [] = None" by simp
  with Nil show ?thesis by (simp add: pem_file_def split_bundle_def)
next
  case (Cons b bs)
  have "pem_file bodies = (b @ [CHR 0x0A]) @ END_CERT @ (CHR 0x0A # pem_file bs)"
    by (simp add: Cons pem_file_def)
  with split_bundle_line [of b "CHR 0x0A # pem_file bs"] split_bundle_pieces [of bs] assms Cons
  have "split_bundle (pem_file bodies) = (b @ [CHR 0x0A]) # map (\<lambda>b. b @ [CHR 0x0A]) bs @ [[]]"
    by (simp add: split_bundle_def)
  with Cons show ?thesis by (simp add: filter_id_conv)
qed

text \<open>
  Loading a file of root certificates yields exactly the certificates of the file, in order and
  each complete with its end marker, whatever the number of certificates.  Among the default places
  the first readable one is used; if none is readable the certificates stay as they are and a
  warning tells so.
\<close>

theorem root_certificates_loaded:
  assumes "\<forall>b \<in> set bodies. \<not> sublist END_CERT b" and "read p = Some (pem_file bodies)"
    and "\<forall>q \<in> set pre. read q = None"
  shows "loadCertsFromFile read p = Some (map (\<lambda>b. (b @ [CHR 0x0A]) @ END_CERT @ [CHR 0x0A]) bodies) \<and>
    discoveryDefaultLocations read (pre @ p # post) = (loadCertsFromFile read p, []) \<and>
    (\<exists>w. discoveryDefaultLocations read pre = (None, [w]))"
proof -
  have l: "loadCertsFromFile read p = Some (map (\<lambda>b. (b @ [CHR 0x0A]) @ END_CERT @ [CHR 0x0A]) bodies)"
    using split_bundle_bodies [OF assms(1)] assms(2) by (simp add: loadCertsFromFile_def o_def)
  have "discoveryDefaultLocations read (pre @ ps) = discoveryDefaultLocations read ps" for ps
    using assms(3) by (induction pre) (simp_all add: loadCertsFromFile_def)
  from this [of "p # post"] this [of "[]"] l show ?thesis by simp
qed

theorem root_certificates_loaded_witness:
  "loadCertsFromFile (\<lambda>p. if p = ''/etc/ssl/cert.pem'' then Some (pem_file [''A'', ''B'']) else None) ''/etc/ssl/cert.pem'' =
     Some [''A'' @ [CHR 0x0A] @ END_CERT @ [CHR 0x0A], ''B'' @ [CHR 0x0A] @ END_CERT @ [CHR 0x0A]]"
proof -
  let ?read = "\<lambda>p. if p = ''/etc/ssl/cert.pem'' then Some (pem_file [''A'', ''B'']) else None"
  have "\<forall>b \<in> set [''A'', ''B'']. \<not> sublist END_CERT b"
    by (auto simp: END_CERT_def dest: sublist_length_le)
  moreover have "?read ''/etc/ssl/cert.pem'' = Some (pem_file [''A'', ''B''])" by simp
  moreover have "\<forall>q \<in> set [''/x'']. ?read q = None" by simp
  ultimately show ?thesis
    using root_certificates_loaded [of "[''A'', ''B'']" ?read "''/etc/ssl/cert.pem''" "[''/x'']"] by simp
qed

end
