(* ===== verification/Scripts.thy ===== *)
theory Scripts
  imports Helpers
begin

text \<open>
  The registry of request scripts (\<open>src/Scripts/DefaultVirtualScripts.ts\<close>, \<open>VirtualScript.ts\<close>,
  \<open>FSScriptLoader.ts\<close>) and the acceptance of scripts from the cloud
  (\<open>DefaultRepeaterCommandHub.compileScripts\<close>).  Compiling a script with \<open>node:vm\<close> is a parameter that
  returns the syntax error, if any.
\<close>

datatype script_type = LOCAL | REMOTE

record script =
  vs_id :: string
  vs_type :: script_type
  vs_code :: string

type_synonym scripts = "(string, script) store"
type_synonym compiler = "string \<Rightarrow> js_error option"

text \<open>
  The code as a function of the module's variables, applied to them: \<open>module_wrap\<close> is \<open>Module.wrap\<close>, whose final
  semicolon is cut off.  The invisible characters removed first are beyond the code units of the model.
\<close>

definition MODULE_EXEC_ARGS :: "string list" where
  "MODULE_EXEC_ARGS = [''module.exports'', ''module.require'', ''module'', ''__filename'', ''__dirname'']"

definition module_wrap :: "string \<Rightarrow> string" where
  "module_wrap c =
     ''(function (exports, require, module, __filename, __dirname) { '' @ c @ [CHR 0x0A] @ ''});''"

definition wrapScriptCode :: "string \<Rightarrow> string" where
  "wrapScriptCode c =
     (let decoratedModule = module_wrap c
      in take (length decoratedModule - 1) decoratedModule @ ''('' @ join '','' MODULE_EXEC_ARGS @ '')'')"

definition new_script :: "compiler \<Rightarrow> string \<Rightarrow> script_type \<Rightarrow> string \<Rightarrow> script js_result" where
  "new_script compile i t c =
     (if i = [] then Inl (mk_error ''ID must be declared explicitly.'')
      else if c = [] then Inl (mk_error ''Code must be declared explicitly.'')
      else case compile (wrapScriptCode c) of
        Some e \<Rightarrow> Inl e
      | None \<Rightarrow> Inr \<lparr>vs_id = i, vs_type = t, vs_code = c\<rparr>)"

definition scripts_size :: "scripts \<Rightarrow> nat" where
  "scripts_size st = length st"

definition delete_script :: "string \<Rightarrow> scripts \<Rightarrow> bool \<times> scripts" where
  "delete_script key st = (shas st key, sdel key st)"

text \<open>\<open>forEach\<close> visits the entries in order and the callback deletes by the script's own id.\<close>

definition clear_scripts :: "script_type option \<Rightarrow> scripts \<Rightarrow> scripts" where
  "clear_scripts type st =
     (case type of
        None \<Rightarrow> []
      | Some t \<Rightarrow> foldl (\<lambda>acc (k, x). if vs_type x = t then snd (delete_script (vs_id x) acc) else acc) st st)"

definition find_script :: "string \<Rightarrow> scripts \<Rightarrow> script option" where
  "find_script host st = find (\<lambda>x. re_test (wildcardToRegExp (vs_id x)) host) (map snd st)"

definition set_script :: "compiler \<Rightarrow> string \<Rightarrow> script_type \<Rightarrow> string \<Rightarrow> scripts \<Rightarrow> scripts js_result" where
  "set_script compile wildcard t c st =
     bind_res (new_script compile wildcard t c) (\<lambda>x. Inr (sset (vs_id x) x st))"

definition count_scripts :: "script_type \<Rightarrow> scripts \<Rightarrow> nat" where
  "count_scripts t st = length (filter (\<lambda>(k, x). vs_type x = t) st)"


text \<open>
  Running a script yields the exports of its module or an error; \<open>run\<close> is that outcome for the given
  script and \<open>exports\<close> selects the function named.
\<close>

definition has_function :: "(script \<Rightarrow> 'm js_result) \<Rightarrow> ('m \<Rightarrow> 'f option) \<Rightarrow> script \<Rightarrow> bool js_result" where
  "has_function run exports x = bind_res (run x) (\<lambda>m. Inr (exports m \<noteq> None))"

definition exec_script :: "(script \<Rightarrow> 'm js_result) \<Rightarrow> ('m \<Rightarrow> 'f option) \<Rightarrow> string \<Rightarrow> script \<Rightarrow> 'f js_result" where
  "exec_script run exports functionName x =
     bind_res (run x) (\<lambda>m.
       case exports m of
         None \<Rightarrow> Inl (mk_error (''Error Loading Script: Script '' @ vs_id x @
                   '' does not match expected format, missing function '' @ functionName @ ''.''))
       | Some f \<Rightarrow> Inr f)"


section \<open>Scripts from the cloud\<close>

datatype script_input = Single string | Several "(string, string) store"

fun set_all :: "compiler \<Rightarrow> (string, string) store \<Rightarrow> scripts \<Rightarrow> unit js_result \<times> scripts" where
  "set_all compile [] st = (Inr (), st)"
| "set_all compile ((wildcard, c) # rest) st =
     (case set_script compile wildcard REMOTE c st of
        Inl e \<Rightarrow> (Inl e, st)
      | Inr st' \<Rightarrow> set_all compile rest st')"

definition compileScripts :: "compiler \<Rightarrow> script_input \<Rightarrow> scripts \<Rightarrow> unit js_result \<times> scripts \<times> string list" where
  "compileScripts compile inp st =
     (let st1 = clear_scripts (Some REMOTE) st in
      if scripts_size st1 \<noteq> 0 then
        (Inr (), st1,
         [''Error Loading Script: Cannot accept scripts from the cloud when a local script is already loaded''])
      else
        let (r, st2) = (case inp of
            Single c \<Rightarrow> set_all compile [(''*'', c)] st1
          | Several m \<Rightarrow> set_all compile m st1)
        in (r, st2, []))"


section \<open>Scripts from files\<close>

text \<open>
  \<open>FSScriptLoader.load\<close> reads all files at once; the entries are registered in the order in which
  the reads complete, here a reordering of the given entries.  The result is the first failure.
\<close>

definition load_script ::
  "(string \<Rightarrow> string option) \<Rightarrow> compiler \<Rightarrow> string \<times> string \<Rightarrow> scripts \<Rightarrow> unit js_result \<times> scripts"
where
  "load_script read compile entry st =
     (case read (snd entry) of
        None \<Rightarrow> (Inl (mk_error (''Error Loading Script: Cannot load '' @ snd entry)), st)
      | Some c \<Rightarrow>
          (case set_script compile (fst entry) LOCAL c st of
             Inl e \<Rightarrow> (Inl e, st) | Inr st' \<Rightarrow> (Inr (), st')))"

fun load_scripts ::
  "(string \<Rightarrow> string option) \<Rightarrow> compiler \<Rightarrow> (string \<times> string) list \<Rightarrow> scripts \<Rightarrow> unit js_result \<times> scripts"
where
  "load_scripts read compile [] st = (Inr (), st)"
| "load_scripts read compile (x # completions) st =
     (let (r, st1) = load_script read compile x st;
          (r', st2) = load_scripts read compile completions st1
      in (if isl r then r else r', st2))"


section \<open>Well-formed registries\<close>

definition wf_scripts :: "scripts \<Rightarrow> bool" where
  "wf_scripts st \<longleftrightarrow> wf_store st \<and> (\<forall>(k, x) \<in> set st. k = vs_id x \<and> k \<noteq> [])"

lemma wf_scripts_Nil [simp]: "wf_scripts []"
  by (simp add: wf_scripts_def)

lemma set_script_Inr:
  "set_script compile i t c st = Inr st' \<longleftrightarrow>
     i \<noteq> [] \<and> c \<noteq> [] \<and> compile (wrapScriptCode c) = None \<and> st' = sset i \<lparr>vs_id = i, vs_type = t, vs_code = c\<rparr> st"
  by (auto simp: set_script_def new_script_def split: option.splits)

lemma wf_set_script: "wf_scripts st \<Longrightarrow> set_script compile i t c st = Inr st' \<Longrightarrow> wf_scripts st'"
  using set_sset by (fastforce simp: wf_scripts_def set_script_Inr)

lemma sdel_filter: "sdel k st = filter (\<lambda>(k', _). k' \<noteq> k) st"
  by (induction st) auto

lemma wf_delete_script: "wf_scripts st \<Longrightarrow> wf_scripts (snd (delete_script k st))"
  by (auto simp: wf_scripts_def delete_script_def sdel_filter intro: distinct_map_filter)

lemma foldl_sdel_filter:
  "foldl (\<lambda>acc (k, x). if P x then sdel k acc else acc) acc es =
     filter (\<lambda>(k', _). \<forall>(k, x) \<in> set es. P x \<longrightarrow> k' \<noteq> k) acc"
proof (induction es arbitrary: acc)
  case (Cons e es)
  obtain k x where e: "e = (k, x)" by (cases e)
  show ?case
    using Cons.IH [of acc] Cons.IH [of "filter (\<lambda>p. fst p \<noteq> k) acc"]
    unfolding e by (simp add: sdel_filter split_def conj_commute)
qed simp

lemma clear_scripts_filter:
  assumes "wf_scripts st"
  shows "clear_scripts (Some t) st = filter (\<lambda>(k, x). vs_type x \<noteq> t) st"
proof -
  let ?f = "\<lambda>acc (k, x). if vs_type x = t then sdel k acc else acc"
  have "clear_scripts (Some t) st = foldl ?f st st"
    unfolding clear_scripts_def option.case
    by (rule foldl_cong) (use assms in \<open>auto simp: wf_scripts_def delete_script_def\<close>)
  also have "\<dots> = filter (\<lambda>(k', _). \<forall>(k, x) \<in> set st. vs_type x = t \<longrightarrow> k' \<noteq> k) st"
    by (rule foldl_sdel_filter)
  also have "\<dots> = filter (\<lambda>(k, x). vs_type x \<noteq> t) st"
  proof (rule filter_cong)
    fix e assume "e \<in> set st"
    then show "(case e of (k', _) \<Rightarrow> \<forall>(k, x) \<in> set st. vs_type x = t \<longrightarrow> k' \<noteq> k) \<longleftrightarrow>
        (case e of (k, x) \<Rightarrow> vs_type x \<noteq> t)"
      using assms by (auto simp: wf_scripts_def dest: eq_key_imp_eq_value)
  qed simp
  finally show ?thesis .
qed

lemma wf_clear_scripts: "wf_scripts st \<Longrightarrow> wf_scripts (clear_scripts (Some t) st)"
  by (auto simp: clear_scripts_filter wf_scripts_def intro: distinct_map_filter)

lemma wf_set_all: "wf_scripts st \<Longrightarrow> wf_scripts (snd (set_all compile m st))"
  by (induction compile m st rule: set_all.induct) (auto intro: wf_set_script split: sum.splits)

lemma set_all_ok:
  assumes "\<forall>(w, c) \<in> set m. w \<noteq> [] \<and> c \<noteq> [] \<and> compile (wrapScriptCode c) = None" and "wf_store m"
    and "\<forall>w \<in> set (map fst m). sget st w = None"
  shows "set_all compile m st =
    (Inr (), st @ map (\<lambda>(w, c). (w, \<lparr>vs_id = w, vs_type = REMOTE, vs_code = c\<rparr>)) m)"
  using assms
proof (induction compile m st rule: set_all.induct)
  case (2 compile wildcard c rest st)
  let ?x = "\<lparr>vs_id = wildcard, vs_type = REMOTE, vs_code = c\<rparr>"
  have set: "set_script compile wildcard REMOTE c st = Inr (st @ [(wildcard, ?x)])"
    using 2(2,4) by (simp add: set_script_Inr sset_fresh)
  have "set_all compile rest (st @ [(wildcard, ?x)]) =
      (Inr (), (st @ [(wildcard, ?x)]) @ map (\<lambda>(w, c). (w, \<lparr>vs_id = w, vs_type = REMOTE, vs_code = c\<rparr>)) rest)"
    using 2(2,3,4) by (intro 2(1) [OF set]) (auto simp: map_add_def split: option.splits)
  with set show ?case by simp
qed simp

lemma find_script_Some:
  "find_script host st = Some x \<longleftrightarrow>
     (\<exists>pre post. map snd st = pre @ x # post \<and> wild (vs_id x) host \<and> (\<forall>y \<in> set pre. \<not> wild (vs_id y) host))"
  by (simp add: find_script_def find_Some_split host_re.test_compile)

lemma find_script_None: "find_script host st = None \<longleftrightarrow> (\<forall>x \<in> set (map snd st). \<not> wild (vs_id x) host)"
  by (auto simp: find_script_def find_None_iff host_re.test_compile)


section \<open>Properties\<close>



text \<open>
  The script run for a host is the first registered one whose wildcard matches the host, and
  there is none exactly when no wildcard matches.
\<close>

theorem find_script_first_match:
  "(find_script host st = Some x \<longleftrightarrow>
     (\<exists>pre post. map snd st = pre @ x # post \<and> wild (vs_id x) host \<and>
        (\<forall>y \<in> set pre. \<not> wild (vs_id y) host))) \<and>
   (find_script host st = None \<longleftrightarrow> (\<forall>x \<in> set (map snd st). \<not> wild (vs_id x) host))"
  using find_script_Some find_script_None by blast

text \<open>
  Which script a host gets can depend on the order in which the script files happen to be read:
  loading the same two overlapping wildcards in either order registers the same scripts, yet a host
  that both match is served by different ones.
\<close>

theorem script_precedence_races:
  "let read = (\<lambda>p. Some p); a = (''*.com'', ''first''); b = (''*'', ''second'') in
     set (snd (load_scripts read (\<lambda>_. None) [a, b] [])) = set (snd (load_scripts read (\<lambda>_. None) [b, a] [])) \<and>
     find_script ''x.com'' (snd (load_scripts read (\<lambda>_. None) [a, b] [])) \<noteq>
       find_script ''x.com'' (snd (load_scripts read (\<lambda>_. None) [b, a] []))"
proof -
  have com: "wild ''*.com'' ''x.com''"
    using host_re.test_suffix_domain [of "''.com''" "''x''"]
    by (simp add: host_re.test_compile star_def is_newline_def code_def)
  have any: "wild ''*'' ''x.com''"
    using host_re.test_star [of "''x.com''"] by (simp add: host_re.test_compile star_def is_newline_def code_def)
  have ab: "snd (load_scripts (\<lambda>p. Some p) (\<lambda>_. None) [(''*.com'', ''first''), (''*'', ''second'')] []) =
      [(''*.com'', \<lparr>vs_id = ''*.com'', vs_type = LOCAL, vs_code = ''first''\<rparr>),
       (''*'', \<lparr>vs_id = ''*'', vs_type = LOCAL, vs_code = ''second''\<rparr>)]"
    and ba: "snd (load_scripts (\<lambda>p. Some p) (\<lambda>_. None) [(''*'', ''second''), (''*.com'', ''first'')] []) =
      [(''*'', \<lparr>vs_id = ''*'', vs_type = LOCAL, vs_code = ''second''\<rparr>),
       (''*.com'', \<lparr>vs_id = ''*.com'', vs_type = LOCAL, vs_code = ''first''\<rparr>)]"
    by (simp_all add: load_script_def set_script_def new_script_def)
  show ?thesis
    unfolding Let_def ab ba by (auto simp: find_script_def host_re.test_compile com any)
qed

theorem find_script_first_match_witness:
  "find_script ''x.com'' [(''*'', \<lparr>vs_id = ''*'', vs_type = LOCAL, vs_code = ''c''\<rparr>)] =
     Some \<lparr>vs_id = ''*'', vs_type = LOCAL, vs_code = ''c''\<rparr>"
proof -
  have "wild ''*'' ''x.com''"
    using host_re.test_star [of "''x.com''"] by (simp add: host_re.test_compile star_def is_newline_def code_def)
  then show ?thesis
    using find_script_first_match [of "''x.com''" "[(''*'', \<lparr>vs_id = ''*'', vs_type = LOCAL, vs_code = ''c''\<rparr>)]"
        "\<lparr>vs_id = ''*'', vs_type = LOCAL, vs_code = ''c''\<rparr>"]
    by (simp add: Cons_eq_append_conv)
qed

end
