(* ===== verification/Http_Executor.thy ===== *)
theory Http_Executor
  imports Certs Scripts Backoff "HOL-Library.Multiset"
begin

text \<open>
  The HTTP executor of the repeater (\<open>src/RequestExecutor/HttpRequestExecutor.ts\<close>).  The options set on
  the libcurl handle are data; performing the transfer, the legacy URL parser, \<open>iconv-lite\<close>, the
  content type parser and the execution of scripts are parameters gathered in \<open>exec_env\<close>.
\<close>

section \<open>Options and the constructor\<close>

record whitelist_mime =
  wm_type :: string
  wm_allowTruncation :: "bool option"

record kerberos_options =
  kb_enabled :: bool
  kb_domains :: "string list option"
  kb_credentials :: "string option"
  kb_delegation :: "bool option"

text \<open>A size limit of \<open>Infinity\<close> or \<open>undefined\<close> is \<open>None\<close>: comparisons with it are false.\<close>

record executor_options =
  xo_timeout :: "nat option"
  xo_proxyUrl :: "string option"
  xo_headers :: "headers option"
  xo_certs :: "cert list option"
  xo_whitelistMimes :: "whitelist_mime list option"
  xo_maxBodySize :: "int option"
  xo_maxContentLength :: "int option"
  xo_reuseConnection :: bool
  xo_proxyDomains :: "string list option"
  xo_proxyDomainsBypass :: "string list option"
  xo_kerberos :: "kerberos_options option"

record executor =
  ex_options :: executor_options
  ex_proxyDomains :: "string list option"
  ex_proxyDomainsBypass :: "string list option"
  ex_kerberosDomains :: "string list option"
  ex_limitedMulti :: bool

definition kerberos_enabled :: "executor_options \<Rightarrow> bool" where
  "kerberos_enabled opts = (case xo_kerberos opts of None \<Rightarrow> False | Some k \<Rightarrow> kb_enabled k)"

fun nonempty_option :: "'a list option \<Rightarrow> bool" where
  "nonempty_option None = False"
| "nonempty_option (Some xs) = (xs \<noteq> [])"

definition new_executor :: "executor_options \<Rightarrow> executor js_result" where
  "new_executor opts =
     (if nonempty_option (xo_proxyDomains opts) \<and> nonempty_option (xo_proxyDomainsBypass opts)
      then Inl (mk_error ''cannot use both proxyDomains and proxyDomainsBypass at the same time'')
      else Inr
        \<lparr>ex_options = opts,
         ex_proxyDomains = map_option (map wildcardToRegExp) (xo_proxyDomains opts),
         ex_proxyDomainsBypass = map_option (map wildcardToRegExp) (xo_proxyDomainsBypass opts),
         ex_kerberosDomains =
           (if kerberos_enabled opts
            then map_option (map wildcardToRegExp) (kb_domains (the (xo_kerberos opts))) else None),
         ex_limitedMulti = (xo_reuseConnection opts \<or> kerberos_enabled opts)\<rparr>)"


section \<open>Configuring libcurl\<close>

record legacy_url =
  lu_protocol :: string
  lu_host :: string
  lu_hostname :: string
  lu_auth :: "string option"

datatype curl_value = CStr string | CNum int | CBool bool | CList "string list"

text \<open>The calls of \<open>setOpt\<close>, in order; \<open>cu_multi\<close> when the shared multi handle is set.\<close>

record curl =
  cu_opts :: "(string \<times> curl_value) list"
  cu_multi :: bool

definition setOpt :: "string \<Rightarrow> curl_value \<Rightarrow> curl \<Rightarrow> curl" where
  "setOpt name v c = c\<lparr>cu_opts := cu_opts c @ [(name, v)]\<rparr>"

definition buildRawPath :: "string \<Rightarrow> string" where
  "buildRawPath u =
     (let withoutProtocol = (case cut_at ''://'' u of None \<Rightarrow> u | Some (_, rest) \<Rightarrow> rest);
          path = dropWhile (\<lambda>c. c \<notin> {CHR ''/'', CHR ''?'', CHR ''#''}) withoutProtocol
      in case path of
           [] \<Rightarrow> ''/''
         | c # cs \<Rightarrow> if c = CHR ''/'' then path else CHR ''/'' # path)"

definition resolveProxy :: "executor \<Rightarrow> string \<Rightarrow> string option" where
  "resolveProxy x hostname =
     (if (case ex_proxyDomains x of None \<Rightarrow> False | Some ds \<Rightarrow> \<not> list_ex (\<lambda>d. re_test d hostname) ds) then None
      else if (case ex_proxyDomainsBypass x of None \<Rightarrow> False | Some ds \<Rightarrow> list_ex (\<lambda>d. re_test d hostname) ds)
      then None
      else xo_proxyUrl (ex_options x))"

definition shouldApplyKerberos :: "executor \<Rightarrow> string \<Rightarrow> bool" where
  "shouldApplyKerberos x hostname =
     (if \<not> kerberos_enabled (ex_options x) then False
      else case ex_kerberosDomains x of
        None \<Rightarrow> True
      | Some ds \<Rightarrow> list_ex (\<lambda>d. re_test d hostname) ds)"

definition applyCurlKerberos :: "executor \<Rightarrow> string \<Rightarrow> curl \<Rightarrow> curl" where
  "applyCurlKerberos x hostname c =
     (if \<not> shouldApplyKerberos x hostname then c
      else
        let k = the (xo_kerberos (ex_options x));
            c1 = setOpt ''HTTPAUTH'' (CStr ''Negotiate'') c;
            c2 = setOpt ''USERPWD'' (CStr (if truthy (kb_credentials k) then the (kb_credentials k) else '':'')) c1
        in if kb_delegation k = Some True then setOpt ''GSSAPI_DELEGATION'' (CStr ''DelegationFlag'') c2 else c2)"

text \<open>\<open>Buffer.from\<close> and \<open>Buffer.toString\<close> are \<open>bytes_of\<close> and \<open>text_of\<close>; \<open>iconv_encode\<close> is \<open>iconv.encode\<close>.\<close>

definition applyCurlBody ::
  "(string \<Rightarrow> string) \<Rightarrow> (string \<Rightarrow> string) \<Rightarrow> (string \<Rightarrow> string \<Rightarrow> string) \<Rightarrow> http_request \<Rightarrow> curl \<Rightarrow> curl"
where
  "applyCurlBody bytes_of text_of iconv_encode r c =
     (if \<not> truthy (rq_body r) then c
      else
        let body = the (rq_body r);
            buffer = (if truthy (rq_encoding r) then iconv_encode body (the (rq_encoding r)) else bytes_of body)
        in setOpt ''POSTFIELDSIZE'' (CNum (int (length buffer)))
             (setOpt ''POSTFIELDS'' (CStr (text_of buffer)) c))"

definition applyCurlTls :: "http_request \<Rightarrow> curl \<Rightarrow> curl" where
  "applyCurlTls r c =
     (let c1 = (case rq_ca r of None \<Rightarrow> c | Some ca \<Rightarrow> setOpt ''CAINFO_BLOB'' (CStr ca) c) in
      case rq_pfx r of
        None \<Rightarrow> c1
      | Some pfx \<Rightarrow>
          let c2 = setOpt ''SSLCERTTYPE'' (CStr ''P12'') (setOpt ''SSLCERT_BLOB'' (CStr pfx) c1)
          in if truthy (rq_passphrase r) then setOpt ''KEYPASSWD'' (CStr (the (rq_passphrase r))) c2 else c2)"

definition applyCurlTimeout :: "executor \<Rightarrow> http_request \<Rightarrow> curl \<Rightarrow> curl" where
  "applyCurlTimeout x r c =
     (case nullish (rq_timeout r) (xo_timeout (ex_options x)) of
        None \<Rightarrow> c
      | Some t \<Rightarrow> setOpt ''TIMEOUT_MS'' (CNum (int t)) c)"

definition hasHeader :: "http_request \<Rightarrow> string \<Rightarrow> bool" where
  "hasHeader r name = list_ex (\<lambda>(k, _). toLowerCase k = toLowerCase name) (rq_headers r)"

fun header_values :: "header_value \<Rightarrow> string list" where
  "header_values (One v) = [v]"
| "header_values (Many vs) = vs"

definition buildCurlHeaders :: "http_request \<Rightarrow> string list" where
  "buildCurlHeaders r =
     concat (map (\<lambda>(key, value). if key = [] then [] else map (\<lambda>v. key @ '': '' @ v) (header_values value))
       (rq_headers r))"

definition applyCurlHeaders :: "executor \<Rightarrow> string \<Rightarrow> http_request \<Rightarrow> curl \<Rightarrow> curl" where
  "applyCurlHeaders x hostname r c =
     (let c1 = setOpt ''USERAGENT'' (CStr []) c;
          hs1 = buildCurlHeaders r @
            (if \<not> xo_reuseConnection (ex_options x) \<and> \<not> shouldApplyKerberos x hostname \<and> \<not> hasHeader r ''connection''
             then [''Connection: close''] else []);
          c2 = (if rq_decompress r then setOpt ''ACCEPT_ENCODING'' (CStr []) c1 else c1);
          hs2 = hs1 @
            (if \<not> rq_decompress r \<and> \<not> hasHeader r ''accept-encoding'' then [''Accept-Encoding: identity''] else [])
      in if hs2 \<noteq> [] then setOpt ''HTTPHEADER'' (CList hs2) c2 else c2)"

definition KEEP_ALIVE_IDLE_TIMEOUT :: int where
  "KEEP_ALIVE_IDLE_TIMEOUT = 60"

definition applyConnection :: "executor \<Rightarrow> string \<Rightarrow> curl \<Rightarrow> curl" where
  "applyConnection x hostname c =
     (if xo_reuseConnection (ex_options x) \<or> shouldApplyKerberos x hostname
      then (setOpt ''TCP_KEEPIDLE'' (CNum KEEP_ALIVE_IDLE_TIMEOUT) (setOpt ''TCP_KEEPALIVE'' (CNum 1) c))\<lparr>cu_multi := True\<rparr>
      else setOpt ''FORBID_REUSE'' (CNum 1) (setOpt ''FRESH_CONNECT'' (CNum 1) c))"

text \<open>The code outside the repository.\<close>

record exec_env =
  en_url :: url_parser
  en_legacy :: "string \<Rightarrow> legacy_url"
  en_regexp :: "string \<Rightarrow> bool"
  en_bytes :: "string \<Rightarrow> string"
  en_text :: "string \<Rightarrow> string"
  en_encode :: "string \<Rightarrow> string \<Rightarrow> string"
  en_decode :: "string \<Rightarrow> string \<Rightarrow> string"
  en_encodingExists :: "string \<Rightarrow> bool"
  en_contentType :: "string \<Rightarrow> string \<times> string option"
  en_read :: "string \<Rightarrow> string option"
  en_passphrase :: "string option \<Rightarrow> string option \<Rightarrow> bool"

text \<open>\<open>configureCurl\<close> up to the connection settings.\<close>

definition configureTransfer :: "exec_env \<Rightarrow> executor \<Rightarrow> http_request \<Rightarrow> curl" where
  "configureTransfer env x r =
     (let u = en_legacy env (rq_url r);
          h = lu_hostname u;
          c0 = setOpt ''URL'' (CStr (lu_protocol u @ ''//'' @ lu_host u)) \<lparr>cu_opts = [], cu_multi = False\<rparr>;
          c1 = (if truthy (lu_auth u) then setOpt ''USERPWD'' (CStr (the (lu_auth u))) c0 else c0);
          c2 = setOpt ''REQUEST_TARGET'' (CStr (buildRawPath (rq_url r))) c1;
          c3 = setOpt ''FOLLOWLOCATION'' (CBool False) (setOpt ''SSL_VERIFYHOST'' (CNum 0)
                 (setOpt ''SSL_VERIFYPEER'' (CBool False) (setOpt ''PATH_AS_IS'' (CBool True) c2)));
          c4 = applyCurlBody (en_bytes env) (en_text env) (en_encode env) r c3;
          c5 = applyCurlHeaders x h r (applyCurlTimeout x r (applyCurlTls r c4))
      in applyConnection x h c5)"

definition configureCurl :: "exec_env \<Rightarrow> executor \<Rightarrow> http_request \<Rightarrow> curl" where
  "configureCurl env x r =
     (let h = lu_hostname (en_legacy env (rq_url r));
          c6 = applyCurlKerberos x h (configureTransfer env x r);
          c7 = (if truthy (resolveProxy x h) then setOpt ''PROXY'' (CStr (the (resolveProxy x h))) c6 else c6)
      in setOpt ''CUSTOMREQUEST'' (CStr (rq_method r)) c7)"


section \<open>Responses\<close>

record curl_result =
  cr_statusCode :: nat
  cr_rawBody :: string
  cr_rawHeaders :: "headers list"
  cr_ttfb_us :: nat

definition parseCurlHeaders :: "headers list \<Rightarrow> headers" where
  "parseCurlHeaders rawHeaders =
     foldl (\<lambda>result (key, val). if key = ''result'' then result else sset (toLowerCase key) val result) []
       (if rawHeaders = [] then [] else last rawHeaders)"

definition parseContentType :: "exec_env \<Rightarrow> headers \<Rightarrow> string \<times> string" where
  "parseContentType env hs =
     (let ct = (case sget hs ''content-type'' of
                  Some (One v) \<Rightarrow> if v = [] then ''application/octet-stream'' else v
                | Some (Many vs) \<Rightarrow> []
                | None \<Rightarrow> ''application/octet-stream'');
          (type, charset) = en_contentType env ct
      in (type, if \<not> truthy charset \<or> \<not> en_encodingExists env (the charset) then ''utf-8'' else the charset))"

definition subarray0 :: "int \<Rightarrow> string \<Rightarrow> string" where
  "subarray0 n b = (if 0 \<le> n then take (nat n) b else take (nat (int (length b) + n)) b)"

datatype transform = Truncated | Omitted

definition truncateBody :: "string \<Rightarrow> int \<Rightarrow> bool \<Rightarrow> string \<times> transform" where
  "truncateBody body maxSize allowTruncation =
     (if allowTruncation then (subarray0 maxSize body, Truncated) else ([], Omitted))"

definition find_mime :: "executor \<Rightarrow> string \<Rightarrow> whitelist_mime option" where
  "find_mime x type =
     (case xo_whitelistMimes (ex_options x) of
        None \<Rightarrow> None
      | Some ms \<Rightarrow> find (\<lambda>m. startsWith type (wm_type m)) ms)"

definition max_size :: "executor \<Rightarrow> http_request \<Rightarrow> whitelist_mime option \<Rightarrow> int option" where
  "max_size x r mime =
     (if mime \<noteq> None then xo_maxBodySize (ex_options x)
      else map_option (\<lambda>n. n * 1024) (nullish (rq_maxContentSize r) (xo_maxContentLength (ex_options x))))"

text \<open>The bytes kept, the headers and whether the body was cut.\<close>

definition truncate_raw ::
  "exec_env \<Rightarrow> executor \<Rightarrow> http_request \<Rightarrow> string \<Rightarrow> headers \<Rightarrow> string \<times> headers \<times> transform option"
where
  "truncate_raw env x r rawBody hs =
     (let mime = find_mime x (fst (parseContentType env hs));
          hs1 = (if rq_decompress r then sdel ''content-encoding'' hs else hs);
          (body, tr) = (case max_size x r mime of
              None \<Rightarrow> (rawBody, None)
            | Some m \<Rightarrow>
                if int (length rawBody) > m then
                  map_prod id Some (truncateBody rawBody m
                    (case mime of None \<Rightarrow> True | Some w \<Rightarrow> wm_allowTruncation w = Some True))
                else (rawBody, None))
      in (body, sset ''content-length'' (One (nat_str (length body))) hs1, tr))"

definition truncateResponse ::
  "exec_env \<Rightarrow> executor \<Rightarrow> http_request \<Rightarrow> string \<Rightarrow> headers \<Rightarrow> string \<times> headers"
where
  "truncateResponse env x r rawBody hs =
     (let (body, hs', tr) = truncate_raw env x r rawBody hs;
          encoding = (case rq_encoding r of Some e \<Rightarrow> e | None \<Rightarrow> snd (parseContentType env hs))
      in (en_decode env body encoding, hs'))"

definition responseHasNoBody :: "string \<Rightarrow> nat \<Rightarrow> bool" where
  "responseHasNoBody method statusCode \<longleftrightarrow>
     method = ''HEAD'' \<or> (100 \<le> statusCode \<and> statusCode < 200) \<or> statusCode = 204 \<or> statusCode = 304"


section \<open>Scripts\<close>

record response_patch =
  rp_statusCode :: "nat option"
  rp_headers :: "headers option"
  rp_body :: "string option"

record script_module =
  sm_handle :: "(request_options \<Rightarrow> request_options js_result) option"
  sm_onResponse :: "(response \<Rightarrow> response_patch option js_result) option"

type_synonym script_runner = "script \<Rightarrow> script_module js_result"

definition hostname_of :: "exec_env \<Rightarrow> string \<Rightarrow> string js_result" where
  "hostname_of env u =
     (case en_url env u of None \<Rightarrow> Inl (type_error ''Invalid URL'') | Some v \<Rightarrow> Inr (url_hostname v))"

definition transformScript ::
  "exec_env \<Rightarrow> script_runner \<Rightarrow> scripts \<Rightarrow> http_request \<Rightarrow> http_request js_result"
where
  "transformScript env run st r =
     bind_res (hostname_of env (rq_url r)) (\<lambda>hostname.
       case find_script hostname st of
         None \<Rightarrow> Inr r
       | Some vm \<Rightarrow>
           bind_res (exec_script run sm_handle ''handle'' vm) (\<lambda>handle.
           bind_res (handle ((toJSON (en_text env) r)\<lparr>opt_body :=
                       (if truthy (rq_encoding r)
                        then Some (en_text env (en_encode env (case rq_body r of None \<Rightarrow> [] | Some b \<Rightarrow> b) (the (rq_encoding r))))
                        else rq_body r)\<rparr>))
             (\<lambda>result. new_request (en_url env) (en_regexp env) result)))"

definition handleResponseScript ::
  "exec_env \<Rightarrow> script_runner \<Rightarrow> scripts \<Rightarrow> http_request \<Rightarrow> response \<Rightarrow> response js_result"
where
  "handleResponseScript env run st r resp =
     bind_res (hostname_of env (rq_url r)) (\<lambda>hostname.
       case find_script hostname st of
         None \<Rightarrow> Inr resp
       | Some vm \<Rightarrow>
           bind_res (has_function run sm_onResponse vm) (\<lambda>has.
             if \<not> has then Inr resp
             else bind_res (exec_script run sm_onResponse ''onResponse'' vm) (\<lambda>onResponse.
               bind_res (onResponse resp) (\<lambda>result.
                 Inr (case result of
                        None \<Rightarrow> resp
                      | Some p \<Rightarrow>
                          \<lparr>rs_protocol = rs_protocol resp,
                           rs_statusCode = nullish (rp_statusCode p) (rs_statusCode resp),
                           rs_headers = nullish (rp_headers p) (rs_headers resp),
                           rs_body = nullish (rp_body p) (rs_body resp),
                           rs_encoding = rs_encoding resp, rs_message = None, rs_errorCode = None,
                           rs_ttfb = rs_ttfb resp\<rparr>)))))"


section \<open>Execution\<close>

text \<open>\<open>perform\<close> is the transfer with libcurl for a configured handle.\<close>

definition executeRequest ::
  "exec_env \<Rightarrow> script_runner \<Rightarrow> (curl \<Rightarrow> curl_result js_result) \<Rightarrow> executor \<Rightarrow> scripts \<Rightarrow> http_request \<Rightarrow>
     response js_result"
where
  "executeRequest env run perform x st r =
     bind_res (perform (configureCurl env x r)) (\<lambda>res.
       let hs = parseCurlHeaders (cr_rawHeaders res);
           base = \<lparr>rs_protocol = HTTP, rs_statusCode = Some (cr_statusCode res), rs_headers = Some hs,
                   rs_body = Some [], rs_encoding = None, rs_message = None, rs_errorCode = None,
                   rs_ttfb = Some (round_div (cr_ttfb_us res) 1000)\<rparr>
       in if responseHasNoBody (rq_method r) (cr_statusCode res)
          then handleResponseScript env run st r base
          else let (body, hs') = truncateResponse env x r (cr_rawBody res) hs
               in handleResponseScript env run st r
                    (base\<lparr>rs_body := Some body, rs_headers := Some hs', rs_encoding := rq_encoding r\<rparr>))"

text \<open>
  The attempts with the client certificates run concurrently on the same request object: each loads
  its certificate into it and sends at once, in the order \<open>loads\<close> in which the files are read, and the
  answers come in the order \<open>finishes\<close>.  Every success is offered to the cache, the first one
  is the result (\<open>Promise.any\<close>).
\<close>

fun send_with_certs ::
  "exec_env \<Rightarrow> script_runner \<Rightarrow> (curl \<Rightarrow> curl_result js_result) \<Rightarrow> executor \<Rightarrow> scripts \<Rightarrow> cert list \<Rightarrow>
     http_request \<Rightarrow> (cert \<times> response js_result) list"
where
  "send_with_certs env run perform x st [] r = []"
| "send_with_certs env run perform x st (c # cs) r =
     (let r' = fst (loadCert (en_read env) (en_passphrase env) c r)
      in (c, executeRequest env run perform x st r') # send_with_certs env run perform x st cs r')"

fun settle ::
  "url_parser \<Rightarrow> http_request \<Rightarrow> (cert \<times> response js_result) list \<Rightarrow> cert_cache \<Rightarrow>
     response option \<times> cert_cache"
where
  "settle parse r [] cache = (None, cache)"
| "settle parse r ((c, res) # rest) cache =
     (case res of
        Inl e \<Rightarrow> settle parse r rest cache
      | Inr resp \<Rightarrow>
          (case cache_add parse r c cache of
             Inl e \<Rightarrow> settle parse r rest cache
           | Inr cache' \<Rightarrow> (Some resp, snd (settle parse r rest cache'))))"

definition aggregate_error :: js_error where
  "aggregate_error = (mk_error ''All promises were rejected'')\<lparr>err_name := ''AggregateError''\<rparr>"

text \<open>\<open>finishes\<close> reorders the answers of the attempts.\<close>

definition tryRequestWithCertificates ::
  "exec_env \<Rightarrow> script_runner \<Rightarrow> (curl \<Rightarrow> curl_result js_result) \<Rightarrow> executor \<Rightarrow> scripts \<Rightarrow>
     ((cert \<times> response js_result) list \<Rightarrow> (cert \<times> response js_result) list) \<Rightarrow> http_request \<Rightarrow> cert list \<Rightarrow>
     cert_cache \<Rightarrow> response js_result \<times> cert_cache"
where
  "tryRequestWithCertificates env run perform x st finishes r loads cache =
     (let (winner, cache') = settle (en_url env) r (finishes (send_with_certs env run perform x st loads r)) cache
      in (case winner of None \<Rightarrow> Inl aggregate_error | Some resp \<Rightarrow> Inr resp, cache'))"

text \<open>The error is \<open>err.cause ?? err\<close>.\<close>

definition error_response :: "js_error \<Rightarrow> response" where
  "error_response e =
     \<lparr>rs_protocol = HTTP, rs_statusCode = None, rs_headers = None, rs_body = None, rs_encoding = None,
      rs_message = Some (err_message e),
      rs_errorCode = nullish (err_code e) (nullish (err_syscall e) (Some (err_name e))), rs_ttfb = None\<rparr>"

definition execute_http ::
  "exec_env \<Rightarrow> script_runner \<Rightarrow> (curl \<Rightarrow> curl_result js_result) \<Rightarrow> executor \<Rightarrow> scripts \<Rightarrow>
     (cert list \<Rightarrow> cert list) \<Rightarrow>
     ((cert \<times> response js_result) list \<Rightarrow> (cert \<times> response js_result) list) \<Rightarrow>
     http_request \<Rightarrow> cert_cache \<Rightarrow> response \<times> cert_cache"
where
  "execute_http env run perform x st loads finishes r cache =
     (let r1 = (case xo_headers (ex_options x) of None \<Rightarrow> r | Some h \<Rightarrow> setHeaders h r) in
      case transformScript env run st r1 of
        Inl e \<Rightarrow> (error_response e, cache)
      | Inr r2 \<Rightarrow>
          (case (case xo_certs (ex_options x) of
                   None \<Rightarrow> Inr []
                 | Some registered \<Rightarrow> resolve_certs (en_url env) cache r2 registered) of
             Inl e \<Rightarrow> (error_response e, cache)
           | Inr [] \<Rightarrow>
               (case executeRequest env run perform x st r2 of
                  Inl e \<Rightarrow> (error_response e, cache) | Inr resp \<Rightarrow> (resp, cache))
           | Inr (c # cs) \<Rightarrow>
               (case tryRequestWithCertificates env run perform x st finishes r2 (loads (c # cs)) cache of
                  (Inl e, cache') \<Rightarrow> (error_response e, cache')
                | (Inr resp, cache') \<Rightarrow> (resp, cache'))))"


section \<open>The options set on the handle\<close>

lemma setOpt_opts [simp]:
  "cu_opts (setOpt n v c) = cu_opts c @ [(n, v)]" "cu_multi (setOpt n v c) = cu_multi c"
  by (simp_all add: setOpt_def)

lemma new_executor_Inr:
  assumes "new_executor opts = Inr x"
  shows "ex_options x = opts"
    "ex_proxyDomains x = map_option (map wildcardToRegExp) (xo_proxyDomains opts)"
    "ex_proxyDomainsBypass x = map_option (map wildcardToRegExp) (xo_proxyDomainsBypass opts)"
    "ex_kerberosDomains x = (if kerberos_enabled opts
       then map_option (map wildcardToRegExp) (kb_domains (the (xo_kerberos opts))) else None)"
  using assms by (auto simp: new_executor_def split: if_splits)

lemma list_ex_wild: "list_ex (\<lambda>d. re_test d h) (map wildcardToRegExp ds) \<longleftrightarrow> (\<exists>d \<in> set ds. wild d h)"
  by (auto simp: list_ex_iff host_re.test_compile)

lemma cut_at_colon:
  "CHR '':'' \<notin> set scheme \<Longrightarrow> cut_at ''://'' (scheme @ ''://'' @ t) = Some (scheme, t)"
  by (induction scheme) auto

lemma applyCurl_names:
  "(n, v) \<in> set (cu_opts (applyCurlBody b t i r c)) \<Longrightarrow> (n, v) \<in> set (cu_opts c) \<or> n \<in> {''POSTFIELDS'', ''POSTFIELDSIZE''}"
  "(n, v) \<in> set (cu_opts (applyCurlTls r c)) \<Longrightarrow>
     (n, v) \<in> set (cu_opts c) \<or> n \<in> {''CAINFO_BLOB'', ''SSLCERT_BLOB'', ''SSLCERTTYPE'', ''KEYPASSWD''}"
  "(n, v) \<in> set (cu_opts (applyCurlTimeout x r c)) \<Longrightarrow> (n, v) \<in> set (cu_opts c) \<or> n = ''TIMEOUT_MS''"
  "(n, v) \<in> set (cu_opts (applyCurlHeaders x h r c)) \<Longrightarrow>
     (n, v) \<in> set (cu_opts c) \<or> n \<in> {''USERAGENT'', ''ACCEPT_ENCODING'', ''HTTPHEADER''}"
  "(n, v) \<in> set (cu_opts (applyConnection x h c)) \<Longrightarrow>
     (n, v) \<in> set (cu_opts c) \<or> n \<in> {''TCP_KEEPALIVE'', ''TCP_KEEPIDLE'', ''FRESH_CONNECT'', ''FORBID_REUSE''}"
  by (auto simp: applyCurlBody_def applyCurlTls_def applyCurlTimeout_def applyCurlHeaders_def
      applyConnection_def Let_def split: if_splits option.splits)

lemma applyCurl_keeps:
  "set (cu_opts c) \<subseteq> set (cu_opts (applyCurlBody b t i r c))"
  "set (cu_opts c) \<subseteq> set (cu_opts (applyCurlTls r c))"
  "set (cu_opts c) \<subseteq> set (cu_opts (applyCurlTimeout x r c))"
  "set (cu_opts c) \<subseteq> set (cu_opts (applyCurlHeaders x h r c))"
  "set (cu_opts c) \<subseteq> set (cu_opts (applyConnection x h c))"
  "set (cu_opts c) \<subseteq> set (cu_opts (applyCurlKerberos x h c))"
  by (auto simp: applyCurlBody_def applyCurlTls_def applyCurlTimeout_def applyCurlHeaders_def
      applyConnection_def applyCurlKerberos_def Let_def split: if_splits option.splits)

text \<open>
  C18. The path, query and fragment of the target go to the server byte for byte as they are written in
  the URL, with a slash put in front only when the URL has no path: nothing is normalised or
  percent-encoded.  The method is sent as it is, and redirects are not followed.
\<close>

theorem request_target_verbatim:
  assumes "CHR '':'' \<notin> set scheme" and "\<forall>c \<in> set authority. c \<notin> {CHR ''/'', CHR ''?'', CHR ''#''}"
    and "rest = [] \<or> hd rest \<in> {CHR ''/'', CHR ''?'', CHR ''#''}"
    and "rq_url r = scheme @ ''://'' @ authority @ rest"
  shows "let target = (if rest \<noteq> [] \<and> hd rest = CHR ''/'' then rest else CHR ''/'' # rest) in
    buildRawPath (rq_url r) = target \<and>
    (''REQUEST_TARGET'', CStr target) \<in> set (cu_opts (configureCurl env x r)) \<and>
    (''CUSTOMREQUEST'', CStr (rq_method r)) \<in> set (cu_opts (configureCurl env x r)) \<and>
    (''FOLLOWLOCATION'', CBool False) \<in> set (cu_opts (configureCurl env x r))"
proof -
  define target where "target = (if rest \<noteq> [] \<and> hd rest = CHR ''/'' then rest else CHR ''/'' # rest)"
  have d: "dropWhile (\<lambda>c. c \<notin> {CHR ''/'', CHR ''?'', CHR ''#''}) (authority @ rest) = rest"
    using assms(2,3) by (cases rest) (auto simp: dropWhile_append2)
  have "buildRawPath (rq_url r) =
      (case rest of [] \<Rightarrow> ''/'' | c # cs \<Rightarrow> if c = CHR ''/'' then rest else CHR ''/'' # rest)"
    unfolding buildRawPath_def assms(4) cut_at_colon [OF assms(1)] option.case prod.case Let_def d ..
  then have path: "buildRawPath (rq_url r) = target"
    by (cases rest) (simp_all add: target_def)
  show ?thesis
    unfolding Let_def target_def [symmetric] path
    using applyCurl_keeps by (auto simp: configureCurl_def configureTransfer_def Let_def path intro!: subsetD [OF applyCurl_keeps(6)]
        subsetD [OF applyCurl_keeps(5)] subsetD [OF applyCurl_keeps(4)] subsetD [OF applyCurl_keeps(3)]
        subsetD [OF applyCurl_keeps(2)] subsetD [OF applyCurl_keeps(1)])
qed

theorem request_target_verbatim_witness:
  "buildRawPath ''https://a.b:8/x%2F/../y?q=<#f'' = ''/x%2F/../y?q=<#f''"
proof -
  let ?r = "sample_request\<lparr>rq_url := ''https://a.b:8/x%2F/../y?q=<#f''\<rparr>"
  have "rq_url ?r = ''https'' @ ''://'' @ ''a.b:8'' @ ''/x%2F/../y?q=<#f''" by simp
  from request_target_verbatim [OF _ _ _ this, of undefined undefined] show ?thesis
    by (simp add: Let_def)
qed

text \<open>
  C16. A request goes through the configured proxy exactly when its host matches one of the proxy
  domains, if there are any, and none of the bypass domains; otherwise it is sent directly.
\<close>

theorem proxy_chosen_by_domain:
  assumes "new_executor opts = Inr x"
  shows "resolveProxy x h =
    (if (\<forall>ds. xo_proxyDomains opts = Some ds \<longrightarrow> (\<exists>d \<in> set ds. wild d h)) \<and>
        (\<forall>ds. xo_proxyDomainsBypass opts = Some ds \<longrightarrow> (\<forall>d \<in> set ds. \<not> wild d h))
     then xo_proxyUrl opts else None)"
  using new_executor_Inr [OF assms]
  by (cases "xo_proxyDomains opts"; cases "xo_proxyDomainsBypass opts")
    (simp_all add: resolveProxy_def list_ex_wild)

definition sample_executor_options :: executor_options where
  "sample_executor_options = \<lparr>xo_timeout = Some 30000, xo_proxyUrl = Some ''http://p:3128'', xo_headers = None,
     xo_certs = None, xo_whitelistMimes = None, xo_maxBodySize = None, xo_maxContentLength = Some 100,
     xo_reuseConnection = False, xo_proxyDomains = Some [''*.b''], xo_proxyDomainsBypass = None,
     xo_kerberos = Some \<lparr>kb_enabled = True, kb_domains = Some [''k''], kb_credentials = Some ''u:p'', kb_delegation = None\<rparr>\<rparr>"

lemma sample_executor: "\<exists>x. new_executor sample_executor_options = Inr x"
  by (simp add: new_executor_def sample_executor_options_def)

theorem proxy_chosen_by_domain_witness:
  "\<exists>x. new_executor sample_executor_options = Inr x \<and> resolveProxy x ''a.b'' = Some ''http://p:3128'' \<and>
     resolveProxy x ''c'' = None"
proof -
  obtain x where x: "new_executor sample_executor_options = Inr x" using sample_executor by blast
  have "wild ''*.b'' ''a.b''"
    using host_re.test_suffix_domain [of "''.b''" "''a''"]
    by (simp add: host_re.test_compile star_def is_newline_def code_def)
  moreover have "\<not> wild ''*.b'' ''c''"
  proof -
    have "\<not> re_test (wildcardToRegExp ''*.b'') ''c''" by code_simp
    then show ?thesis by (simp add: host_re.test_compile)
  qed
  ultimately show ?thesis
    using proxy_chosen_by_domain [OF x, of "''a.b''"] proxy_chosen_by_domain [OF x, of "''c''"] x
    by (auto simp: sample_executor_options_def)
qed

lemma configureTransfer_auth:
  "(''HTTPAUTH'', v) \<notin> set (cu_opts (configureTransfer env x r))"
  "(''USERPWD'', v) \<in> set (cu_opts (configureTransfer env x r)) \<Longrightarrow>
     \<exists>a. lu_auth (en_legacy env (rq_url r)) = Some a \<and> v = CStr a"
  by (auto simp: configureTransfer_def Let_def dest!: applyCurl_names split: if_splits)
    (cases "lu_auth (en_legacy env (rq_url r))"; simp)+

lemma configureCurl_auth:
  assumes "n \<in> {''HTTPAUTH'', ''USERPWD''}"
  shows "(n, v) \<in> set (cu_opts (configureCurl env x r)) \<longleftrightarrow>
    (n, v) \<in> set (cu_opts (applyCurlKerberos x (lu_hostname (en_legacy env (rq_url r))) (configureTransfer env x r)))"
  using assms by (auto simp: configureCurl_def Let_def)

text \<open>
  C17. Kerberos authentication is switched on for a request exactly when it is enabled and its host
  matches one of the Kerberos domains, if any are configured.  For every other host no negotiation
  takes place and the only credentials sent are those written in the URL: the Kerberos credentials
  never reach a host outside the domains.
\<close>

theorem kerberos_only_for_domains:
  assumes "new_executor opts = Inr x"
  shows "let h = lu_hostname (en_legacy env (rq_url r)); os = set (cu_opts (configureCurl env x r));
      on = (kerberos_enabled opts \<and> (\<forall>ds. kb_domains (the (xo_kerberos opts)) = Some ds \<longrightarrow> (\<exists>d \<in> set ds. wild d h)))
    in ((\<exists>v. (''HTTPAUTH'', v) \<in> os) \<longleftrightarrow> on) \<and>
       (\<not> on \<longrightarrow> (\<forall>v. (''USERPWD'', v) \<in> os \<longrightarrow> (\<exists>a. lu_auth (en_legacy env (rq_url r)) = Some a \<and> v = CStr a)))"
proof -
  let ?h = "lu_hostname (en_legacy env (rq_url r))"
  define on where "on = (kerberos_enabled opts \<and>
    (\<forall>ds. kb_domains (the (xo_kerberos opts)) = Some ds \<longrightarrow> (\<exists>d \<in> set ds. wild d ?h)))"
  have k: "shouldApplyKerberos x ?h \<longleftrightarrow> on"
    using new_executor_Inr [OF assms]
    by (cases "kb_domains (the (xo_kerberos opts))") (auto simp: shouldApplyKerberos_def on_def list_ex_wild)
  have "(\<exists>v. (''HTTPAUTH'', v) \<in> set (cu_opts (configureCurl env x r))) \<longleftrightarrow> on"
    by (simp add: configureCurl_auth applyCurlKerberos_def k Let_def configureTransfer_auth(1))
  moreover have "\<forall>v. (''USERPWD'', v) \<in> set (cu_opts (configureCurl env x r)) \<longrightarrow>
      (\<exists>a. lu_auth (en_legacy env (rq_url r)) = Some a \<and> v = CStr a)" if "\<not> on"
    using that configureTransfer_auth(2) by (simp add: configureCurl_auth applyCurlKerberos_def k)
  ultimately show ?thesis unfolding Let_def on_def by blast
qed

definition sample_env :: exec_env where
  "sample_env = \<lparr>en_url = any_url,
     en_legacy = (\<lambda>u. \<lparr>lu_protocol = ''https:'', lu_host = ''a.b'', lu_hostname = ''a.b'', lu_auth = None\<rparr>),
     en_regexp = (\<lambda>_. True), en_bytes = id, en_text = id, en_encode = (\<lambda>b _. b), en_decode = (\<lambda>b _. b),
     en_encodingExists = (\<lambda>_. True), en_contentType = (\<lambda>t. (t, None)), en_read = (\<lambda>p. Some p),
     en_passphrase = (\<lambda>_ _. True)\<rparr>"

theorem kerberos_only_for_domains_witness:
  "\<exists>x. new_executor sample_executor_options = Inr x \<and>
     \<not> (\<exists>v. (''HTTPAUTH'', v) \<in> set (cu_opts (configureCurl sample_env x sample_request)))"
proof -
  obtain x where x: "new_executor sample_executor_options = Inr x" using sample_executor by blast
  have n: "\<not> wild ''k'' ''a.b''"
  proof -
    have "\<not> re_test (wildcardToRegExp ''k'') ''a.b''" by code_simp
    then show ?thesis by (simp add: host_re.test_compile)
  qed
  have "kb_domains (the (xo_kerberos sample_executor_options)) = Some [''k'']"
    "lu_hostname (en_legacy sample_env (rq_url sample_request)) = ''a.b''"
    by (simp_all add: sample_executor_options_def sample_env_def)
  with kerberos_only_for_domains [OF x, of sample_env sample_request] n x show ?thesis
    by (auto simp: Let_def)
qed


section \<open>Limiting the response\<close>

lemma prefix_subarray0: "prefix (subarray0 n b) b"
  by (simp add: subarray0_def take_is_prefix)

text \<open>
  C19. A response body is passed on whole or cut to a prefix within the limit that applies to its
  type, or left out altogether, which happens only for a type listed as not to be cut.  The length
  header always tells the number of bytes kept, and a body decompressed by libcurl is not announced as
  encoded.
\<close>

theorem response_within_limit:
  assumes "truncate_raw env x r rawBody hs = (body, hs', tr)"
    and "max_size x r (find_mime x (fst (parseContentType env hs))) = Some m" and "0 \<le> m"
  shows "prefix body rawBody \<and> int (length body) \<le> m \<and>
    (tr = None \<longleftrightarrow> int (length rawBody) \<le> m) \<and> (tr = None \<longrightarrow> body = rawBody) \<and>
    (tr = Some Truncated \<longrightarrow> int (length body) = m) \<and>
    (tr = Some Omitted \<longrightarrow> body = [] \<and>
       (\<exists>w. find_mime x (fst (parseContentType env hs)) = Some w \<and> wm_allowTruncation w \<noteq> Some True)) \<and>
    sget hs' ''content-length'' = Some (One (nat_str (length body))) \<and>
    (rq_decompress r \<longrightarrow> sget hs' ''content-encoding'' = None)"
proof (cases "int (length rawBody) > m")
  case True
  let ?mime = "find_mime x (fst (parseContentType env hs))"
  let ?allow = "case ?mime of None \<Rightarrow> True | Some w \<Rightarrow> wm_allowTruncation w = Some True"
  from assms True have b: "body = fst (truncateBody rawBody m ?allow)"
    and t: "tr = Some (snd (truncateBody rawBody m ?allow))"
    and h: "hs' = sset ''content-length'' (One (nat_str (length body)))
      (if rq_decompress r then sdel ''content-encoding'' hs else hs)"
    by (cases "truncateBody rawBody m ?allow"; auto simp: truncate_raw_def Let_def split: prod.splits)+
  show ?thesis
  proof (cases ?allow)
    case allow: True
    with b t have "body = take (nat m) rawBody" "tr = Some Truncated"
      using assms(3) by (simp_all add: truncateBody_def subarray0_def)
    with True assms(3) h show ?thesis by (auto simp: take_is_prefix)
  next
    case omit: False
    with b t have "body = []" "tr = Some Omitted" by (simp_all add: truncateBody_def)
    with True assms(3) h omit show ?thesis by (auto split: option.splits)
  qed
next
  case False
  with assms have "body = rawBody" "tr = None"
    "hs' = sset ''content-length'' (One (nat_str (length body)))
      (if rq_decompress r then sdel ''content-encoding'' hs else hs)"
    by (auto simp: truncate_raw_def Let_def split: prod.splits)
  with False show ?thesis by auto
qed

theorem response_within_limit_witness:
  "\<exists>x. new_executor (sample_executor_options\<lparr>xo_maxContentLength := Some 0\<rparr>) = Inr x \<and>
     (\<exists>body hs tr. truncate_raw sample_env x (sample_request\<lparr>rq_maxContentSize := None\<rparr>) ''abc'' [] = (body, hs, tr) \<and>
        body = [] \<and> tr = Some Truncated \<and> sget hs ''content-length'' = Some (One (nat_str 0)))"
proof -
  let ?o = "sample_executor_options\<lparr>xo_maxContentLength := Some 0\<rparr>"
  let ?r = "sample_request\<lparr>rq_maxContentSize := None\<rparr>"
  have "\<exists>x. new_executor ?o = Inr x"
    by (simp add: new_executor_def sample_executor_options_def)
  then obtain x where x: "new_executor ?o = Inr x" by blast
  obtain body hs tr where t: "truncate_raw sample_env x ?r ''abc'' [] = (body, hs, tr)"
    by (cases "truncate_raw sample_env x ?r ''abc'' []") auto
  have m: "max_size x ?r (find_mime x (fst (parseContentType sample_env []))) = Some 0"
    using new_executor_Inr(1) [OF x] by (simp add: max_size_def find_mime_def sample_executor_options_def)
  have "int (length ''abc'') > 0" by simp
  have f: "find_mime x (fst (parseContentType sample_env [])) = None"
    using new_executor_Inr(1) [OF x] by (simp add: find_mime_def sample_executor_options_def)
  from response_within_limit [OF t m] f have "body = []" "tr = Some Truncated"
    "sget hs ''content-length'' = Some (One (nat_str (length body)))"
    by (cases tr; cases "the tr"; auto)+
  with t x show ?thesis by auto
qed


section \<open>Attempts with client certificates\<close>

text \<open>The key of the request in the cache.\<close>

abbreviation url_key :: "url \<Rightarrow> string" where
  "url_key u \<equiv> url_hostname u @ ''_'' @ portFromURL u"

lemma cache_add_key:
  "parse (rq_url r) = Some u \<Longrightarrow>
     cache_add parse r c cache = Inr (if shas cache (url_key u) then cache else sset (url_key u) c cache)"
  by (simp add: cache_add_def cert_key_def)

lemma settle_keeps:
  assumes "parse (rq_url r) = Some u" and "sget cache k = Some d"
  shows "sget (snd (settle parse r as cache)) k = Some d"
  using assms(2)
proof (induction as arbitrary: cache)
  case (Cons a as)
  obtain c res where a: "a = (c, res)" by (cases a)
  have "sget (if shas cache (url_key u) then cache else sset (url_key u) c cache) k = Some d"
    using Cons.prems by auto
  from Cons.IH [OF this] Cons.IH [OF Cons.prems] show ?case
    unfolding a by (cases res) (simp_all add: cache_add_key [of parse, OF assms(1)])
qed simp

lemma settle_inv:
  assumes "parse (rq_url r) = Some u" and "CHR ''_'' \<notin> set (url_port u)"
    and "\<forall>(c, res) \<in> set as. serves c (url_hostname u) (portFromURL u)" and "cache_inv cache"
  shows "cache_inv (snd (settle parse r as cache))"
  using assms(3,4)
proof (induction as arbitrary: cache)
  case (Cons a as)
  obtain c res where a: "a = (c, res)" by (cases a)
  have "serves c (url_hostname u) (portFromURL u)" using Cons.prems(1) a by simp
  with cache_inv_put [OF Cons.prems(2) _ portFromURL_plain [OF assms(2)]] Cons.prems(2)
  have "cache_inv (if shas cache (url_key u) then cache else sset (url_key u) c cache)" by simp
  with Cons.IH Cons.prems show ?case
    unfolding a by (cases res) (simp_all add: cache_add_key [of parse, OF assms(1)])
qed simp

lemma settle_winner:
  assumes "parse (rq_url r) = Some u" and "settle parse r as cache = (w, cache')"
  shows "case w of
     None \<Rightarrow> (\<forall>(c, res) \<in> set as. isl res) \<and> cache' = cache
   | Some resp \<Rightarrow> \<exists>pre c post. as = pre @ (c, Inr resp) # post \<and> (\<forall>(d, res) \<in> set pre. isl res) \<and>
       sget cache' (url_key u) = Some (case sget cache (url_key u) of None \<Rightarrow> c | Some d \<Rightarrow> d)"
  using assms(2)
proof (induction as arbitrary: w)
  case (Cons a as)
  obtain c res where a: "a = (c, res)" by (cases a)
  show ?case
  proof (cases res)
    case (Inl e)
    with Cons.prems a have "settle parse r as cache = (w, cache')" by simp
    note IH = Cons.IH [OF this]
    show ?thesis
    proof (cases w)
      case None
      with IH a Inl show ?thesis by simp
    next
      case (Some resp)
      with IH obtain pre d post where "as = pre @ (d, Inr resp) # post" "\<forall>(d, res) \<in> set pre. isl res"
        "sget cache' (url_key u) = Some (case sget cache (url_key u) of None \<Rightarrow> d | Some d \<Rightarrow> d)" by auto
      with a Inl Some show ?thesis by (auto intro!: exI [of _ "a # pre"])
    qed
  next
    case (Inr resp)
    let ?c1 = "if shas cache (url_key u) then cache else sset (url_key u) c cache"
    from Inr Cons.prems a have w: "w = Some resp" "cache' = snd (settle parse r as ?c1)"
      by (simp_all add: cache_add_key [of parse, OF assms(1)])
    have "sget ?c1 (url_key u) = Some (case sget cache (url_key u) of None \<Rightarrow> c | Some d \<Rightarrow> d)"
      by (auto split: option.splits)
    from settle_keeps [of parse, OF assms(1) this] w a Inr show ?thesis
      by (auto intro!: exI [of _ "[]"])
  qed
qed simp

lemma send_with_certs_fst: "map fst (send_with_certs env run perform x st cs r) = cs"
  by (induction cs arbitrary: r) (simp_all add: Let_def)

text \<open>
  C3. Whatever the order in which certificates are read and answers arrive, the result of trying the
  client certificates of a host is the first successful answer, the certificate remembered for the
  host and port is the one remembered before or else the one of that answer, and the cache stays sound.
  Only if every attempt fails the request fails, and then nothing is remembered.
\<close>

theorem certificate_attempts:
  assumes "parse = en_url env" and "parse (rq_url r) = Some u" and "CHR ''_'' \<notin> set (url_port u)"
    and "cache_inv cache" and "resolve_certs parse cache r registered = Inr certs"
    and "mset loads = mset certs" and "\<And>as. mset (finishes as) = mset as"
    and "tryRequestWithCertificates env run perform x st finishes r loads cache = (res, cache')"
  shows "cache_inv cache' \<and>
    (let as = finishes (send_with_certs env run perform x st loads r) in
     case res of
       Inl e \<Rightarrow> e = aggregate_error \<and> (\<forall>(c, a) \<in> set as. isl a) \<and> cache' = cache
     | Inr resp \<Rightarrow> \<exists>pre c post. as = pre @ (c, Inr resp) # post \<and> (\<forall>(d, a) \<in> set pre. isl a) \<and> c \<in> set certs \<and>
         cache_get parse r cache' = Inr (Some (case cache_get parse r cache of Inr (Some d) \<Rightarrow> d | _ \<Rightarrow> c)))"
proof -
  let ?sent = "send_with_certs env run perform x st loads r"
  let ?as = "finishes ?sent"
  have set_as: "set ?as = set ?sent" using assms(7) [of ?sent] by (metis set_mset_mset)
  have certs: "fst ` set ?as = set certs"
    using send_with_certs_fst [of env run perform x st loads r] assms(6) set_as
    by (metis list.set_map set_mset_mset)
  obtain cs where "resolve_certs parse cache r registered = Inr cs"
    "\<forall>c \<in> set cs. serves c (url_hostname u) (portFromURL u)"
    using certs_served [of cache parse, OF assms(4,2,3)] by blast
  with assms(5) certs have serve: "\<forall>(c, a) \<in> set ?as. serves c (url_hostname u) (portFromURL u)" by force
  obtain w where w: "settle parse r ?as cache = (w, cache')"
    and res: "res = (case w of None \<Rightarrow> Inl aggregate_error | Some resp \<Rightarrow> Inr resp)"
    using assms(1,8) by (auto simp: tryRequestWithCertificates_def Let_def split: prod.splits)
  have get: "cache_get parse r c = Inr (sget c (url_key u))" for c
    using assms(2) by (simp add: cache_get_def cert_key_def)
  have inv: "cache_inv cache'" using settle_inv [of parse, OF assms(2,3) serve assms(4)] w by simp
  note won = settle_winner [of parse, OF assms(2) w]
  show ?thesis
  proof (cases w)
    case None
    with won res inv show ?thesis by (simp add: Let_def)
  next
    case (Some resp)
    with won obtain pre c post where as: "?as = pre @ (c, Inr resp) # post" "\<forall>(d, a) \<in> set pre. isl a"
      and cached: "sget cache' (url_key u) = Some (case sget cache (url_key u) of None \<Rightarrow> c | Some d \<Rightarrow> d)"
      by auto
    have "c \<in> fst ` set ?as" unfolding as(1) by simp
    with certs have "c \<in> set certs" by simp
    moreover have "cache_get parse r cache' =
        Inr (Some (case cache_get parse r cache of Inr (Some d) \<Rightarrow> d | _ \<Rightarrow> c))"
      using cached by (cases "sget cache (url_key u)") (simp_all add: get)
    ultimately show ?thesis
      using as inv res Some unfolding Let_def by (simp only: option.case sum.case) blast
  qed
qed

definition sample_cert :: cert where
  "sample_cert = \<lparr>cert_path = ''c.pfx'', cert_hostname = ''a.b'', cert_passphrase = None, cert_port = None\<rparr>"

theorem certificate_attempts_witness:
  "\<exists>res cache'. tryRequestWithCertificates sample_env (\<lambda>_. Inl (mk_error ''none'')) (\<lambda>_. Inl (mk_error ''reset''))
       undefined [] id sample_request [sample_cert] [] = (res, cache') \<and> cache_inv cache'"
proof -
  let ?u = "\<lparr>url_protocol = ''https:'', url_host = ''a.b'', url_hostname = ''a.b'', url_port = []\<rparr>"
  obtain res cache' where t: "tryRequestWithCertificates sample_env (\<lambda>_. Inl (mk_error ''none''))
      (\<lambda>_. Inl (mk_error ''reset'')) undefined [] id sample_request [sample_cert] [] = (res, cache')"
    by fastforce
  have e: "any_url = en_url sample_env" by (simp add: sample_env_def)
  have u: "any_url (rq_url sample_request) = Some ?u" by (simp add: any_url_def)
  have p: "CHR ''_'' \<notin> set (url_port ?u)" and i: "cache_inv []" by (simp_all add: cache_inv_def)
  have r: "resolve_certs any_url [] sample_request [sample_cert] = Inr [sample_cert]"
    by (simp add: resolve_certs_def cache_get_def cert_key_def any_url_def matchHostnameAndPort_serves
        serves_def sample_cert_def)
  from certificate_attempts [OF e u p i r, of "[sample_cert]" id, OF refl _ t] t show ?thesis by auto
qed

text \<open>
  The attempts are not independent of each other: an authority file loaded for one certificate
  stays on the request, so the attempt with the next certificate is sent with both, while alone it
  would be sent without.
\<close>

theorem certificate_attempts_share_request:
  assumes "extname (cert_path a) = ''.crt''" and "extname (cert_path b) = ''.pfx''"
  shows "let E = executeRequest env run perform x st;
      with_b = (\<lambda>q. q\<lparr>rq_pfx := en_read env (cert_path b), rq_passphrase := cert_passphrase b\<rparr>) in
    map snd (send_with_certs env run perform x st [a, b] r) =
      [E (r\<lparr>rq_ca := en_read env (cert_path a)\<rparr>), E (with_b (r\<lparr>rq_ca := en_read env (cert_path a)\<rparr>))] \<and>
    map snd (send_with_certs env run perform x st [b] r) = [E (with_b r)]"
  using assms by (simp add: loadCert_def Let_def)

theorem certificate_attempts_share_request_witness:
  "map snd (send_with_certs sample_env (\<lambda>_. Inl (mk_error ''none'')) (\<lambda>_. Inl (mk_error ''reset'')) undefined []
       [sample_cert\<lparr>cert_path := ''a.crt''\<rparr>, sample_cert] sample_request) =
   [executeRequest sample_env (\<lambda>_. Inl (mk_error ''none'')) (\<lambda>_. Inl (mk_error ''reset'')) undefined []
      (sample_request\<lparr>rq_ca := Some ''a.crt''\<rparr>),
    executeRequest sample_env (\<lambda>_. Inl (mk_error ''none'')) (\<lambda>_. Inl (mk_error ''reset'')) undefined []
      (sample_request\<lparr>rq_ca := Some ''a.crt'', rq_pfx := Some ''c.pfx'', rq_passphrase := None\<rparr>)]"
proof -
  have a: "extname (cert_path (sample_cert\<lparr>cert_path := ''a.crt''\<rparr>)) = ''.crt''"
    and b: "extname (cert_path sample_cert) = ''.pfx''"
    by (simp_all add: extname_def basename_def strip_slashes_def sample_cert_def Let_def)
  have "en_read sample_env = Some" by (simp add: sample_env_def)
  with certificate_attempts_share_request [OF a b, of sample_env "\<lambda>_. Inl (mk_error ''none'')"
      "\<lambda>_. Inl (mk_error ''reset'')" undefined "[]" sample_request] show ?thesis
    by (simp add: Let_def sample_cert_def)
qed

end
