(* ===== verification/Repeater.thy ===== *)
theory Repeater
  imports Http_Executor Complex_Main
begin

text \<open>
  The repeater: the connection to the cloud (\<open>src/Repeater/DefaultRepeaterServer.ts\<close>), the launcher that
  reacts to its events (\<open>ServerRepeaterLauncher.ts\<close>) and the command hub
  (\<open>DefaultRepeaterCommandHub.ts\<close>) as one state machine over the events of the socket and of the
  reconnection timer.  Handlers run to completion within the event; what they do to the outside is
  recorded in order.
\<close>

datatype error_code =
  REPEATER_NOT_PERMITTED | REPEATER_ALREADY_STARTED | REPEATER_DEACTIVATED | REPEATER_UNAUTHORIZED
| REPEATER_NO_LONGER_SUPPORTED | UNKNOWN_ERROR | UNEXPECTED_ERROR

record error_event =
  ee_message :: string
  ee_code :: error_code
  ee_remediation :: "string option"

datatype effect =
  Log string
| Open_Socket string
| Socket_Connect
| Emit_Deploy "string option"
| Run_Service
| Signal string
| Service_Stop
| Uncaught js_error

text \<open>
  \<open>rp_socket\<close> is whether \<open>_socket\<close> is defined, \<open>rp_listening\<close> whether the launcher's listeners are
  registered, \<open>rp_timer\<close> the delay of the pending timer that \<open>connectionTimer\<close> refers to, \<open>rp_strays\<close> the
  pending timers it no longer refers to, \<open>rp_deploys\<close> the number of calls of \<open>deploy\<close> waiting for their
  confirmation.
\<close>

record repeater =
  rp_running :: bool
  rp_id :: "string option"
  rp_exitCode :: "nat option"
  rp_socket :: bool
  rp_listening :: bool
  rp_timer :: "real option"
  rp_strays :: "real list"
  rp_attempts :: nat
  rp_latestError :: "js_error option"
  rp_scripts :: scripts
  rp_options :: executor_options
  rp_deploys :: nat
  rp_effects :: "effect list"

definition perform_effect :: "effect \<Rightarrow> repeater \<Rightarrow> repeater" where
  "perform_effect e s = s\<lparr>rp_effects := rp_effects s @ [e]\<rparr>"

definition logs :: "string \<Rightarrow> repeater \<Rightarrow> repeater" where
  "logs m = perform_effect (Log m)"

definition no_socket :: js_error where
  "no_socket = mk_error ''Please make sure that repeater established a connection with host.''"

text \<open>Using the getter \<open>socket\<close> outside a handler: an exception there is not caught.\<close>

definition with_socket :: "(repeater \<Rightarrow> repeater) \<Rightarrow> repeater \<Rightarrow> repeater" where
  "with_socket f s = (if rp_socket s then f s else perform_effect (Uncaught no_socket) s)"


section \<open>The connection\<close>

definition MIN_RECONNECTION_DELAY :: real where
  "MIN_RECONNECTION_DELAY = 5000"

definition MAX_RECONNECTION_DELAY :: real where
  "MAX_RECONNECTION_DELAY = 1000"

definition reconnection_delay :: "nat \<Rightarrow> real \<Rightarrow> real" where
  "reconnection_delay connectionAttempts random =
     (let delay = max (MIN_RECONNECTION_DELAY * 2 ^ connectionAttempts) MIN_RECONNECTION_DELAY;
          delay' = delay + delay * (3 / 10) * random
      in min delay' MAX_RECONNECTION_DELAY)"

definition disconnect :: "repeater \<Rightarrow> repeater" where
  "disconnect s = s\<lparr>rp_listening := False, rp_timer := None, rp_socket := False\<rparr>"

definition close :: "repeater \<Rightarrow> repeater" where
  "close s = disconnect (s\<lparr>rp_running := False\<rparr>)"

text \<open>
  A signal, or the service manager that ends the daemon: the connection is closed and the process ends with
  code 0, whatever was set before.
\<close>

definition shut_down :: "effect \<Rightarrow> repeater \<Rightarrow> repeater" where
  "shut_down cause s = (close (perform_effect cause s))\<lparr>rp_exitCode := Some 0\<rparr>"

definition suppressConnectionError :: "error_code \<Rightarrow> bool" where
  "suppressConnectionError c \<longleftrightarrow> c \<in> {REPEATER_UNAUTHORIZED, REPEATER_NOT_PERMITTED}"


section \<open>The launcher's handlers\<close>

definition normalizeMessage :: "string \<Rightarrow> string" where
  "normalizeMessage m = (if m \<noteq> [] \<and> last m = CHR ''.'' then butlast m else m)"

definition isCriticalError :: "error_code \<Rightarrow> bool" where
  "isCriticalError c \<longleftrightarrow>
     c \<in> {REPEATER_DEACTIVATED, REPEATER_NO_LONGER_SUPPORTED, REPEATER_UNAUTHORIZED,
          REPEATER_ALREADY_STARTED, REPEATER_NOT_PERMITTED, UNEXPECTED_ERROR}"

definition handleCriticalError :: "string \<Rightarrow> string \<Rightarrow> repeater \<Rightarrow> repeater" where
  "handleCriticalError m remediation s =
     (close (logs (''(!) CRITICAL: '' @ m @ ''. '' @ remediation) s))\<lparr>rp_exitCode := Some 1\<rparr>"

definition handle_error :: "error_event \<Rightarrow> repeater \<Rightarrow> repeater" where
  "handle_error e s =
     (let m = normalizeMessage (ee_message e);
          r = normalizeMessage (case ee_remediation e of None \<Rightarrow> [] | Some x \<Rightarrow> x)
      in if isCriticalError (ee_code e) then handleCriticalError m r s else logs m s)"

definition reconnectionFailed :: "js_error option \<Rightarrow> repeater \<Rightarrow> repeater" where
  "reconnectionFailed e s =
     (close (logs (case e of None \<Rightarrow> ''undefined'' | Some x \<Rightarrow> err_message x) s))\<lparr>rp_exitCode := Some 1\<rparr>"

definition limitsReceived :: "int \<Rightarrow> repeater \<Rightarrow> repeater" where
  "limitsReceived n s = s\<lparr>rp_options := (rp_options s)\<lparr>xo_maxBodySize := Some n\<rparr>\<rparr>"

definition deployRepeater :: "repeater \<Rightarrow> repeater" where
  "deployRepeater s = perform_effect (Emit_Deploy (rp_id s)) (s\<lparr>rp_deploys := Suc (rp_deploys s)\<rparr>)"

text \<open>\<open>emit\<close>: nothing happens without listeners, except that an unhandled \<open>error\<close> event throws.\<close>

definition notify :: "(repeater \<Rightarrow> repeater) \<Rightarrow> repeater \<Rightarrow> repeater" where
  "notify h s = (if rp_listening s then h s else s)"

definition notify_error :: "error_event \<Rightarrow> repeater \<Rightarrow> repeater" where
  "notify_error e s =
     (if rp_listening s then handle_error e s
      else perform_effect (Uncaught (mk_error (''Unhandled error. '' @ ee_message e))) s)"

definition reconnect_attempt :: "nat \<Rightarrow> repeater \<Rightarrow> repeater" where
  "reconnect_attempt n = notify (logs (''Failed to connect to Bright cloud (attempt '' @ nat_str n @ '')''))"

definition scheduleReconnection :: "real \<Rightarrow> repeater \<Rightarrow> repeater" where
  "scheduleReconnection random s =
     (let delay = reconnection_delay (rp_attempts s) random;
          s1 = s\<lparr>rp_attempts := Suc (rp_attempts s)\<rparr>;
          s2 = reconnect_attempt (rp_attempts s1) s1
      in s2\<lparr>rp_strays := (case rp_timer s2 of None \<Rightarrow> [] | Some d \<Rightarrow> [d]) @ rp_strays s2, rp_timer := Some delay\<rparr>)"

definition handleConnectionError :: "real \<Rightarrow> string \<Rightarrow> error_event option \<Rightarrow> repeater \<Rightarrow> repeater" where
  "handleConnectionError random message data s =
     scheduleReconnection random
       (case data of
          None \<Rightarrow> s
        | Some d \<Rightarrow>
            if suppressConnectionError (ee_code d) then notify_error (d\<lparr>ee_message := message\<rparr>) s else s)"

definition handleConnect :: "repeater \<Rightarrow> repeater" where
  "handleConnect s = notify deployRepeater (s\<lparr>rp_attempts := 0, rp_timer := None\<rparr>)"

definition handleDisconnect :: "string \<Rightarrow> repeater \<Rightarrow> repeater" where
  "handleDisconnect reason s =
     (if reason = ''io server disconnect'' then with_socket (perform_effect Socket_Connect) s else s)"


section \<open>Handlers with an answer\<close>

text \<open>
  \<open>wrapEventListener\<close>: the outcome of the handler goes to the callback, if the last argument is one; an
  exception is logged and the callback is not called.
\<close>

definition wrapEventListener :: "bool \<Rightarrow> 'r js_result \<Rightarrow> 'r option \<times> string list" where
  "wrapEventListener has_callback outcome =
     (case outcome of
        Inl e \<Rightarrow> (None, [err_message e])
      | Inr r \<Rightarrow> (if has_callback then Some r else None, []))"

definition protocol_name :: "protocol \<Rightarrow> string" where
  "protocol_name p = (case p of HTTP \<Rightarrow> ''http'' | WS \<Rightarrow> ''ws'')"

text \<open>The answer of an executor is of any type: a response, or what stands for one that is still awaited.\<close>

definition sendRequest :: "(protocol \<times> (http_request \<Rightarrow> 'r)) list \<Rightarrow> http_request \<Rightarrow> 'r js_result" where
  "sendRequest requestExecutors r =
     (case find (\<lambda>x. fst x = rq_protocol r) requestExecutors of
        None \<Rightarrow> Inl (mk_error (''Unsupported protocol \"'' @ protocol_name (rq_protocol r) @ ''\"''))
      | Some x \<Rightarrow> Inr (snd x r))"

record request_event =
  qe_protocol :: protocol
  qe_url :: string
  qe_method :: "string option"
  qe_headers :: "headers option"
  qe_correlationIdRegex :: "string option"
  qe_body :: "string option"
  qe_encoding :: "string option"
  qe_maxContentSize :: "int option"
  qe_timeout :: "nat option"

record request_reply =
  qr_protocol :: protocol
  qr_body :: "string option"
  qr_headers :: "headers option"
  qr_statusCode :: "nat option"
  qr_errorCode :: "string option"
  qr_message :: "string option"
  qr_encoding :: "string option"
  qr_ttfb :: "nat option"

text \<open>The options of \<open>new Request({ ...event })\<close>: what the event does not have is undefined.\<close>

definition event_options :: "request_event \<Rightarrow> request_options" where
  "event_options event =
     \<lparr>opt_protocol = qe_protocol event, opt_url = qe_url event, opt_headers = qe_headers event,
      opt_method = qe_method event, opt_pfx = None, opt_ca = None, opt_body = qe_body event, opt_passphrase = None,
      opt_correlationIdRegex = qe_correlationIdRegex event, opt_encoding = qe_encoding event,
      opt_maxContentSize = qe_maxContentSize event, opt_timeout = qe_timeout event, opt_decompress = None,
      opt_keepAlive = None\<rparr>"

definition reply_of :: "response \<Rightarrow> request_reply" where
  "reply_of response =
     \<lparr>qr_protocol = rs_protocol response, qr_body = rs_body response, qr_headers = rs_headers response,
      qr_statusCode = rs_statusCode response, qr_errorCode = rs_errorCode response, qr_message = rs_message response,
      qr_encoding = rs_encoding response, qr_ttfb = rs_ttfb response\<rparr>"

definition acceptRequest ::
  "url_parser \<Rightarrow> (string \<Rightarrow> bool) \<Rightarrow> (protocol \<times> (http_request \<Rightarrow> 'r)) list \<Rightarrow> request_event \<Rightarrow> 'r js_result"
where
  "acceptRequest parse regexp_ok executors event =
     bind_res (new_request parse regexp_ok (event_options event)) (sendRequest executors)"

definition requestReceived ::
  "url_parser \<Rightarrow> (string \<Rightarrow> bool) \<Rightarrow> (protocol \<times> (http_request \<Rightarrow> response)) list \<Rightarrow> request_event \<Rightarrow>
     request_reply js_result"
where
  "requestReceived parse regexp_ok executors event =
     bind_res (acceptRequest parse regexp_ok executors event) (\<lambda>response. Inr (reply_of response))"

datatype network_result = Output string | Network_Error string

definition testingNetwork :: "string js_result \<Rightarrow> network_result" where
  "testingNetwork outcome = (case outcome of Inr out \<Rightarrow> Output out | Inl e \<Rightarrow> Network_Error (err_message e))"

text \<open>\<open>processOutput\<close> drops the lines a terminal control sequence retypes and the echoed question.\<close>

definition retype :: string where
  "retype = [CHR 0x1B] @ ''[1G''"

definition processOutput :: "string \<Rightarrow> string list \<Rightarrow> string" where
  "processOutput urls_question inp =
     join [CHR 0x0A] (filter (\<lambda>x. \<not> startsWith x urls_question)
       (map snd (filter (\<lambda>(i, el). \<not> (endsWith el retype \<or> (Suc i < length inp \<and> inp ! Suc i = retype)))
          (zip [0 ..< length inp] inp))))"


section \<open>Running\<close>

definition run :: "string \<Rightarrow> string \<Rightarrow> bool \<Rightarrow> repeater \<Rightarrow> repeater" where
  "run version repeaterId asDaemon s =
     (if rp_running s then s
      else
        let s0 = s\<lparr>rp_running := True\<rparr>;
            s1 = logs (''Starting the Repeater ('' @ version @ '')...'')
                   (if asDaemon then perform_effect Run_Service s0 else s0);
            s2 = s1\<lparr>rp_id := Some repeaterId, rp_listening := True, rp_socket := True\<rparr>
        in perform_effect (Open_Socket repeaterId) s2)"

record runtime =
  rt_version :: string
  rt_scriptsLoaded :: bool
  rt_localScriptsLoaded :: bool
  rt_ci :: "string option"
  rt_os :: string
  rt_arch :: string
  rt_docker :: bool
  rt_distribution :: "string option"
  rt_nodeVersion :: string

definition getRuntime :: "runtime \<Rightarrow> repeater \<Rightarrow> runtime" where
  "getRuntime detected s =
     detected\<lparr>rt_scriptsLoaded := scripts_size (rp_scripts s) \<noteq> 0,
              rt_localScriptsLoaded := count_scripts LOCAL (rp_scripts s) \<noteq> 0\<rparr>"

datatype socket_event =
  Connect
| Connect_Error string "error_event option"
| Disconnect string
| Reconnect
| Reconnect_Error js_error
| Reconnect_Failed
| Reconnect_Attempt nat
| Server_Error error_event
| Update_Available string
| Scripts_Updated script_input
| Limits int
| Deployed string

text \<open>
  The handlers registered on the socket and on its manager; \<open>version\<close> and \<open>compile\<close> are what they use.
  An \<open>error\<close> event also rejects the promises of \<open>once\<close> that \<open>deploy\<close> waits for.
\<close>

fun on_event :: "string \<Rightarrow> compiler \<Rightarrow> real \<Rightarrow> socket_event \<Rightarrow> repeater \<Rightarrow> repeater" where
  "on_event version compile random Connect s = handleConnect s"
| "on_event version compile random (Connect_Error m d) s = handleConnectionError random m d s"
| "on_event version compile random (Disconnect reason) s = handleDisconnect reason s"
| "on_event version compile random Reconnect s =
     notify (logs (''The Repeater ('' @ version @ '') connected'')) (s\<lparr>rp_latestError := None\<rparr>)"
| "on_event version compile random (Reconnect_Error e) s = s\<lparr>rp_latestError := Some e\<rparr>"
| "on_event version compile random Reconnect_Failed s = notify (reconnectionFailed (rp_latestError s)) s"
| "on_event version compile random (Reconnect_Attempt n) s = reconnect_attempt n s"
| "on_event version compile random (Server_Error e) s = (notify_error e s)\<lparr>rp_deploys := 0\<rparr>"
| "on_event version compile random (Update_Available v) s =
     notify (logs (''(!) IMPORTANT: A new Repeater version ('' @ v @ '') is available, for update instruction visit https://docs.brightsec.com/docs/cli-installation-guide'')) s"
| "on_event version compile random (Scripts_Updated inp) s =
     notify (\<lambda>s. let (r, st, ws) = compileScripts compile inp (rp_scripts s)
                 in fold logs (ws @ (case r of Inl e \<Rightarrow> [err_message e] | Inr _ \<Rightarrow> [])) (s\<lparr>rp_scripts := st\<rparr>)) s"
| "on_event version compile random (Limits n) s = notify (limitsReceived n) s"
| "on_event version compile random (Deployed i) s =
     fold logs (replicate (rp_deploys s) (''The Repeater ('' @ version @ '') started'')) (s\<lparr>rp_deploys := 0\<rparr>)"

fun manager_event :: "socket_event \<Rightarrow> bool" where
  "manager_event Reconnect = True"
| "manager_event (Reconnect_Error e) = True"
| "manager_event Reconnect_Failed = True"
| "manager_event (Reconnect_Attempt n) = True"
| "manager_event _ = False"

text \<open>
  Steps: an event of an open socket (\<open>disconnect\<close> removes the socket's listeners) or of its manager
  (whose listeners stay), a reconnection timer, whose callback uses the getter \<open>socket\<close>, a
  deployment that is not confirmed in time, which the launcher ignores, a signal, or the end of the service.
\<close>

inductive repeater_step :: "string \<Rightarrow> compiler \<Rightarrow> repeater \<Rightarrow> repeater \<Rightarrow> bool" for version compile where
  socket_event: "rp_socket s \<or> manager_event e \<Longrightarrow> 0 \<le> random \<Longrightarrow> random < 1 \<Longrightarrow>
     repeater_step version compile s (on_event version compile random e s)"
| timer_fires: "rp_timer s \<noteq> None \<Longrightarrow>
     repeater_step version compile s (with_socket (perform_effect Socket_Connect) (s\<lparr>rp_timer := None\<rparr>))"
| stray_fires: "rp_strays s = pre @ d # post \<Longrightarrow>
     repeater_step version compile s (with_socket (perform_effect Socket_Connect) (s\<lparr>rp_strays := pre @ post\<rparr>))"
| deploy_timeout: "0 < rp_deploys s \<Longrightarrow>
     repeater_step version compile s (s\<lparr>rp_deploys := rp_deploys s - 1\<rparr>)"
| signalled: "sig \<in> {''SIGTERM'', ''SIGINT'', ''SIGHUP''} \<Longrightarrow>
     repeater_step version compile s (shut_down (Signal sig) s)"
| service_stopped: "Run_Service \<in> set (rp_effects s) \<Longrightarrow>
     repeater_step version compile s (shut_down Service_Stop s)"

abbreviation repeater_reach :: "string \<Rightarrow> compiler \<Rightarrow> repeater \<Rightarrow> repeater \<Rightarrow> bool" where
  "repeater_reach version compile s0 s \<equiv> (repeater_step version compile)\<^sup>*\<^sup>* s0 s"

inductive_cases repeater_stepE: "repeater_step version compile s t"


section \<open>Invariant\<close>

lemma effect_sel [simp]:
  "rp_running (perform_effect e s) = rp_running s" "rp_exitCode (perform_effect e s) = rp_exitCode s"
  "rp_socket (perform_effect e s) = rp_socket s" "rp_listening (perform_effect e s) = rp_listening s"
  "rp_timer (perform_effect e s) = rp_timer s" "rp_strays (perform_effect e s) = rp_strays s"
  "rp_scripts (perform_effect e s) = rp_scripts s"
  "rp_effects (perform_effect e s) = rp_effects s @ [e]" "rp_deploys (perform_effect e s) = rp_deploys s"
  "rp_options (perform_effect e s) = rp_options s" "rp_attempts (perform_effect e s) = rp_attempts s"
  by (simp_all add: perform_effect_def)

lemma logs_sel [simp]:
  "rp_running (logs m s) = rp_running s" "rp_exitCode (logs m s) = rp_exitCode s"
  "rp_socket (logs m s) = rp_socket s" "rp_listening (logs m s) = rp_listening s"
  "rp_timer (logs m s) = rp_timer s" "rp_strays (logs m s) = rp_strays s" "rp_scripts (logs m s) = rp_scripts s"
  "rp_effects (logs m s) = rp_effects s @ [Log m]" "rp_deploys (logs m s) = rp_deploys s"
  "rp_options (logs m s) = rp_options s" "rp_attempts (logs m s) = rp_attempts s"
  by (simp_all add: logs_def)

lemma reconnection_delay_1000:
  assumes "0 \<le> random"
  shows "reconnection_delay n random = 1000"
proof -
  define d where "d = max (5000 * 2 ^ n) (5000::real)"
  have "5000 \<le> d" by (simp add: d_def)
  moreover from this have "0 \<le> d * (3 / 10) * random" using assms by (intro mult_nonneg_nonneg) auto
  ultimately have "1000 \<le> d + d * (3 / 10) * random" by linarith
  then show ?thesis
    unfolding reconnection_delay_def MIN_RECONNECTION_DELAY_def MAX_RECONNECTION_DELAY_def Let_def d_def
    by (rule min_absorb2)
qed

text \<open>
  The socket is open exactly while the launcher listens; once it is closed the exit code is set, to 0 only if a
  signal or the service manager ended the process;
  pending timers wait one second; an exception escapes only after the socket was closed.
\<close>

definition ended :: "effect list \<Rightarrow> bool" where
  "ended es \<longleftrightarrow> (\<exists>sig. Signal sig \<in> set es) \<or> Service_Stop \<in> set es"

lemma ended_append [simp]: "ended es \<Longrightarrow> ended (es @ fs)"
  by (auto simp: ended_def)

definition repeater_inv :: "repeater \<Rightarrow> bool" where
  "repeater_inv s \<longleftrightarrow>
     rp_listening s = rp_socket s \<and> rp_running s = rp_socket s \<and>
     (\<not> rp_socket s \<longrightarrow> rp_exitCode s \<in> {Some 0, Some 1}) \<and> (rp_exitCode s = Some 0 \<longrightarrow> ended (rp_effects s)) \<and>
     (\<forall>d. rp_timer s = Some d \<longrightarrow> d = 1000) \<and> set (rp_strays s) \<subseteq> {1000} \<and>
     (\<forall>e. Uncaught e \<in> set (rp_effects s) \<longrightarrow> \<not> rp_socket s) \<and> wf_scripts (rp_scripts s)"

lemma inv_logs: "repeater_inv s \<Longrightarrow> repeater_inv (logs m s)"
  by (simp add: repeater_inv_def)

lemma inv_fold_logs: "repeater_inv s \<Longrightarrow> repeater_inv (fold logs ms s)"
  by (induction ms arbitrary: s) (simp_all add: inv_logs)

lemma inv_closed:
  "repeater_inv s \<Longrightarrow> rp_socket s \<Longrightarrow> repeater_inv ((close (logs m s))\<lparr>rp_exitCode := Some 1\<rparr>)"
  by (simp add: repeater_inv_def close_def disconnect_def)

lemma inv_handle_error: "repeater_inv s \<Longrightarrow> rp_socket s \<Longrightarrow> repeater_inv (handle_error e s)"
  by (simp add: handle_error_def handleCriticalError_def inv_closed inv_logs Let_def del: One_nat_def)

lemma inv_notify_error: "repeater_inv s \<Longrightarrow> rp_socket s \<Longrightarrow> repeater_inv (notify_error e s)"
  by (simp add: notify_error_def inv_handle_error) (simp add: repeater_inv_def)

lemma inv_reconnect_attempt: "repeater_inv s \<Longrightarrow> repeater_inv (reconnect_attempt n s)"
  by (simp add: reconnect_attempt_def notify_def inv_logs)

lemma inv_scheduleReconnection:
  assumes "repeater_inv s" and "0 \<le> random"
  shows "repeater_inv (scheduleReconnection random s)"
proof -
  let ?s1 = "s\<lparr>rp_attempts := Suc (rp_attempts s)\<rparr>"
  have "repeater_inv ?s1" using assms(1) by (simp add: repeater_inv_def)
  then have "repeater_inv (reconnect_attempt (Suc (rp_attempts s)) ?s1)" by (rule inv_reconnect_attempt)
  then show ?thesis
    using reconnection_delay_1000 [OF assms(2)] by (auto simp: scheduleReconnection_def Let_def repeater_inv_def split: option.splits)
qed

lemma wf_compileScripts: "wf_scripts st \<Longrightarrow> wf_scripts (fst (snd (compileScripts compile inp st)))"
  using wf_clear_scripts [of st REMOTE] wf_set_all
  by (simp add: compileScripts_def Let_def split_def del: set_all.simps split: script_input.splits)

lemma inv_on_event:
  assumes "repeater_inv s" and "rp_socket s" and "0 \<le> random"
  shows "repeater_inv (on_event version compile random e s)"
proof (cases e)
  case (Connect_Error m d)
  then show ?thesis
    using assms by (auto simp: handleConnectionError_def intro!: inv_scheduleReconnection inv_notify_error split: option.splits)
next
  case (Scripts_Updated inp)
  obtain r st ws where c: "compileScripts compile inp (rp_scripts s) = (r, st, ws)"
    by (cases "compileScripts compile inp (rp_scripts s)") auto
  have "wf_scripts st"
    using wf_compileScripts [of "rp_scripts s" compile inp] assms(1) c by (simp add: repeater_inv_def)
  then have "repeater_inv (s\<lparr>rp_scripts := st\<rparr>)" using assms(1) by (simp add: repeater_inv_def)
  then show ?thesis using Scripts_Updated assms(1) c by (simp add: notify_def inv_fold_logs)
next
  case (Server_Error x)
  have "repeater_inv (notify_error x s)" using assms by (simp add: inv_notify_error)
  then show ?thesis using Server_Error by (simp add: repeater_inv_def)
next
  case Reconnect_Failed
  then show ?thesis
    using assms inv_closed by (simp add: notify_def reconnectionFailed_def del: One_nat_def)
next
  case (Reconnect_Attempt n)
  then show ?thesis using assms by (simp add: inv_reconnect_attempt)
next
  case (Deployed i)
  have "repeater_inv (s\<lparr>rp_deploys := 0\<rparr>)" using assms(1) by (simp add: repeater_inv_def)
  then show ?thesis unfolding Deployed on_event.simps by (rule inv_fold_logs)
qed (use assms in \<open>auto simp: repeater_inv_def handleConnect_def notify_def deployRepeater_def
      handleDisconnect_def with_socket_def limitsReceived_def\<close>)

lemma inv_manager_event:
  "repeater_inv s \<Longrightarrow> \<not> rp_socket s \<Longrightarrow> manager_event e \<Longrightarrow> repeater_inv (on_event version compile random e s)"
  by (cases e) (auto simp: notify_def reconnect_attempt_def repeater_inv_def)

lemma inv_socket_event:
  "repeater_inv s \<Longrightarrow> rp_socket s \<or> manager_event e \<Longrightarrow> 0 \<le> random \<Longrightarrow>
   repeater_inv (on_event version compile random e s)"
  using inv_on_event inv_manager_event by blast

lemma inv_step:
  assumes "repeater_step version compile s t" and "repeater_inv s"
  shows "repeater_inv t"
  using assms
proof (induction rule: repeater_step.induct)
  case (socket_event s e random)
  then show ?case by (intro inv_socket_event)
next
  case (signalled sig s)
  then show ?case by (auto simp: repeater_inv_def shut_down_def close_def disconnect_def ended_def)
next
  case (service_stopped s)
  then show ?case by (auto simp: repeater_inv_def shut_down_def close_def disconnect_def ended_def)
qed (auto simp: repeater_inv_def with_socket_def ended_def)

interpretation repeater_sys: step_system "repeater_step version compile" repeater_inv for version compile
  by unfold_locales (rule inv_step)

text \<open>A launcher that has not been started.\<close>

definition idle :: "repeater \<Rightarrow> bool" where
  "idle s \<longleftrightarrow> \<not> rp_running s \<and> rp_exitCode s = None \<and> rp_timer s = None \<and> rp_strays s = [] \<and> wf_scripts (rp_scripts s) \<and>
     (\<forall>e. Uncaught e \<notin> set (rp_effects s))"

lemma inv_run: "idle s \<Longrightarrow> repeater_inv (run version i daemon s)"
  by (auto simp: idle_def run_def repeater_inv_def Let_def)

lemma inv_reach:
  assumes "idle s0" and "repeater_reach version compile (run version i daemon s0) s"
  shows "repeater_inv s"
  by (rule repeater_sys.steps_inv [OF assms(2) inv_run [OF assms(1)]])


lemma sendRequest_iff:
  "sendRequest executors r = Inr resp \<longleftrightarrow>
     (\<exists>pre f post. executors = pre @ (rq_protocol r, f) # post \<and> (\<forall>(p, g) \<in> set pre. p \<noteq> rq_protocol r) \<and> resp = f r)"
proof -
  have "sendRequest executors r = Inr resp \<longleftrightarrow>
      (\<exists>x. find (\<lambda>x. fst x = rq_protocol r) executors = Some x \<and> resp = snd x r)"
    by (auto simp: sendRequest_def split: option.splits)
  also have "\<dots> \<longleftrightarrow> (\<exists>p f. find (\<lambda>x. fst x = rq_protocol r) executors = Some (p, f) \<and> resp = f r)" by simp
  also have "\<dots> \<longleftrightarrow> (\<exists>pre f post. executors = pre @ (rq_protocol r, f) # post \<and>
      (\<forall>(p, g) \<in> set pre. p \<noteq> rq_protocol r) \<and> resp = f r)"
    by (simp add: find_Some_split split_def) blast
  finally show ?thesis .
qed


section \<open>Properties\<close>


text \<open>
  The delay before a reconnection is one second for every attempt: the floor of five seconds, the
  doubling and the random share have no effect, since the ceiling is below the floor.
\<close>

theorem reconnection_delay_constant:
  assumes "0 \<le> random" and "random < 1"
  shows "reconnection_delay n random = MAX_RECONNECTION_DELAY \<and>
    MAX_RECONNECTION_DELAY < MIN_RECONNECTION_DELAY"
  using reconnection_delay_1000 [OF assms(1)] by (simp add: MAX_RECONNECTION_DELAY_def MIN_RECONNECTION_DELAY_def)


text \<open>
  A request from the cloud is answered exactly when it is well formed and there is an executor for
  its protocol, with the answer of the first such executor; in every other case nothing is answered
  and the reason is logged, and no exception escapes.
\<close>

theorem request_answered_iff:
  "wrapEventListener True (requestReceived parse ok executors event) = (Some resp, []) \<longleftrightarrow>
     (\<exists>r pre f post. new_request parse ok (event_options event) = Inr r \<and>
        executors = pre @ (rq_protocol r, f) # post \<and> (\<forall>(p, g) \<in> set pre. p \<noteq> rq_protocol r) \<and> resp = reply_of (f r))"
proof -
  have "wrapEventListener True (requestReceived parse ok executors event) = (Some resp, []) \<longleftrightarrow>
      (\<exists>r x. new_request parse ok (event_options event) = Inr r \<and> sendRequest executors r = Inr x \<and> resp = reply_of x)"
    by (auto simp: wrapEventListener_def requestReceived_def acceptRequest_def split: sum.splits)
  also have "\<dots> \<longleftrightarrow> (\<exists>r pre f post. new_request parse ok (event_options event) = Inr r \<and>
        executors = pre @ (rq_protocol r, f) # post \<and> (\<forall>(p, g) \<in> set pre. p \<noteq> rq_protocol r) \<and> resp = reply_of (f r))"
    unfolding sendRequest_iff by blast
  finally show ?thesis .
qed

definition sample_repeater :: repeater where
  "sample_repeater = \<lparr>rp_running = False, rp_id = None, rp_exitCode = None, rp_socket = False,
     rp_listening = False, rp_timer = None, rp_strays = [], rp_attempts = 0, rp_latestError = None, rp_scripts = [],
     rp_options = \<lparr>xo_timeout = None, xo_proxyUrl = None, xo_headers = None, xo_certs = None,
       xo_whitelistMimes = None, xo_maxBodySize = None, xo_maxContentLength = None,
       xo_reuseConnection = False, xo_proxyDomains = None, xo_proxyDomainsBypass = None, xo_kerberos = None\<rparr>,
     rp_deploys = 0, rp_effects = []\<rparr>"

lemma idle_sample: "idle sample_repeater"
  by (simp add: idle_def sample_repeater_def wf_scripts_def)


theorem reconnection_delay_constant_witness: "reconnection_delay 7 0 = MAX_RECONNECTION_DELAY"
  using reconnection_delay_constant [of 0 7] by simp


definition sample_executor :: "http_request \<Rightarrow> response" where
  "sample_executor r = \<lparr>rs_protocol = rq_protocol r, rs_statusCode = Some 200, rs_headers = None,
     rs_body = rq_body r, rs_encoding = None, rs_message = None, rs_errorCode = None, rs_ttfb = None\<rparr>"

definition sample_event :: request_event where
  "sample_event = \<lparr>qe_protocol = HTTP, qe_url = ''https://a.b/'', qe_method = Some ''GET'', qe_headers = None,
     qe_correlationIdRegex = None, qe_body = Some ''x'', qe_encoding = None, qe_maxContentSize = None, qe_timeout = None\<rparr>"

lemma sample_event_request:
  obtains r where "new_request any_url (\<lambda>_. True) (event_options sample_event) = Inr r" "rq_protocol r = HTTP"
  by (simp add: new_request_def event_options_def sample_event_def validateUrl_def any_url_def
      normalizeCorrelationIdRegex_def setHeaders_def)

theorem request_answered_iff_witness:
  "\<exists>r. wrapEventListener True (requestReceived any_url (\<lambda>_. True) [(HTTP, sample_executor)] sample_event) =
     (Some (reply_of (sample_executor r)), [])"
proof -
  obtain r where r: "new_request any_url (\<lambda>_. True) (event_options sample_event) = Inr r" "rq_protocol r = HTTP"
    by (rule sample_event_request)
  have "[(HTTP, sample_executor)] = [] @ (rq_protocol r, sample_executor) # []" using r(2) by simp
  then show ?thesis
    using request_answered_iff [of any_url "\<lambda>_. True" "[(HTTP, sample_executor)]" sample_event
        "reply_of (sample_executor r)"] r(1) by fastforce
qed

end
