(* ===== verification/Mcp.thy ===== *)
theory Mcp
  imports Helpers
begin

text \<open>
  The tools of the MCP server (\<open>src/Mcp/DefaultRepeaterTools.ts\<close>, \<open>McpServer.ts\<close>): they start, stop and
  inspect repeaters as child processes.  An entry of the table is shared by the table, its event
  handlers and the calls that wait for it, so entries live in a heap (a list, referred to by index) and
  the table maps ids to references.  Calls, events of children and timers interleave as a step relation.
  Dates are numbers of milliseconds.
\<close>

section \<open>Arguments and secrets\<close>

record run_input =
  ri_id :: "string option"
  ri_hostname :: "string option"

record stop_input =
  si_id :: "string option"
  si_signal :: "string option"
  si_timeoutMs :: "nat option"

definition requireId :: "string option \<Rightarrow> string js_result" where
  "requireId i = (if truthy i then Inr (the i) else Inl (mk_error ''Repeater id is required.''))"

definition resolveToken :: "string option \<Rightarrow> string option \<Rightarrow> string js_result" where
  "resolveToken BRIGHT_TOKEN token =
     (let t = nullish token BRIGHT_TOKEN in
      if truthy t then Inr (the t)
      else Inl (mk_error ''A Bright API token is required. Set BRIGHT_TOKEN on the MCP server process or provide it through MCP transport authentication.''))"

definition addValue :: "string \<Rightarrow> string option \<Rightarrow> string list \<Rightarrow> string list" where
  "addValue option v args = (case v of None \<Rightarrow> args | Some x \<Rightarrow> args @ [option, x])"

definition buildArgs :: "string option \<Rightarrow> run_input \<Rightarrow> string option \<Rightarrow> string list js_result" where
  "buildArgs BRIGHT_TOKEN inp token =
     bind_res (resolveToken BRIGHT_TOKEN token) (\<lambda>t.
       Inr (addValue ''--hostname'' (ri_hostname inp)
             (addValue ''--id'' (ri_id inp) (addValue ''--token'' (Some t) []))))"

definition SENSITIVE_OPTIONS :: "string list" where
  "SENSITIVE_OPTIONS = [''--token'', ''-t'']"

fun collectSensitiveValues :: "string list \<Rightarrow> string list" where
  "collectSensitiveValues [] = []"
| "collectSensitiveValues (arg # args) =
     (let inline_values = (case split_on ''='' arg of
            optionName # inlineValue # _ \<Rightarrow>
              (if inlineValue \<noteq> [] \<and> optionName \<in> set SENSITIVE_OPTIONS then [inlineValue] else [])
          | _ \<Rightarrow> []);
          following = (case args of
            v # _ \<Rightarrow> (if arg \<in> set SENSITIVE_OPTIONS \<and> v \<noteq> [] then [v] else [])
          | [] \<Rightarrow> [])
      in inline_values @ following @ collectSensitiveValues args)"

definition redactWith :: "string list \<Rightarrow> string \<Rightarrow> string" where
  "redactWith sensitiveValues value =
     foldl (\<lambda>currentValue secret. join ''[Filtered]'' (split_on secret currentValue)) value
       (sort_key (\<lambda>s. - int (length s)) sensitiveValues)"


section \<open>The table of processes\<close>

text \<open>
  \<open>en_args\<close> are the arguments of the child; \<open>en_errorSeen\<close> tells that the one-time handlers of its
  \<open>error\<close> event are used up.
\<close>

record entry =
  en_id :: string
  en_args :: "string list"
  en_pid :: "nat option"
  en_startedAt :: nat
  en_exitedAt :: "nat option"
  en_exitCode :: "nat option option"
  en_lastError :: "string option"
  en_sensitiveValues :: "string list"
  en_errorSeen :: bool

record process_status =
  ps_id :: string
  ps_running :: bool
  ps_pid :: "nat option"
  ps_startedAt :: nat
  ps_exitedAt :: "nat option"
  ps_exitCode :: "nat option option"
  ps_lastError :: "string option"

datatype call = Run_Call nat | Stop_Call nat

datatype stop_phase = Terminating | Killing

record tools =
  tl_entries :: "entry list"
  tl_processes :: "(string, nat) store"
  tl_starting :: "nat list"
  tl_stopping :: "(nat \<times> stop_phase) list"
  tl_kills :: "(nat \<times> string) list"
  tl_answers :: "(call \<times> process_status js_result) list"
  tl_uncaught :: "string list"

definition isRunning :: "entry \<Rightarrow> bool" where
  "isRunning e \<longleftrightarrow> en_exitedAt e = None"

definition toStatus :: "entry \<Rightarrow> process_status" where
  "toStatus e = \<lparr>ps_id = en_id e, ps_running = isRunning e, ps_pid = en_pid e, ps_startedAt = en_startedAt e,
     ps_exitedAt = en_exitedAt e, ps_exitCode = en_exitCode e, ps_lastError = en_lastError e\<rparr>"

definition redact :: "entry \<Rightarrow> string \<Rightarrow> string" where
  "redact e = redactWith (en_sensitiveValues e)"

definition requireEntry :: "string \<Rightarrow> tools \<Rightarrow> nat js_result" where
  "requireEntry i s =
     (case sget (tl_processes s) i of
        None \<Rightarrow> Inl (mk_error (''No repeater process found for id \"'' @ i @ ''\".''))
      | Some r \<Rightarrow> Inr r)"

definition upd_entry :: "nat \<Rightarrow> (entry \<Rightarrow> entry) \<Rightarrow> tools \<Rightarrow> tools" where
  "upd_entry r f s = s\<lparr>tl_entries := (tl_entries s)[r := f (tl_entries s ! r)]\<rparr>"

definition answers :: "call \<Rightarrow> process_status js_result \<Rightarrow> tools \<Rightarrow> tools" where
  "answers c res s = s\<lparr>tl_answers := tl_answers s @ [(c, res)]\<rparr>"

text \<open>
  \<open>run\<close> up to the wait: the parameters are the environment of the process, the time and \<open>spawn\<close> of the runtime, which
  throws or returns the process id, undefined when the process could not be created.
\<close>

type_synonym spawner = "command_args \<Rightarrow> nat option js_result"

definition run_tool ::
  "(string \<Rightarrow> string) \<Rightarrow> process_env \<Rightarrow> string option \<Rightarrow> spawner \<Rightarrow> nat \<Rightarrow> run_input \<Rightarrow> string option \<Rightarrow>
     tools \<Rightarrow> tools js_result"
where
  "run_tool norm_path env BRIGHT_TOKEN spawn_child time inp token s =
     bind_res (requireId (ri_id inp)) (\<lambda>i.
       if (case sget (tl_processes s) i of None \<Rightarrow> False | Some r \<Rightarrow> isRunning (tl_entries s ! r))
       then Inl (mk_error (''A repeater command is already running for id \"'' @ i @ ''\".''))
       else
         bind_res (buildArgs BRIGHT_TOKEN inp token) (\<lambda>repeaterArgs.
           bind_res (spawn_child (getExecArgs norm_path env
               \<lparr>eo_exclude = None, eo_include = Some (''repeater'' # repeaterArgs), eo_excludeAll = Some True,
                eo_escape = None, eo_spawn = Some True\<rparr>)) (\<lambda>pid.
             let r = length (tl_entries s);
                 e = \<lparr>en_id = i, en_args = repeaterArgs, en_pid = pid, en_startedAt = time, en_exitedAt = None,
                      en_exitCode = None, en_lastError = None,
                      en_sensitiveValues = uniq (collectSensitiveValues repeaterArgs), en_errorSeen = False\<rparr>
             in Inr (s\<lparr>tl_entries := tl_entries s @ [e], tl_processes := sset i r (tl_processes s),
                      tl_starting := tl_starting s @ [r]\<rparr>))))"

text \<open>The wait of \<open>run\<close> ends with a failure: the entry is removed if it is still the current one and has exited.\<close>

definition fail_start :: "nat \<Rightarrow> js_error \<Rightarrow> tools \<Rightarrow> tools" where
  "fail_start r err s =
     (let e = tl_entries s ! r;
          s1 = (answers (Run_Call r) (Inl err) s)\<lparr>tl_starting := removeAll r (tl_starting s)\<rparr>
      in if sget (tl_processes s1) (en_id e) = Some r \<and> \<not> isRunning e
         then s1\<lparr>tl_processes := sdel (en_id e) (tl_processes s1)\<rparr> else s1)"

definition grace_over :: "nat \<Rightarrow> tools \<Rightarrow> tools" where
  "grace_over r s =
     answers (Run_Call r) (Inr (toStatus (tl_entries s ! r))) (s\<lparr>tl_starting := removeAll r (tl_starting s)\<rparr>)"

definition on_error :: "nat \<Rightarrow> string \<Rightarrow> tools \<Rightarrow> tools" where
  "on_error r message s =
     (let e = tl_entries s ! r in
      if en_errorSeen e then s\<lparr>tl_uncaught := tl_uncaught s @ [message]\<rparr>
      else
        let s1 = upd_entry r (\<lambda>e. e\<lparr>en_lastError := Some (redact e message), en_errorSeen := True\<rparr>) s
        in if r \<in> set (tl_starting s1) then fail_start r (mk_error (redact e message)) s1 else s1)"

definition exit_message :: "nat option \<Rightarrow> string option \<Rightarrow> string" where
  "exit_message exitCode signal =
     ''Repeater command exited before startup completed with code '' @
     (case exitCode of None \<Rightarrow> ''null'' | Some n \<Rightarrow> nat_str n) @ '' and signal '' @
     (case signal of None \<Rightarrow> ''null'' | Some x \<Rightarrow> x) @ ''.''"

text \<open>An exit also ends the waits of the calls of \<open>stop\<close> for the entry.\<close>

definition on_exit :: "nat \<Rightarrow> nat option \<Rightarrow> string option \<Rightarrow> nat \<Rightarrow> tools \<Rightarrow> tools" where
  "on_exit r exitCode signal time s =
     (let s1 = upd_entry r (\<lambda>e. e\<lparr>en_exitedAt := Some time, en_exitCode := Some exitCode\<rparr>) s;
          s2 = (if r \<in> set (tl_starting s1) then fail_start r (mk_error (exit_message exitCode signal)) s1 else s1);
          done = filter (\<lambda>(q, _). q = r) (tl_stopping s2)
      in s2\<lparr>tl_stopping := filter (\<lambda>(q, _). q \<noteq> r) (tl_stopping s2),
            tl_answers := tl_answers s2 @ map (\<lambda>_. (Stop_Call r, Inr (toStatus (tl_entries s2 ! r)))) done\<rparr>)"

text \<open>\<open>stop\<close> up to its first wait; \<open>signals\<close> are the signals of the platform, any other makes \<open>kill\<close> throw.\<close>

definition stop_tool :: "string list \<Rightarrow> stop_input \<Rightarrow> tools \<Rightarrow> tools js_result" where
  "stop_tool signals inp s =
     bind_res (requireId (si_id inp)) (\<lambda>i.
     bind_res (requireEntry i s) (\<lambda>r.
       let e = tl_entries s ! r in
       if \<not> isRunning e then Inr (answers (Stop_Call r) (Inr (toStatus e)) s)
       else
         let signal = (case si_signal inp of None \<Rightarrow> ''SIGTERM'' | Some x \<Rightarrow> x) in
         if signal \<notin> set signals then Inl (type_error (''Unknown signal: '' @ signal))
         else Inr (s\<lparr>tl_kills := tl_kills s @ [(r, signal)], tl_stopping := tl_stopping s @ [(r, Terminating)]\<rparr>)))"

definition stop_timeout :: "nat \<Rightarrow> stop_phase \<Rightarrow> tools \<Rightarrow> tools" where
  "stop_timeout r phase s =
     (let e = tl_entries s ! r; s1 = s\<lparr>tl_stopping := remove1 (r, phase) (tl_stopping s)\<rparr> in
      if phase = Terminating \<and> isRunning e
      then s1\<lparr>tl_kills := tl_kills s1 @ [(r, ''SIGKILL'')], tl_stopping := tl_stopping s1 @ [(r, Killing)]\<rparr>
      else answers (Stop_Call r) (Inr (toStatus e)) s1)"

definition status_tool :: "string option \<Rightarrow> tools \<Rightarrow> process_status js_result" where
  "status_tool i s =
     bind_res (requireId i) (\<lambda>i. bind_res (requireEntry i s) (\<lambda>r. Inr (toStatus (tl_entries s ! r))))"

definition stopAll :: "string list \<Rightarrow> tools \<Rightarrow> tools" where
  "stopAll signals s =
     foldl (\<lambda>t i. case stop_tool signals \<lparr>si_id = Some i, si_signal = None, si_timeoutMs = None\<rparr> t of
              Inl _ \<Rightarrow> t | Inr t' \<Rightarrow> t') s (map fst (tl_processes s))"


section \<open>Calling a tool\<close>

record tool_result =
  tr_isError :: bool
  tr_text :: string

text \<open>
  \<open>callTool\<close> turns every exception into a result; \<open>stringify\<close> is \<open>JSON.stringify\<close>.  A tool call that waits
  has no result yet: then \<open>callTool\<close> is applied to the answer.
\<close>

definition callTool :: "(process_status \<Rightarrow> string) \<Rightarrow> process_status js_result \<Rightarrow> tool_result" where
  "callTool stringify outcome =
     (case outcome of
        Inr st \<Rightarrow> \<lparr>tr_isError = False, tr_text = stringify st\<rparr>
      | Inl e \<Rightarrow> \<lparr>tr_isError = True, tr_text = err_message e\<rparr>)"

datatype tool_input = Run_Input run_input | Stop_Input stop_input | Status_Input "string option" | Unknown_Tool string

text \<open>The tools as they are announced: name, required properties, and the properties with their types and choices.\<close>

record tool_spec =
  ts_name :: string
  ts_required :: "string list"
  ts_properties :: "(string \<times> string \<times> string list) list"

definition createTools :: "tool_spec list" where
  "createTools =
     [\<lparr>ts_name = ''runRepeater'', ts_required = [''id''],
       ts_properties = [(''id'', ''string'', []), (''hostname'', ''string'', [])]\<rparr>,
      \<lparr>ts_name = ''stopRepeater'', ts_required = [''id''],
       ts_properties = [(''id'', ''string'', []), (''signal'', ''string'', [''SIGTERM'', ''SIGINT'', ''SIGKILL'']),
         (''timeoutMs'', ''number'', [])]\<rparr>,
      \<lparr>ts_name = ''repeaterStatus'', ts_required = [''id''], ts_properties = [(''id'', ''string'', [])]\<rparr>]"

fun tool_name :: "tool_input \<Rightarrow> string" where
  "tool_name (Run_Input _) = ''runRepeater''"
| "tool_name (Stop_Input _) = ''stopRepeater''"
| "tool_name (Status_Input _) = ''repeaterStatus''"
| "tool_name (Unknown_Tool name) = name"

text \<open>Every announced tool requires only properties it declares, and the known inputs are those of the announced tools.\<close>

lemma announced_tools:
  "list_all (\<lambda>t. set (ts_required t) \<subseteq> set (map fst (ts_properties t))) createTools"
  "(\<forall>n. inp \<noteq> Unknown_Tool n) \<Longrightarrow> tool_name inp \<in> set (map ts_name createTools)"
  by (simp add: createTools_def) (cases inp; simp add: createTools_def)

datatype tool_outcome = Waits tools | Answers tool_result tools

definition executeTool ::
  "(process_status \<Rightarrow> string) \<Rightarrow> (string \<Rightarrow> string) \<Rightarrow> process_env \<Rightarrow> string option \<Rightarrow> spawner \<Rightarrow> string list \<Rightarrow> nat \<Rightarrow>
     string option \<Rightarrow> tool_input \<Rightarrow> tools \<Rightarrow> tool_outcome"
where
  "executeTool stringify norm_path env BRIGHT_TOKEN spawn_child signals time auth_token inp s =
     (case inp of
        Run_Input i \<Rightarrow>
          (case run_tool norm_path env BRIGHT_TOKEN spawn_child time i auth_token s of
             Inl e \<Rightarrow> Answers (callTool stringify (Inl e)) s
           | Inr t \<Rightarrow> Waits t)
      | Stop_Input i \<Rightarrow>
          (case stop_tool signals i s of
             Inl e \<Rightarrow> Answers (callTool stringify (Inl e)) s
           | Inr t \<Rightarrow> Waits t)
      | Status_Input i \<Rightarrow> Answers (callTool stringify (status_tool i s)) s
      | Unknown_Tool name \<Rightarrow> Answers (callTool stringify (Inl (mk_error (''Unknown tool: '' @ name)))) s)"


section \<open>Steps\<close>

text \<open>
  A call of a tool, an event of a child (it exits at most once), the end of the grace period of a start
  or of a wait of \<open>stop\<close>, and \<open>stopAll\<close>.
\<close>

inductive mcp_step ::
  "(string \<Rightarrow> string) \<Rightarrow> process_env \<Rightarrow> string option \<Rightarrow> string list \<Rightarrow> tools \<Rightarrow> tools \<Rightarrow> bool"
  for norm_path env BRIGHT_TOKEN signals
where
  run_called: "run_tool norm_path env BRIGHT_TOKEN spawn_child time inp token s = Inr t \<Longrightarrow>
     mcp_step norm_path env BRIGHT_TOKEN signals s t"
| stop_called: "stop_tool signals inp s = Inr t \<Longrightarrow> mcp_step norm_path env BRIGHT_TOKEN signals s t"
| child_error: "r < length (tl_entries s) \<Longrightarrow> mcp_step norm_path env BRIGHT_TOKEN signals s (on_error r message s)"
| child_exit: "r < length (tl_entries s) \<Longrightarrow> isRunning (tl_entries s ! r) \<Longrightarrow>
     mcp_step norm_path env BRIGHT_TOKEN signals s (on_exit r exitCode signal time s)"
| grace: "r \<in> set (tl_starting s) \<Longrightarrow> mcp_step norm_path env BRIGHT_TOKEN signals s (grace_over r s)"
| wait_over: "(r, phase) \<in> set (tl_stopping s) \<Longrightarrow>
     mcp_step norm_path env BRIGHT_TOKEN signals s (stop_timeout r phase s)"
| all_stopped: "mcp_step norm_path env BRIGHT_TOKEN signals s (stopAll signals s)"

definition no_tools :: tools where
  "no_tools = \<lparr>tl_entries = [], tl_processes = [], tl_starting = [], tl_stopping = [], tl_kills = [],
     tl_answers = [], tl_uncaught = []\<rparr>"

abbreviation mcp_reach ::
  "(string \<Rightarrow> string) \<Rightarrow> process_env \<Rightarrow> string option \<Rightarrow> string list \<Rightarrow> tools \<Rightarrow> bool"
where
  "mcp_reach norm_path env BRIGHT_TOKEN signals s \<equiv>
     (mcp_step norm_path env BRIGHT_TOKEN signals)\<^sup>*\<^sup>* no_tools s"


section \<open>Redaction\<close>

text \<open>A secret that cannot arise from the replacement text or across its border.\<close>

definition opaque :: "string \<Rightarrow> bool" where
  "opaque t \<longleftrightarrow> t \<noteq> [] \<and> CHR ''['' \<notin> set t \<and> CHR '']'' \<notin> set t \<and> \<not> sublist t ''Filtered''"

lemma sublist_filtered:
  assumes "opaque t" and "sublist t (x @ ''[Filtered]'' @ y)"
  shows "sublist t x \<or> sublist t y"
proof -
  have no: "CHR ''['' \<notin> set t" "CHR '']'' \<notin> set t" "\<not> sublist t ''Filtered''"
    using assms(1) by (auto simp: opaque_def)
  have "sublist t (x @ CHR ''['' # (''Filtered'' @ CHR '']'' # y))" using assms(2) by simp
  from sublist_around_char [OF no(1) this] show ?thesis
    using sublist_around_char [OF no(2), of "''Filtered''" y] no(3) by blast
qed

lemma sublist_join_filtered:
  "opaque t \<Longrightarrow> sublist t (join ''[Filtered]'' ps) \<Longrightarrow> \<exists>p \<in> set ps. sublist t p"
proof (induction "''[Filtered]''" ps rule: join.induct)
  case 1
  then show ?case by (simp add: opaque_def)
next
  case (3 x y ys)
  then show ?case using sublist_filtered [of t x "join ''[Filtered]'' (y # ys)"] by auto
qed auto

lemma replaced_free:
  assumes "opaque t" and "secret \<noteq> []" and "\<not> sublist t s \<or> t = secret"
  shows "\<not> sublist t (join ''[Filtered]'' (split_on secret s))"
proof
  assume "sublist t (join ''[Filtered]'' (split_on secret s))"
  then obtain p where p: "p \<in> set (split_on secret s)" "sublist t p"
    using sublist_join_filtered [OF assms(1)] by blast
  with assms(3) show False
    using split_on_part_free [OF assms(2) p(1)] split_on_part_sublist [OF assms(2) p(1)] sublist_order.order.trans
    by blast
qed

lemma redact_fold_free:
  assumes "opaque t" and "\<forall>x \<in> set secrets. x \<noteq> []" and "\<not> sublist t s \<or> t \<in> set secrets"
  shows "\<not> sublist t (foldl (\<lambda>v secret. join ''[Filtered]'' (split_on secret v)) s secrets)"
  using assms(2,3)
proof (induction secrets arbitrary: s)
  case (Cons x xs)
  have "x \<noteq> []" using Cons.prems by simp
  with replaced_free [OF assms(1) this, of s] Cons.IH [of "join ''[Filtered]'' (split_on x s)"] Cons.prems
  show ?case by auto
qed simp

lemma redactWith_free:
  assumes "opaque t" and "\<forall>x \<in> set secrets. x \<noteq> []" and "t \<in> set secrets"
  shows "\<not> sublist t (redactWith secrets s)"
  unfolding redactWith_def by (rule redact_fold_free) (use assms in simp_all)

lemma sensitive_not_Nil: "x \<in> set (collectSensitiveValues args) \<Longrightarrow> x \<noteq> []"
  by (induction args rule: collectSensitiveValues.induct)
    (auto simp: Let_def split: list.splits if_splits)

lemma token_sensitive: "t \<noteq> [] \<Longrightarrow> t \<in> set (collectSensitiveValues (''--token'' # t # rest))"
  unfolding collectSensitiveValues.simps(2) [of "''--token''"] by (simp add: SENSITIVE_OPTIONS_def Let_def)


section \<open>Invariant\<close>

definition sound_entry :: "entry \<Rightarrow> bool" where
  "sound_entry e \<longleftrightarrow>
     en_sensitiveValues e = uniq (collectSensitiveValues (en_args e)) \<and>
     (\<exists>token rest. en_args e = ''--token'' # token # rest \<and> token \<noteq> []) \<and>
     (\<forall>m. en_lastError e = Some m \<longrightarrow> (\<exists>msg. m = redact e msg))"

definition sound_answer :: "entry list \<Rightarrow> call \<times> process_status js_result \<Rightarrow> bool" where
  "sound_answer es a =
     (case a of
        (Run_Call r, Inl err) \<Rightarrow> r < length es \<and>
          ((\<exists>msg. err_message err = redact (es ! r) msg) \<or> (\<exists>c g. err_message err = exit_message c g))
      | _ \<Rightarrow> True)"

definition mcp_inv :: "tools \<Rightarrow> bool" where
  "mcp_inv s \<longleftrightarrow>
     wf_store (tl_processes s) \<and>
     (\<forall>i r. sget (tl_processes s) i = Some r \<longrightarrow> r < length (tl_entries s) \<and> en_id (tl_entries s ! r) = i) \<and>
     (\<forall>r < length (tl_entries s). isRunning (tl_entries s ! r) \<longrightarrow>
        sget (tl_processes s) (en_id (tl_entries s ! r)) = Some r) \<and>
     set (tl_starting s) \<subseteq> {..<length (tl_entries s)} \<and>
     (\<forall>e \<in> set (tl_entries s). sound_entry e) \<and>
     (\<forall>a \<in> set (tl_answers s). sound_answer (tl_entries s) a)"

lemma inv_no_tools: "mcp_inv no_tools"
  by (simp add: mcp_inv_def no_tools_def)

lemma inv_frame:
  assumes "mcp_inv s" and "tl_entries t = tl_entries s" and "tl_processes t = tl_processes s"
    and "tl_answers t = tl_answers s" and "set (tl_starting t) \<subseteq> set (tl_starting s)"
  shows "mcp_inv t"
proof -
  have "set (tl_starting s) \<subseteq> {..<length (tl_entries s)}" using assms(1) by (simp add: mcp_inv_def)
  with assms(5) have "set (tl_starting t) \<subseteq> {..<length (tl_entries s)}" by (rule subset_trans)
  with assms(1-4) show ?thesis by (simp add: mcp_inv_def)
qed

lemma inv_answers: "mcp_inv s \<Longrightarrow> sound_answer (tl_entries s) (c, res) \<Longrightarrow> mcp_inv (answers c res s)"
  by (auto simp: mcp_inv_def answers_def)

lemma sound_answer_Inr [simp]: "sound_answer es (c, Inr st)"
  by (cases c) (simp_all add: sound_answer_def)

lemma sound_answer_append: "sound_answer es a \<Longrightarrow> sound_answer (es @ xs) a"
  by (auto simp: sound_answer_def nth_append split: call.splits sum.splits prod.splits)

lemma sound_answer_update:
  assumes "sound_answer es a" and "en_sensitiveValues e = en_sensitiveValues (es ! r)" and "r < length es"
  shows "sound_answer (es[r := e]) a"
proof -
  have "redact (es[r := e] ! q) = redact (es ! q)" for q
    using assms(2,3) by (cases "q = r") (auto simp: redact_def)
  then show ?thesis
    using assms(1) by (auto simp: sound_answer_def split: call.splits sum.splits prod.splits)
qed

lemma inv_upd_entry:
  assumes inv: "mcp_inv s" and r: "r < length (tl_entries s)"
    and f: "en_id (f (tl_entries s ! r)) = en_id (tl_entries s ! r)"
      "en_sensitiveValues (f (tl_entries s ! r)) = en_sensitiveValues (tl_entries s ! r)"
      "isRunning (f (tl_entries s ! r)) \<Longrightarrow> isRunning (tl_entries s ! r)"
      "sound_entry (f (tl_entries s ! r))"
  shows "mcp_inv (upd_entry r f s)"
proof -
  let ?es = "(tl_entries s)[r := f (tl_entries s ! r)]"
  have "\<forall>a \<in> set (tl_answers s). sound_answer ?es a"
    using inv f(2) r sound_answer_update by (auto simp: mcp_inv_def)
  moreover have "\<forall>e \<in> set ?es. sound_entry e"
    using inv f(4) set_update_subset_insert [of "tl_entries s" r "f (tl_entries s ! r)"] by (auto simp: mcp_inv_def)
  moreover have "en_id (?es ! q) = en_id (tl_entries s ! q)" for q
    using f(1) r by (cases "q = r") auto
  moreover have "isRunning (?es ! q) \<Longrightarrow> isRunning (tl_entries s ! q)" for q
    using f(3) r by (cases "q = r") auto
  ultimately show ?thesis using inv by (simp add: mcp_inv_def upd_entry_def)
qed

lemma inv_forget:
  assumes inv: "mcp_inv s" and r: "sget (tl_processes s) i = Some r" "\<not> isRunning (tl_entries s ! r)"
  shows "mcp_inv (s\<lparr>tl_processes := sdel i (tl_processes s)\<rparr>)"
proof -
  have "\<forall>q < length (tl_entries s). isRunning (tl_entries s ! q) \<longrightarrow>
      sget (sdel i (tl_processes s)) (en_id (tl_entries s ! q)) = Some q"
  proof (intro allI impI)
    fix q assume q: "q < length (tl_entries s)" "isRunning (tl_entries s ! q)"
    then have g: "sget (tl_processes s) (en_id (tl_entries s ! q)) = Some q" using inv by (simp add: mcp_inv_def)
    have "en_id (tl_entries s ! q) \<noteq> i"
    proof
      assume "en_id (tl_entries s ! q) = i"
      with g r(1) have "q = r" by simp
      with q(2) r(2) show False by simp
    qed
    with g show "sget (sdel i (tl_processes s)) (en_id (tl_entries s ! q)) = Some q" by simp
  qed
  then show ?thesis using inv by (simp add: mcp_inv_def)
qed

lemma inv_fail_start:
  assumes "mcp_inv s" and "r < length (tl_entries s)"
    and "(\<exists>msg. err_message err = redact (tl_entries s ! r) msg) \<or> (\<exists>c g. err_message err = exit_message c g)"
  shows "mcp_inv (fail_start r err s)"
proof -
  let ?s1 = "(answers (Run_Call r) (Inl err) s)\<lparr>tl_starting := removeAll r (tl_starting s)\<rparr>"
  have "mcp_inv (answers (Run_Call r) (Inl err) s)"
    using assms by (intro inv_answers) (auto simp: sound_answer_def)
  then have 1: "mcp_inv ?s1" by (rule inv_frame) (auto simp: answers_def)
  then have "sget (tl_processes ?s1) i = Some r \<Longrightarrow> \<not> isRunning (tl_entries ?s1 ! r) \<Longrightarrow>
      mcp_inv (?s1\<lparr>tl_processes := sdel i (tl_processes ?s1)\<rparr>)" for i
    by (rule inv_forget)
  moreover have "tl_entries ?s1 = tl_entries s" by (simp add: answers_def)
  ultimately show ?thesis unfolding fail_start_def Let_def using 1 by presburger
qed

lemma inv_grace_over:
  assumes "mcp_inv s" and "r \<in> set (tl_starting s)"
  shows "mcp_inv (grace_over r s)"
  unfolding grace_over_def by (rule inv_answers) (use assms in \<open>auto simp: mcp_inv_def\<close>)

lemma upd_entry_sel [simp]:
  "tl_starting (upd_entry r f s) = tl_starting s" "length (tl_entries (upd_entry r f s)) = length (tl_entries s)"
  by (simp_all add: upd_entry_def)

lemma inv_on_error:
  assumes "mcp_inv s" and "r < length (tl_entries s)"
  shows "mcp_inv (on_error r message s)"
proof (cases "en_errorSeen (tl_entries s ! r)")
  case False
  define s1 where "s1 = upd_entry r (\<lambda>e. e\<lparr>en_lastError := Some (redact e message), en_errorSeen := True\<rparr>) s"
  have snd: "sound_entry (tl_entries s ! r)" using assms by (simp add: mcp_inv_def)
  have inv: "mcp_inv s1"
    unfolding s1_def
    by (rule inv_upd_entry) (use assms snd in \<open>auto simp: isRunning_def sound_entry_def redact_def\<close>)
  have "redact (tl_entries s ! r) message = redact (tl_entries s1 ! r) message"
    using assms(2) by (simp add: s1_def upd_entry_def redact_def)
  then have "\<exists>msg. err_message (mk_error (redact (tl_entries s ! r) message)) = redact (tl_entries s1 ! r) msg"
    unfolding mk_error_def by auto
  then have "mcp_inv (fail_start r (mk_error (redact (tl_entries s ! r) message)) s1)"
    by (intro inv_fail_start [OF inv]) (use assms(2) in \<open>simp_all add: s1_def\<close>)
  with inv False show ?thesis unfolding on_error_def Let_def s1_def [symmetric] by simp
next
  case True
  have "mcp_inv (s\<lparr>tl_uncaught := tl_uncaught s @ [message]\<rparr>)" by (rule inv_frame [OF assms(1)]) simp_all
  then show ?thesis using True by (simp add: on_error_def)
qed

lemma inv_on_exit:
  assumes "mcp_inv s" and "r < length (tl_entries s)"
  shows "mcp_inv (on_exit r exitCode signal time s)"
proof -
  define s1 where "s1 = upd_entry r (\<lambda>e. e\<lparr>en_exitedAt := Some time, en_exitCode := Some exitCode\<rparr>) s"
  define s2 where "s2 = (if r \<in> set (tl_starting s1) then fail_start r (mk_error (exit_message exitCode signal)) s1 else s1)"
  have snd: "sound_entry (tl_entries s ! r)" using assms by (simp add: mcp_inv_def)
  have 1: "mcp_inv s1"
    unfolding s1_def
    by (rule inv_upd_entry) (use assms snd in \<open>auto simp: isRunning_def sound_entry_def redact_def\<close>)
  have "mcp_inv (fail_start r (mk_error (exit_message exitCode signal)) s1)"
    by (rule inv_fail_start [OF 1]) (use assms(2) in \<open>auto simp: s1_def mk_error_def\<close>)
  with 1 have 2: "mcp_inv s2" by (simp add: s2_def)
  show ?thesis
    unfolding on_exit_def Let_def s1_def [symmetric] s2_def [symmetric] using 2 unfolding mcp_inv_def
    by (simp add: ball_Un)
qed

lemma stop_tool_Inr:
  assumes "stop_tool signals inp s = Inr t"
  obtains (exited) i r where "sget (tl_processes s) i = Some r" "\<not> isRunning (tl_entries s ! r)"
      "t = answers (Stop_Call r) (Inr (toStatus (tl_entries s ! r))) s"
    | (killed) i r g where "sget (tl_processes s) i = Some r" "isRunning (tl_entries s ! r)"
      "t = s\<lparr>tl_kills := tl_kills s @ [(r, g)], tl_stopping := tl_stopping s @ [(r, Terminating)]\<rparr>"
proof -
  obtain i r where "requireEntry i s = Inr r" and
    t: "(if \<not> isRunning (tl_entries s ! r) then Inr (answers (Stop_Call r) (Inr (toStatus (tl_entries s ! r))) s)
      else let signal = (case si_signal inp of None \<Rightarrow> ''SIGTERM'' | Some x \<Rightarrow> x) in
        if signal \<notin> set signals then Inl (type_error (''Unknown signal: '' @ signal))
        else Inr (s\<lparr>tl_kills := tl_kills s @ [(r, signal)], tl_stopping := tl_stopping s @ [(r, Terminating)]\<rparr>)) = Inr t"
    using assms unfolding stop_tool_def Let_def bind_res_Inr_iff by blast
  then have r: "sget (tl_processes s) i = Some r" by (simp add: requireEntry_def split: option.splits)
  show thesis
  proof (cases "isRunning (tl_entries s ! r)")
    case True
    with t killed [OF r True] show thesis unfolding Let_def by (auto split: if_splits)
  next
    case False
    with t exited [OF r False] show thesis by simp
  qed
qed

lemma inv_stop_tool:
  assumes "mcp_inv s" and "stop_tool signals inp s = Inr t"
  shows "mcp_inv t"
  using assms(2)
proof (cases rule: stop_tool_Inr)
  case (exited i r)
  then show ?thesis using inv_answers [OF assms(1), of "Stop_Call r"] by simp
next
  case (killed i r g)
  show ?thesis by (rule inv_frame [OF assms(1)]) (simp_all add: killed(3))
qed

lemma inv_stop_timeout:
  assumes "mcp_inv s"
  shows "mcp_inv (stop_timeout r phase s)"
proof -
  let ?s1 = "s\<lparr>tl_stopping := remove1 (r, phase) (tl_stopping s)\<rparr>"
  have 1: "mcp_inv ?s1" by (rule inv_frame [OF assms]) simp_all
  have 2: "mcp_inv (?s1\<lparr>tl_kills := k, tl_stopping := st\<rparr>)" for k st by (rule inv_frame [OF assms]) simp_all
  show ?thesis unfolding stop_timeout_def Let_def using inv_answers [OF 1] 2 by simp
qed

lemma inv_stop_each:
  "mcp_inv s \<Longrightarrow> mcp_inv (foldl (\<lambda>t i. case stop_tool signals (f i) t of Inl _ \<Rightarrow> t | Inr t' \<Rightarrow> t') s keys)"
proof (induction keys arbitrary: s)
  case (Cons i keys)
  have "mcp_inv (case stop_tool signals (f i) s of Inl _ \<Rightarrow> s | Inr t' \<Rightarrow> t')"
    using Cons.prems inv_stop_tool [OF Cons.prems] by (cases "stop_tool signals (f i) s") auto
  then show ?case using Cons.IH by simp
qed simp

lemma buildArgs_Inr:
  "buildArgs BRIGHT_TOKEN inp token = Inr args \<Longrightarrow> \<exists>t rest. args = ''--token'' # t # rest \<and> t \<noteq> []"
  by (auto simp: buildArgs_def resolveToken_def addValue_def Let_def truthy_iff split: if_splits option.splits)

lemma run_tool_Inr:
  assumes "run_tool norm_path env BRIGHT_TOKEN spawn_child time inp token s = Inr t"
  obtains e where "\<And>r. sget (tl_processes s) (en_id e) = Some r \<Longrightarrow> \<not> isRunning (tl_entries s ! r)"
    "ri_id inp = Some (en_id e)" "en_id e \<noteq> []" "isRunning e" "en_lastError e = None"
    "\<exists>t rest. en_args e = ''--token'' # t # rest \<and> t \<noteq> []"
    "en_sensitiveValues e = uniq (collectSensitiveValues (en_args e))"
    "t = s\<lparr>tl_entries := tl_entries s @ [e],
           tl_processes := sset (en_id e) (length (tl_entries s)) (tl_processes s),
           tl_starting := tl_starting s @ [length (tl_entries s)]\<rparr>"
    "\<not> en_errorSeen e"
proof -
  obtain i args pid where i: "requireId (ri_id inp) = Inr i" and args: "buildArgs BRIGHT_TOKEN inp token = Inr args"
    and idle: "\<not> (case sget (tl_processes s) i of None \<Rightarrow> False | Some r \<Rightarrow> isRunning (tl_entries s ! r))"
    and t: "t = (let r = length (tl_entries s);
                 e = \<lparr>en_id = i, en_args = args, en_pid = pid, en_startedAt = time, en_exitedAt = None,
                      en_exitCode = None, en_lastError = None,
                      en_sensitiveValues = uniq (collectSensitiveValues args), en_errorSeen = False\<rparr>
             in s\<lparr>tl_entries := tl_entries s @ [e], tl_processes := sset i r (tl_processes s),
                  tl_starting := tl_starting s @ [r]\<rparr>)"
    using assms unfolding run_tool_def bind_res_Inr_iff Let_def by (auto split: if_splits)
  show thesis
    by (rule that [of "\<lparr>en_id = i, en_args = args, en_pid = pid, en_startedAt = time, en_exitedAt = None,
          en_exitCode = None, en_lastError = None, en_sensitiveValues = uniq (collectSensitiveValues args),
          en_errorSeen = False\<rparr>"])
      (use i idle buildArgs_Inr [OF args] t in
        \<open>auto simp: requireId_def truthy_iff isRunning_def Let_def split: if_splits\<close>)
qed

lemma inv_run_tool:
  assumes inv: "mcp_inv s" and run: "run_tool norm_path env BRIGHT_TOKEN spawn_child time inp token s = Inr t"
  shows "mcp_inv t"
  using run
proof (cases rule: run_tool_Inr)
  case (1 e)
  let ?es = "tl_entries s @ [e]" and ?ps = "sset (en_id e) (length (tl_entries s)) (tl_processes s)"
  have "\<forall>a \<in> set (tl_answers s). sound_answer ?es a"
    using inv sound_answer_append by (auto simp: mcp_inv_def)
  moreover have "\<forall>x \<in> set ?es. sound_entry x" using inv 1(5,6,7) by (auto simp: mcp_inv_def sound_entry_def)
  moreover have "r < length ?es \<and> en_id (?es ! r) = i" if "sget ?ps i = Some r" for i r
  proof (cases "i = en_id e")
    case False
    with that have "sget (tl_processes s) i = Some r" by simp
    with inv have "r < length (tl_entries s) \<and> en_id (tl_entries s ! r) = i" unfolding mcp_inv_def by blast
    then show ?thesis by (simp add: nth_append)
  qed (use that in auto)
  moreover have "sget ?ps (en_id (?es ! r)) = Some r" if r: "r < length ?es" "isRunning (?es ! r)" for r
  proof (cases "r = length (tl_entries s)")
    case False
    with r have 2: "r < length (tl_entries s)" "isRunning (tl_entries s ! r)" by (simp_all add: nth_append)
    with inv have g: "sget (tl_processes s) (en_id (tl_entries s ! r)) = Some r" unfolding mcp_inv_def by blast
    with 2 1(1) [of r] have "en_id (tl_entries s ! r) \<noteq> en_id e" by auto
    with g 2 show ?thesis by (simp add: nth_append)
  qed simp
  moreover have "wf_store ?ps" "set (tl_starting s @ [length (tl_entries s)]) \<subseteq> {..<length ?es}"
    using inv by (auto simp: mcp_inv_def)
  ultimately show ?thesis unfolding mcp_inv_def 1(8) by fastforce
qed

lemma inv_mcp_step:
  assumes "mcp_step norm_path env BRIGHT_TOKEN signals s t" and "mcp_inv s"
  shows "mcp_inv t"
  using assms
proof cases
  case run_called
  then show ?thesis using inv_run_tool [OF assms(2)] by blast
next
  case stop_called
  then show ?thesis using inv_stop_tool [OF assms(2)] by blast
next
  case child_error
  then show ?thesis using inv_on_error [OF assms(2)] by blast
next
  case child_exit
  then show ?thesis using inv_on_exit [OF assms(2)] by blast
next
  case grace
  then show ?thesis using inv_grace_over [OF assms(2)] by blast
next
  case wait_over
  then show ?thesis using inv_stop_timeout [OF assms(2)] by blast
next
  case all_stopped
  show ?thesis unfolding all_stopped stopAll_def by (rule inv_stop_each [OF assms(2)])
qed

interpretation mcp_sys: step_system "mcp_step norm_path env BRIGHT_TOKEN signals" mcp_inv
  for norm_path env BRIGHT_TOKEN signals
  by unfold_locales (rule inv_mcp_step)

lemma inv_mcp_reach: "mcp_reach norm_path env BRIGHT_TOKEN signals s \<Longrightarrow> mcp_inv s"
  by (rule mcp_sys.steps_inv [OF _ inv_no_tools])


section \<open>Refinement\<close>

text \<open>
  What the tools promise: a table of running processes, at most one for an id, in which a process
  starts only under a free id and with a reference no running process has, and leaves when it exits.
\<close>

inductive table_step :: "(string \<rightharpoonup> nat) \<Rightarrow> (string \<rightharpoonup> nat) \<Rightarrow> bool" where
  starts: "i \<noteq> [] \<Longrightarrow> m i = None \<Longrightarrow> r \<notin> ran m \<Longrightarrow> table_step m (m(i \<mapsto> r))"
| exits: "m i = Some r \<Longrightarrow> table_step m (m(i := None))"
| unchanged: "table_step m m"

definition running_table :: "tools \<Rightarrow> string \<rightharpoonup> nat" where
  "running_table s i =
     (case sget (tl_processes s) i of
        None \<Rightarrow> None
      | Some r \<Rightarrow> if isRunning (tl_entries s ! r) then Some r else None)"

lemma table_frame:
  "tl_entries t = tl_entries s \<Longrightarrow> tl_processes t = tl_processes s \<Longrightarrow> running_table t = running_table s"
  by (auto simp: running_table_def split: option.splits)

lemma table_forget:
  "sget (tl_processes s) i = Some r \<Longrightarrow> \<not> isRunning (tl_entries s ! r) \<Longrightarrow>
   running_table (s\<lparr>tl_processes := sdel i (tl_processes s)\<rparr>) = running_table s"
  by (auto simp: running_table_def split: option.splits)

lemma table_fail_start: "running_table (fail_start r err s) = running_table s"
proof -
  let ?s1 = "(answers (Run_Call r) (Inl err) s)\<lparr>tl_starting := removeAll r (tl_starting s)\<rparr>"
  have "running_table ?s1 = running_table s" by (rule table_frame) (simp_all add: answers_def)
  moreover have "tl_entries ?s1 = tl_entries s" by (simp add: answers_def)
  ultimately show ?thesis
    unfolding fail_start_def Let_def using table_forget [of ?s1] by presburger
qed

lemma table_upd_entry:
  assumes "mcp_inv s" and "r < length (tl_entries s)"
  shows "running_table (upd_entry r f s) =
    (if isRunning (tl_entries s ! r) = isRunning (f (tl_entries s ! r)) then running_table s
     else if isRunning (tl_entries s ! r) then (running_table s)(en_id (tl_entries s ! r) := None)
     else running_table (upd_entry r f s))"
proof -
  have own: "sget (tl_processes s) i = Some r \<Longrightarrow> i = en_id (tl_entries s ! r)" for i
    using assms(1) unfolding mcp_inv_def by blast
  have held: "isRunning (tl_entries s ! r) \<Longrightarrow> sget (tl_processes s) (en_id (tl_entries s ! r)) = Some r"
    using assms unfolding mcp_inv_def by blast
  have nth: "isRunning ((tl_entries s)[r := f (tl_entries s ! r)] ! q) =
      (if q = r then isRunning (f (tl_entries s ! r)) else isRunning (tl_entries s ! q))" for q
    using assms(2) by simp
  show ?thesis
    by (auto simp: fun_eq_iff running_table_def upd_entry_def nth held dest: own split: option.splits)
qed

lemma table_on_error:
  assumes "mcp_inv s" and "r < length (tl_entries s)"
  shows "running_table (on_error r message s) = running_table s"
proof -
  have "running_table (upd_entry r (\<lambda>e. e\<lparr>en_lastError := Some (redact e message), en_errorSeen := True\<rparr>) s) =
      running_table s"
    using table_upd_entry [OF assms, of "\<lambda>e. e\<lparr>en_lastError := Some (redact e message), en_errorSeen := True\<rparr>"]
    by (simp add: isRunning_def)
  moreover have "running_table (s\<lparr>tl_uncaught := u\<rparr>) = running_table s" for u by (rule table_frame) simp_all
  ultimately show ?thesis unfolding on_error_def Let_def by (simp add: table_fail_start)
qed

lemma table_on_exit:
  assumes "mcp_inv s" and "r < length (tl_entries s)" and "isRunning (tl_entries s ! r)"
  shows "running_table (on_exit r exitCode signal time s) = (running_table s)(en_id (tl_entries s ! r) := None)"
proof -
  define s1 where "s1 = upd_entry r (\<lambda>e. e\<lparr>en_exitedAt := Some time, en_exitCode := Some exitCode\<rparr>) s"
  define s2 where "s2 = (if r \<in> set (tl_starting s1) then fail_start r (mk_error (exit_message exitCode signal)) s1 else s1)"
  have "running_table s1 = (running_table s)(en_id (tl_entries s ! r) := None)"
    unfolding s1_def
    using table_upd_entry [OF assms(1,2), of "\<lambda>e. e\<lparr>en_exitedAt := Some time, en_exitCode := Some exitCode\<rparr>"] assms(3)
    by (simp add: isRunning_def)
  then have "running_table s2 = (running_table s)(en_id (tl_entries s ! r) := None)"
    by (simp add: s2_def table_fail_start)
  moreover have "running_table (on_exit r exitCode signal time s) = running_table s2"
    unfolding on_exit_def Let_def s1_def [symmetric] s2_def [symmetric] by (rule table_frame) simp_all
  ultimately show ?thesis by simp
qed

lemma stop_tool_frame:
  "stop_tool signals inp s = Inr t \<Longrightarrow> tl_entries t = tl_entries s \<and> tl_processes t = tl_processes s"
  by (erule stop_tool_Inr) (simp_all add: answers_def)

lemma stop_each_frame:
  "tl_entries (foldl (\<lambda>t i. case stop_tool signals (f i) t of Inl _ \<Rightarrow> t | Inr t' \<Rightarrow> t') s keys) = tl_entries s \<and>
   tl_processes (foldl (\<lambda>t i. case stop_tool signals (f i) t of Inl _ \<Rightarrow> t | Inr t' \<Rightarrow> t') s keys) = tl_processes s"
  by (induction keys arbitrary: s) (auto split: sum.splits dest: stop_tool_frame)

lemma stopAll_frame:
  "tl_entries (stopAll signals s) = tl_entries s" "tl_processes (stopAll signals s) = tl_processes s"
  using stop_each_frame [of signals "\<lambda>i. \<lparr>si_id = Some i, si_signal = None, si_timeoutMs = None\<rparr>" s]
  by (simp_all add: stopAll_def)

lemma table_run_tool:
  assumes inv: "mcp_inv s" and run: "run_tool norm_path env BRIGHT_TOKEN spawn_child time inp token s = Inr t"
  shows "table_step (running_table s) (running_table t)"
  using run
proof (cases rule: run_tool_Inr)
  case (1 e)
  have old: "sget (tl_processes s) i = Some r \<Longrightarrow> r < length (tl_entries s)" for i r
    using inv unfolding mcp_inv_def by blast
  have "running_table t = (running_table s)(en_id e \<mapsto> length (tl_entries s))"
    using 1(4) old by (auto simp: 1(8) fun_eq_iff running_table_def nth_append split: option.splits)
  moreover have "running_table s (en_id e) = None"
    using 1(1) by (auto simp: running_table_def split: option.splits)
  moreover have "length (tl_entries s) \<notin> ran (running_table s)"
    using old by (fastforce simp: ran_def running_table_def split: option.splits if_splits)
  ultimately show ?thesis using 1(3) by (simp add: starts)
qed


section \<open>Properties\<close>

text \<open>
  C27. In whatever order calls of the tools, events of the children and timers follow each other, the
  tools behave like a table with at most one running process for an id: every step starts one process
  under a free id, lets one process leave, or changes nothing, and every process that runs is in the
  table under its id, where \<open>stop\<close> and \<open>status\<close> find it.
\<close>

theorem tools_refine_table:
  assumes "mcp_reach norm_path env BRIGHT_TOKEN signals s" and "mcp_step norm_path env BRIGHT_TOKEN signals s t"
  shows "table_step (running_table s) (running_table t) \<and>
    (\<forall>r < length (tl_entries s). isRunning (tl_entries s ! r) \<longrightarrow>
       running_table s (en_id (tl_entries s ! r)) = Some r)"
proof
  have inv: "mcp_inv s" by (rule inv_mcp_reach [OF assms(1)])
  then show "\<forall>r < length (tl_entries s). isRunning (tl_entries s ! r) \<longrightarrow>
      running_table s (en_id (tl_entries s ! r)) = Some r"
    unfolding mcp_inv_def running_table_def by auto
  show "table_step (running_table s) (running_table t)"
    using assms(2)
  proof cases
    case run_called
    then show ?thesis using table_run_tool [OF inv] by blast
  next
    case stop_called
    then have "running_table t = running_table s" using stop_tool_frame table_frame by blast
    then show ?thesis by (simp add: unchanged)
  next
    case child_error
    then show ?thesis using table_on_error [OF inv] by (simp add: unchanged)
  next
    case (child_exit r)
    then have "running_table s (en_id (tl_entries s ! r)) = Some r"
      using inv unfolding mcp_inv_def running_table_def by auto
    then show ?thesis using table_on_exit [OF inv child_exit(2,3)] exits unfolding child_exit(1) by metis
  next
    case grace
    then have "running_table t = running_table s" by (intro table_frame) (simp_all add: grace_over_def answers_def)
    then show ?thesis by (simp add: unchanged)
  next
    case wait_over
    then have "running_table t = running_table s"
      by (intro table_frame) (simp_all add: stop_timeout_def answers_def Let_def)
    then show ?thesis by (simp add: unchanged)
  next
    case all_stopped
    then have "running_table t = running_table s" by (intro table_frame) (simp_all add: stopAll_frame)
    then show ?thesis by (simp add: unchanged)
  qed
qed


text \<open>
  A repeater whose process could not be created blocks its id: the child reports the error and
  never exits, so the entry stays and counts as running; the start fails, the status says running, and
  every later start under the id is refused.
\<close>

theorem failed_spawn_blocks_id:
  assumes "run_tool norm_path env BRIGHT_TOKEN spawn_child time inp token s = Inr t"
    and "r = length (tl_entries s)" and "u = on_error r message t"
  shows "(\<exists>err. (Run_Call r, Inl err) \<in> set (tl_answers u)) \<and>
    (\<exists>st. status_tool (ri_id inp) u = Inr st \<and> ps_running st) \<and>
    run_tool norm_path env' tok' spawn_child' time' (inp\<lparr>ri_hostname := h\<rparr>) token' u =
      Inl (mk_error (''A repeater command is already running for id \"'' @ the (ri_id inp) @ ''\".''))"
  using assms(1)
proof (cases rule: run_tool_Inr)
  case (1 e)
  define t1 where "t1 = upd_entry r (\<lambda>e. e\<lparr>en_lastError := Some (redact e message), en_errorSeen := True\<rparr>) t"
  have t: "tl_entries t ! r = e" "r < length (tl_entries t)" "r \<in> set (tl_starting t)"
    using 1(8) assms(2) by simp_all
  have u: "u = fail_start r (mk_error (redact e message)) t1"
    using t 1(9) by (simp add: assms(3) on_error_def Let_def t1_def [symmetric]) (simp add: t1_def)
  have run: "isRunning (tl_entries t1 ! r)" using t 1(4) by (simp add: t1_def upd_entry_def isRunning_def)
  have "tl_entries u = tl_entries t1" "tl_processes u = tl_processes t1"
      "tl_answers u = tl_answers t1 @ [(Run_Call r, Inl (mk_error (redact e message)))]"
    using run by (simp_all add: u fail_start_def Let_def answers_def)
  moreover have "sget (tl_processes t1) (en_id e) = Some r" using 1(8) assms(2) by (simp add: t1_def upd_entry_def)
  ultimately show ?thesis
    using run 1(2,3)
    by (auto simp: status_tool_def requireId_def requireEntry_def toStatus_def run_tool_def)
qed


section \<open>Examples\<close>

definition sample_env :: process_env where
  "sample_env = \<lparr>pe_argv = [''node'', ''cli''], pe_execArgv = [], pe_execPath = ''/node'', pe_platform = ''linux'',
     pe_pkg_entrypoint = None\<rparr>"

definition sample_run :: "tools js_result" where
  "sample_run = run_tool id sample_env None (\<lambda>_. Inr None) 0 \<lparr>ri_id = Some ''a'', ri_hostname = None\<rparr> (Some ''k8'') no_tools"

lemma sample_run:
  "\<exists>t. sample_run = Inr t \<and> length (tl_entries t) = 1 \<and> en_args (tl_entries t ! 0) = [''--token'', ''k8'', ''--id'', ''a'']"
  by (simp add: sample_run_def run_tool_def requireId_def buildArgs_def resolveToken_def addValue_def no_tools_def Let_def)

theorem tools_refine_table_witness:
  "\<exists>t. mcp_step id sample_env None [''SIGTERM''] no_tools t \<and> table_step (running_table no_tools) (running_table t)"
proof -
  obtain t where t: "sample_run = Inr t" using sample_run by blast
  have step: "mcp_step id sample_env None [''SIGTERM''] no_tools t"
    by (rule run_called) (use t in \<open>simp add: sample_run_def\<close>)
  with tools_refine_table [OF start_reached step] show ?thesis by blast
qed


theorem failed_spawn_blocks_id_witness:
  "\<exists>t. sample_run = Inr t \<and> (\<exists>st. status_tool (Some ''a'') (on_error 0 ''ENOENT'' t) = Inr st \<and> ps_running st)"
proof -
  obtain t where t: "sample_run = Inr t" using sample_run by blast
  have "run_tool id sample_env None (\<lambda>_. Inr None) 0 \<lparr>ri_id = Some ''a'', ri_hostname = None\<rparr> (Some ''k8'') no_tools = Inr t"
    using t by (simp add: sample_run_def)
  from failed_spawn_blocks_id [OF this refl refl, of "''ENOENT''"] t show ?thesis
    by (simp add: no_tools_def) blast
qed

end
