(* ===== verification/Cli.thy ===== *)
theory Cli
  imports Helpers
begin

text \<open>
  The command line as it is declared to the argument parser: the global options of
  \<open>src/Config/CliBuilder.ts\<close> and the options of every command in \<open>src/Commands\<close>, as data.  The parser
  itself is a third-party package; help texts are left out.
\<close>

section \<open>Declarations\<close>

datatype option_flag =
  Aliases "string list" | Of_Array | Of_Boolean | Of_Number | Of_String | Normalized | Requires_Arg
| Demanded | Hidden | Deprecated | Coerced | Config_File
| Default string | Default_Env string | Choices "string list" | Conflicts_With "string list"

type_synonym option_spec = "string \<times> option_flag list"

record command_spec =
  cs_command :: string
  cs_options :: "option_spec list"
  cs_positionals :: "option_spec list"
  cs_conflicts :: "(string \<times> string list) list"
  cs_implies :: "(string \<times> string) list"

definition token_option :: option_spec where
  "token_option = (''token'', [Aliases [''t''], Requires_Arg, Demanded])"

definition token_string_option :: option_spec where
  "token_string_option = (''token'', [Aliases [''t''], Of_String, Requires_Arg, Demanded])"

definition project_option :: option_spec where
  "project_option = (''project'', [Aliases [''p''], Of_String, Requires_Arg, Demanded])"

definition LOG_LEVELS :: "string list" where
  "LOG_LEVELS = [''SILENT'', ''ERROR'', ''WARN'', ''NOTICE'', ''VERBOSE'', ''TRACE'']"

text \<open>The keys of the numeric enum \<open>LogLevel\<close> are the numbers and then the names.\<close>

definition log_level_choices :: "string list" where
  "log_level_choices = map nat_str [0 ..< length LOG_LEVELS] @ map toLowerCase LOG_LEVELS"

definition global_options :: "option_spec list" where
  "global_options =
    [(''config'', [Requires_Arg, Config_File]),
     (''log-level'', [Requires_Arg, Choices log_level_choices, Default ''3'']),
     (''log-file'', [Requires_Arg, Of_String]),
     (''log-max-size'', [Requires_Arg, Of_String]),
     (''log-max-files'', [Requires_Arg, Of_Number]),
     (''log-rotate-interval'', [Requires_Arg, Of_String]),
     (''log-compress'', [Of_Boolean]),
     (''cluster'', [Deprecated, Requires_Arg]),
     (''hostname'', [Requires_Arg]),
     (''insecure'', [Of_Boolean, Default ''false'']),
     (''proxy'', [Requires_Arg, Default_Env ''PROXY'']),
     (''proxy-bright'', [Requires_Arg]),
     (''proxy-target'', [Requires_Arg]),
     (''timeout'', [Default ''30'', Coerced])]"

definition global_conflicts :: "(string \<times> string list) list" where
  "global_conflicts = [(''proxy'', [''proxy-bright'', ''proxy-target'']), (''hostname'', [''cluster''])]"

definition global_implies :: "(string \<times> string) list" where
  "global_implies = map (\<lambda>k. (k, ''log-file'')) [''log-max-size'', ''log-max-files'', ''log-rotate-interval'', ''log-compress'']"

definition builtin_keys :: "string list" where
  "builtin_keys = [''version'', ''v'', ''help'', ''h'']"

definition repeater_service_options :: "option_spec list" where
  "repeater_service_options =
    [(''daemon'', [Aliases [''d'']]),
     (''run'', [Hidden]),
     (''remove-daemon'', [Aliases [''rm'', ''remove'']]),
     (''proxy-domains'', [Requires_Arg, Of_Array, Coerced]),
     (''proxy-domains-bypass'', [Requires_Arg, Of_Array, Default_Env ''NO_PROXY'', Coerced])]"

definition repeater_conflicts :: "(string \<times> string list) list" where
  "repeater_conflicts =
    [(''daemon'', [''remove-daemon'']),
     (''ntlm'', [''proxy'', ''experimental-connection-reuse'', ''kerberos'']),
     (''kerberos'', [''ntlm'']),
     (''proxy-domains'', [''proxy-domains-bypass''])]"

definition repeater_command :: command_spec where
  "repeater_command =
    \<lparr>cs_command = ''repeater [options]'',
     cs_options =
      [token_option,
       (''id'', [Aliases [''agent''], Of_String, Requires_Arg, Demanded]),
       (''scripts'', [Aliases [''S''], Requires_Arg, Of_String, Coerced]),
       (''timeout'', [Of_Number, Requires_Arg, Default ''30000'']),
       (''header'', [Aliases [''H''], Requires_Arg, Conflicts_With [''headers''], Of_Array, Coerced]),
       (''headers'', [Requires_Arg, Deprecated, Of_String, Conflicts_With [''header''], Coerced]),
       (''cacert'', [Default ''false'', Requires_Arg, Coerced]),
       (''cert'', [Requires_Arg, Of_Array, Of_String, Coerced]),
       (''experimental-connection-reuse'', [Deprecated, Of_Boolean]),
       (''ntlm'', [Of_Boolean]),
       (''kerberos'', [Of_Boolean]),
       (''kerberos-domains'', [Requires_Arg, Of_Array, Coerced]),
       (''kerberos-credentials'', [Requires_Arg, Of_String]),
       (''kerberos-delegation'', [Of_Boolean])] @ repeater_service_options,
     cs_positionals = [],
     cs_conflicts = repeater_conflicts,
     cs_implies =
      [(''kerberos-domains'', ''kerberos''), (''kerberos-credentials'', ''kerberos''),
       (''kerberos-delegation'', ''kerberos'')]\<rparr>"

definition attack_location_names :: "string list" where
  "attack_location_names =
    [''artifical-fragment'', ''artifical-query'', ''artificial-fragment'', ''artificial-query'', ''body'',
     ''fragment'', ''header'', ''path'', ''query'']"

definition scan_run_command :: command_spec where
  "scan_run_command =
    \<lparr>cs_command = ''scan:run [options]'',
     cs_options =
      [token_option,
       (''name'', [Aliases [''n''], Requires_Arg, Demanded]),
       (''auth'', [Aliases [''o''], Requires_Arg]),
       (''repeater'', [Aliases [''agent''], Requires_Arg]),
       (''archive'', [Aliases [''a''], Normalized, Requires_Arg]),
       (''crawler'', [Aliases [''c''], Requires_Arg, Of_Array]),
       (''test'', [Of_Array]),
       (''bucket'', [Of_Array]),
       (''project'', [Aliases [''p''], Requires_Arg, Of_String]),
       (''template'', [Aliases [''tp''], Of_String]),
       (''module'', [Default ''dast'', Requires_Arg, Choices [''dast'', ''fuzzer'']]),
       (''host-filter'', [Aliases [''F''], Requires_Arg, Of_Array]),
       (''header'', [Aliases [''H''], Requires_Arg, Of_Array]),
       (''exclude-param'', [Requires_Arg, Of_Array, Of_String]),
       (''exclude-entry-point'', [Of_Array, Coerced]),
       (''smart'', [Of_Boolean]),
       (''concurrency'', [Of_Number, Default ''10'', Requires_Arg]),
       (''param'', [Of_Array, Requires_Arg, Choices attack_location_names]),
       (''entrypoint'', [Of_Array, Aliases [''e'']])],
     cs_positionals = [],
     cs_conflicts = [(''entrypoint'', [''crawler'', ''archive''])],
     cs_implies = []\<rparr>"

definition scan_retest_command :: command_spec where
  "scan_retest_command =
    \<lparr>cs_command = ''scan:retest [options] <scanId>'', cs_options = [token_option],
     cs_positionals = [(''scanId'', [Of_String, Demanded])], cs_conflicts = [], cs_implies = []\<rparr>"

definition scan_stop_command :: command_spec where
  "scan_stop_command =
    \<lparr>cs_command = ''scan:stop [options] <scanId>'', cs_options = [token_option],
     cs_positionals = [(''scanId'', [Requires_Arg, Demanded, Of_String])], cs_conflicts = [], cs_implies = []\<rparr>"

definition scan_polling_command :: command_spec where
  "scan_polling_command =
    \<lparr>cs_command = ''scan:polling [options] <scanId>'',
     cs_options =
      [token_option,
       (''interval'', [Requires_Arg, Default ''5000'']),
       (''timeout'', [Requires_Arg]),
       (''breakpoint'', [Aliases [''b''], Choices [''any'', ''medium_issue'', ''high_issue'', ''critical_issue''],
          Of_String, Requires_Arg, Default ''any''])],
     cs_positionals = [(''scanId'', [Of_String, Demanded])], cs_conflicts = [], cs_implies = []\<rparr>"

definition discovery_run_command :: command_spec where
  "discovery_run_command =
    \<lparr>cs_command = ''discovery:run [options]'',
     cs_options =
      [token_string_option, project_option,
       (''name'', [Aliases [''n''], Of_String, Requires_Arg, Demanded]),
       (''auth'', [Aliases [''o''], Of_String, Requires_Arg]),
       (''repeater'', [Aliases [''agent''], Requires_Arg]),
       (''archive'', [Aliases [''a''], Normalized, Requires_Arg]),
       (''crawler'', [Aliases [''c''], Requires_Arg, Of_Array]),
       (''host-filter'', [Aliases [''F''], Requires_Arg, Of_Array]),
       (''header'', [Aliases [''H''], Requires_Arg, Of_Array]),
       (''smart'', [Of_Boolean]),
       (''crawl-parent-subdomains'', [Of_Boolean, Default ''false'']),
       (''concurrency'', [Of_Number, Default ''10'', Requires_Arg]),
       (''interactions-depth'', [Of_Number, Default ''3'', Requires_Arg])],
     cs_positionals = [],
     cs_conflicts = [(''archive'', [''crawler''])],
     cs_implies = []\<rparr>"

definition discovery_stop_command :: command_spec where
  "discovery_stop_command =
    \<lparr>cs_command = ''discovery:stop [options] <discoveryId>'', cs_options = [token_string_option, project_option],
     cs_positionals = [(''discoveryId'', [Requires_Arg, Demanded, Of_String])], cs_conflicts = [], cs_implies = []\<rparr>"

definition discovery_rerun_command :: command_spec where
  "discovery_rerun_command =
    \<lparr>cs_command = ''discovery:rerun [options] <discoveryId>'', cs_options = [token_string_option, project_option],
     cs_positionals = [(''discoveryId'', [Requires_Arg, Demanded, Of_String])], cs_conflicts = [], cs_implies = []\<rparr>"

definition discovery_polling_command :: command_spec where
  "discovery_polling_command =
    \<lparr>cs_command = ''discovery:polling [options] <discoveryId>'',
     cs_options =
      [token_option, project_option,
       (''interval'', [Requires_Arg, Default ''5000'']),
       (''timeout'', [Requires_Arg])],
     cs_positionals = [(''discoveryId'', [Demanded, Of_String])], cs_conflicts = [], cs_implies = []\<rparr>"

definition host_update_polling_command :: command_spec where
  "host_update_polling_command =
    \<lparr>cs_command = ''entrypoints:update-host-polling [options] <jobId>'',
     cs_options =
      [token_option,
       (''interval'', [Requires_Arg, Default ''5000'']),
       (''timeout'', [Requires_Arg]),
       project_option],
     cs_positionals = [(''jobId'', [Of_String, Demanded])], cs_conflicts = [], cs_implies = []\<rparr>"

definition entrypoints_list_command :: command_spec where
  "entrypoints_list_command =
    \<lparr>cs_command = ''entrypoints:list [options]'',
     cs_options =
      [token_option,
       (''project'', [Aliases [''p''], Requires_Arg, Demanded]),
       (''verbose'', [Of_Boolean, Default ''false'']),
       (''limit'', [Default ''10'']),
       (''pretty'', [Of_Boolean, Default ''false'']),
       (''connectivity'', [Of_Array,
          Choices [''ok'', ''unreachable'', ''problem'', ''skipped'', ''unauthorized'', ''unavailable'']]),
       (''status'', [Of_Array, Choices [''new'', ''changed'', ''tested'', ''vulnerable'']])],
     cs_positionals = [], cs_conflicts = [], cs_implies = []\<rparr>"

definition update_host_command :: command_spec where
  "update_host_command =
    \<lparr>cs_command = ''entrypoints:update-host [options]'',
     cs_options =
      [token_string_option, project_option,
       (''old-hostname'', [Aliases [''o''], Of_String, Requires_Arg, Demanded]),
       (''new-hostname'', [Aliases [''n''], Of_String, Requires_Arg, Demanded]),
       (''entrypoint-ids'', [Aliases [''e''], Of_String, Requires_Arg, Of_Array])],
     cs_positionals = [], cs_conflicts = [], cs_implies = []\<rparr>"

definition SpecType :: "(string, string) store" where
  "SpecType = [(''HAR'', ''HAR''), (''OPENAPI'', ''OpenAPI''), (''POSTMAN'', ''Postman'')]"

definition archive_upload_command :: command_spec where
  "archive_upload_command =
    \<lparr>cs_command = ''archive:upload [options] <file>'',
     cs_options =
      [token_option,
       (''type'', [Aliases [''T''], Requires_Arg, Choices (map toLowerCase [''OpenAPI'', ''HAR'', ''Postman'']),
          Default (toLowerCase ''HAR''), Demanded]),
       (''discard'', [Aliases [''d''], Default ''true'', Of_Boolean]),
       (''project'', [Aliases [''p'', ''projectId'']]),
       (''header'', [Aliases [''H''], Default [], Deprecated, Requires_Arg, Of_Array, Coerced]),
       (''variable'', [Aliases [''V''], Default [], Deprecated, Requires_Arg, Of_Array, Coerced])],
     cs_positionals = [(''file'', [Of_String, Demanded, Normalized])], cs_conflicts = [], cs_implies = []\<rparr>"

definition configure_command :: command_spec where
  "configure_command =
    \<lparr>cs_command = ''configure [options]'',
     cs_options =
      [(''http'', [Hidden, Requires_Arg]),
       (''auth'', [Hidden, Requires_Arg]),
       (''ping'', [Of_Boolean]),
       (''traceroute'', [Of_Boolean]),
       (''max-ttl'', [Of_Number, Requires_Arg, Default ''64'']),
       (''probes'', [Aliases [''p''], Of_Number, Requires_Arg, Default ''3''])],
     cs_positionals = [], cs_conflicts = [(''ping'', [''traceroute''])], cs_implies = []\<rparr>"

definition plain_command :: "string \<Rightarrow> command_spec" where
  "plain_command name = \<lparr>cs_command = name, cs_options = [], cs_positionals = [], cs_conflicts = [], cs_implies = []\<rparr>"

text \<open>The commands in the order in which \<open>src/index.ts\<close> registers them.\<close>

definition commands :: "command_spec list" where
  "commands =
    [repeater_command, plain_command ''version'', scan_polling_command, scan_run_command, scan_retest_command,
     scan_stop_command, discovery_run_command, discovery_stop_command, discovery_rerun_command,
     discovery_polling_command, host_update_polling_command, archive_upload_command, configure_command,
     entrypoints_list_command, update_host_command, plain_command ''mcp [options]'']"


section \<open>The declarations fit together\<close>

definition option_keys :: "option_spec \<Rightarrow> string list" where
  "option_keys x = fst x # concat (map (\<lambda>f. case f of Aliases names \<Rightarrow> names | _ \<Rightarrow> []) (snd x))"

definition command_keys :: "command_spec \<Rightarrow> string list" where
  "command_keys c = concat (map option_keys (cs_options c @ cs_positionals c))"

definition global_keys :: "string list" where
  "global_keys = concat (map option_keys global_options) @ builtin_keys"

definition default_allowed :: "option_spec \<Rightarrow> bool" where
  "default_allowed x =
     list_all (\<lambda>f. case f of
         Default d \<Rightarrow> list_all (\<lambda>g. case g of Choices cs \<Rightarrow> d \<in> set cs | _ \<Rightarrow> True) (snd x)
       | _ \<Rightarrow> True) (snd x)"

definition mentioned_keys :: "command_spec \<Rightarrow> string list" where
  "mentioned_keys c =
     concat (map (\<lambda>(k, ks). k # ks) (cs_conflicts c)) @ concat (map (\<lambda>(k, l). [k, l]) (cs_implies c)) @
     concat (map (\<lambda>x. concat (map (\<lambda>f. case f of Conflicts_With ks \<Rightarrow> ks | _ \<Rightarrow> []) (snd x))) (cs_options c))"

definition positional_declared :: "command_spec \<Rightarrow> bool" where
  "positional_declared c =
     (map (\<lambda>p. ''<'' @ fst p @ ''>'') (cs_positionals c) =
      filter (\<lambda>w. w \<noteq> [] \<and> hd w = CHR ''<'') (split_on '' '' (cs_command c)))"

definition wf_command :: "command_spec \<Rightarrow> bool" where
  "wf_command c \<longleftrightarrow>
     distinct (command_keys c) \<and>
     filter (\<lambda>k. k \<in> set global_keys) (command_keys c) \<in> {[], [''timeout'']} \<and>
     list_all default_allowed (cs_options c) \<and>
     list_all (\<lambda>k. k \<in> set (command_keys c) \<or> k \<in> set global_keys) (mentioned_keys c) \<and>
     positional_declared c"

definition wf_globals :: bool where
  "wf_globals \<longleftrightarrow>
     distinct global_keys \<and> list_all default_allowed global_options \<and>
     list_all (\<lambda>k. k \<in> set global_keys)
       (concat (map (\<lambda>(k, ks). k # ks) global_conflicts) @ concat (map (\<lambda>(k, l). [k, l]) global_implies))"

lemmas cli_defs = command_keys_def option_keys_def token_option_def token_string_option_def project_option_def
  commands_def repeater_command_def repeater_service_options_def repeater_conflicts_def plain_command_def scan_polling_command_def scan_run_command_def
  scan_retest_command_def scan_stop_command_def discovery_run_command_def discovery_stop_command_def
  discovery_rerun_command_def discovery_polling_command_def host_update_polling_command_def
  archive_upload_command_def configure_command_def entrypoints_list_command_def update_host_command_def

lemma global_keys_eq:
  "global_keys = [''config'', ''log-level'', ''log-file'', ''log-max-size'', ''log-max-files'', ''log-rotate-interval'',
     ''log-compress'', ''cluster'', ''hostname'', ''insecure'', ''proxy'', ''proxy-bright'', ''proxy-target'',
     ''timeout'', ''version'', ''v'', ''help'', ''h'']"
  by (simp add: global_keys_def global_options_def builtin_keys_def option_keys_def)

lemma keys_distinct: "list_all (\<lambda>c. distinct (command_keys c)) commands"
  by (simp add: cli_defs)

lemma keys_hide_timeout_only:
  "list_all (\<lambda>c. filter (\<lambda>k. k \<in> set global_keys) (command_keys c) \<in> {[], [''timeout'']}) commands"
  by (simp add: cli_defs global_keys_eq)

lemma defaults_allowed: "list_all (\<lambda>c. list_all default_allowed (cs_options c)) commands"
  by code_simp

lemma mentioned_declared:
  "list_all (\<lambda>c. list_all (\<lambda>k. k \<in> set (command_keys c) \<or> k \<in> set global_keys) (mentioned_keys c)) commands"
  by (simp add: cli_defs global_keys_eq mentioned_keys_def)

lemma positionals_declared: "list_all positional_declared commands"
  by code_simp

lemma command_names_distinct: "distinct (map (hd \<circ> split_on '' '' \<circ> cs_command) commands)"
  by code_simp

lemma globals_consistent: wf_globals
  unfolding wf_globals_def global_keys_eq by (simp add: global_conflicts_def global_implies_def) code_simp


end
