(* ===== verification/Commands.thy ===== *)
theory Commands
  imports Cli Rest_Scans Rest_Discoveries Rest_EntryPoints Archives Error_Messages Scan_Polling Abort_Polling
begin

text \<open>
  The commands that call a REST service or wait for one (\<open>src/Commands\<close>): checks and coercions of the
  arguments, and the handlers with what they print and how they end the process.  The arguments are
  those the argument parser hands over, with the types the handlers cast them to; a service is a
  function of the client the command configured.
\<close>

section \<open>Results of a command\<close>

datatype log_line = Log_Error string | Log_Warn string | Log_Notice string

text \<open>
  \<open>process.exit(n)\<close>, \<open>process.exitCode = n\<close>, the handler returns without either, or its promise rejects.
\<close>

datatype ending = Exit nat | Exit_Code nat | Returns | Rejects js_error

record command_result =
  cr_stdout :: "string list"
  cr_log :: "log_line list"
  cr_ending :: ending

definition failed :: "string \<Rightarrow> js_error \<Rightarrow> (nat \<Rightarrow> ending) \<Rightarrow> command_result" where
  "failed command e ends = \<lparr>cr_stdout = [], cr_log = [Log_Error (command_error command e)], cr_ending = ends 1\<rparr>"

definition finished :: "string list \<Rightarrow> log_line list \<Rightarrow> ending \<Rightarrow> command_result" where
  "finished stdout log ends = \<lparr>cr_stdout = stdout, cr_log = log, cr_ending = ends\<rparr>"

definition lift_res :: "'a js_result \<Rightarrow> ('q, 'a) io" where
  "lift_res r = (r, [])"

text \<open>The \<open>try\<close> around the body of a handler.\<close>

definition guarded :: "string \<Rightarrow> (nat \<Rightarrow> ending) \<Rightarrow> ('q, command_result) io \<Rightarrow> command_result \<times> 'q list" where
  "guarded command ends body =
     (case fst body of Inl e \<Rightarrow> failed command e ends | Inr r \<Rightarrow> r, snd body)"

definition console :: "string option \<Rightarrow> string" where
  "console v = (case v of None \<Rightarrow> ''undefined'' | Some s \<Rightarrow> s)"

definition warn_lines :: "string list option \<Rightarrow> log_line list" where
  "warn_lines warnings =
     (case warnings of
        None \<Rightarrow> []
      | Some ws \<Rightarrow> if ws = [] then [] else [Log_Warn (join [CHR 0x0A] ws @ [CHR 0x0A])])"

record api_args =
  aa_api :: string
  aa_token :: string
  aa_insecure :: bool
  aa_proxyBright :: "string option"
  aa_proxy :: "string option"
  aa_timeout :: "nat option"

definition rest_options_of :: "api_args \<Rightarrow> rest_options" where
  "rest_options_of a = \<lparr>ro_baseURL = aa_api a, ro_apiKey = aa_token a, ro_timeout = aa_timeout a,
     ro_insecure = aa_insecure a, ro_proxyURL = nullish (aa_proxyBright a) (aa_proxy a)\<rparr>"


section \<open>Coercions\<close>

datatype 'a coerced = Coerced_To 'a | Coercion_Exits nat string | Coercion_Throws js_error

record partial_exclusion =
  px_methods :: "string list option"
  px_patterns :: "string list option"

definition exclusion_of :: "partial_exclusion \<Rightarrow> request_exclusion option" where
  "exclusion_of p =
     (let nonEmptyPatterns = filter (\<lambda>x. x \<noteq> []) (case px_patterns p of None \<Rightarrow> [] | Some ps \<Rightarrow> ps) in
      if nonEmptyPatterns = [] then None
      else Some \<lparr>rx_patterns = uniq nonEmptyPatterns,
                 rx_methods = uniq (case px_methods p of None \<Rightarrow> [] | Some ms \<Rightarrow> ms)\<rparr>)"

fun parse_all :: "(string \<Rightarrow> 'a js_result) \<Rightarrow> string list \<Rightarrow> 'a list js_result" where
  "parse_all parse [] = Inr []"
| "parse_all parse (x # xs) = bind_res (parse x) (\<lambda>y. bind_res (parse_all parse xs) (\<lambda>ys. Inr (y # ys)))"

fun exclusions_of :: "partial_exclusion list \<Rightarrow> request_exclusion list option" where
  "exclusions_of [] = Some []"
| "exclusions_of (p # ps) =
     (case exclusion_of p of
        None \<Rightarrow> None
      | Some x \<Rightarrow> map_option ((#) x) (exclusions_of ps))"

definition excludeEntryPoint ::
  "(string \<Rightarrow> partial_exclusion js_result) \<Rightarrow> string list \<Rightarrow> request_exclusion list coerced"
where
  "excludeEntryPoint json_parse args =
     (case parse_all json_parse args of
        Inl e \<Rightarrow> Coercion_Throws e
      | Inr ps \<Rightarrow>
          (case exclusions_of ps of
             None \<Rightarrow> Coercion_Exits 1
               (genericCommandError (Of_Command ''scan:run'' (Thrown_String ''please make sure that patterns contain at least one regexp'')))
           | Some xs \<Rightarrow> Coerced_To xs))"


section \<open>Scans\<close>

record scan_args =
  sa_api :: api_args
  sa_name :: string
  sa_test :: "string list option"
  sa_module :: "scan_module option"
  sa_auth :: "string option"
  sa_project :: "string option"
  sa_template :: "string option"
  sa_bucket :: "string list option"
  sa_hostFilter :: "string list option"
  sa_header :: "string list option"
  sa_crawler :: "string list option"
  sa_archive :: "string option"
  sa_repeater :: "string option"
  sa_smart :: "bool option"
  sa_param :: "attack_param_location list option"
  sa_concurrency :: "nat option"
  sa_excludeEntryPoint :: "request_exclusion list option"
  sa_excludeParam :: "string list option"
  sa_entrypoint :: "string list option"

text \<open>An array is true in a condition even when it is empty.\<close>

definition check_scan_args :: "scan_args \<Rightarrow> bool js_result" where
  "check_scan_args a =
     (if sa_entrypoint a \<noteq> None \<and> truthy (sa_archive a) \<and> sa_crawler a \<noteq> None
      then Inl (mk_error ''Arguments --entrypoint, --archive and --crawler are mutually exclusive'')
      else if sa_entrypoint a = None \<and> \<not> truthy (sa_archive a) \<and> sa_crawler a = None
      then Inl (mk_error ''When --entrypoint is not provided, either --archive or --crawler must be specified'')
      else Inr True)"

definition scan_config_of :: "scan_args \<Rightarrow> scan_config" where
  "scan_config_of a =
     \<lparr>sc_name = sa_name a, sc_module = sa_module a, sc_authObjectId = sa_auth a, sc_projectId = sa_project a,
      sc_templateId = sa_template a, sc_discoveryTypes = None, sc_tests = sa_test a, sc_buckets = sa_bucket a,
      sc_poolSize = sa_concurrency a, sc_fileId = sa_archive a, sc_attackParamLocations = sa_param a,
      sc_smart = sa_smart a, sc_extraHosts = None,
      sc_exclusions = Some \<lparr>ex_params = sa_excludeParam a, ex_requests = sa_excludeEntryPoint a\<rparr>,
      sc_crawlerUrls = sa_crawler a, sc_hostsFilter = sa_hostFilter a,
      sc_repeaters = (if truthy (sa_repeater a) then Some [the (sa_repeater a)] else None),
      sc_entryPointIds = sa_entrypoint a\<rparr>"

type_synonym scan_service = "client \<Rightarrow> scan_request \<Rightarrow> answer js_result"

definition run_scan_handler ::
  "url_parser \<Rightarrow> uri_decoder \<Rightarrow> string \<Rightarrow> scan_service \<Rightarrow> scan_args \<Rightarrow> command_result \<times> scan_request list"
where
  "run_scan_handler parse decode version service a =
     guarded ''scan:run'' Exit
       (io_bind (lift_res (new_client parse (rest_options_of (sa_api a)))) (\<lambda>c.
        io_bind (lift_res (parseHeaders decode (case sa_header a of None \<Rightarrow> [] | Some h \<Rightarrow> h))) (\<lambda>headers.
        io_bind (create version (service c) (Some headers) (scan_config_of a)) (\<lambda>res.
          lift_res (Inr (finished [console (an_id res)] (warn_lines (an_warnings res)) (Exit 0)))))))"

definition retest_scan_handler ::
  "url_parser \<Rightarrow> scan_service \<Rightarrow> api_args \<Rightarrow> string \<Rightarrow> command_result \<times> scan_request list"
where
  "retest_scan_handler parse service api scanId =
     guarded ''scan:retest'' Exit
       (io_bind (lift_res (new_client parse (rest_options_of api))) (\<lambda>c.
        io_bind (retest (service c) scanId) (\<lambda>i. lift_res (Inr (finished [console i] [] (Exit 0))))))"

definition stop_scan_handler ::
  "url_parser \<Rightarrow> scan_service \<Rightarrow> api_args \<Rightarrow> string \<Rightarrow> command_result \<times> scan_request list"
where
  "stop_scan_handler parse service api scanId =
     guarded ''scan:stop'' Exit
       (io_bind (lift_res (new_client parse (rest_options_of api))) (\<lambda>c.
        io_bind (stop_scan (service c) scanId) (\<lambda>_. lift_res (Inr (finished [] [] (Exit 0))))))"

text \<open>
  \<open>statuses\<close> is the scan manager's \<open>status(scanId)\<close> by number of call.  The lines the poller itself logs are
  in its state and left out here; \<open>None\<close> is a poller that has not settled within the fuel.
\<close>

definition scan_polling_handler ::
  "nat \<Rightarrow> url_parser \<Rightarrow> (nat \<Rightarrow> nat) \<Rightarrow> (client \<Rightarrow> string \<Rightarrow> nat \<Rightarrow> scan_state js_result) \<Rightarrow> api_args \<Rightarrow>
     string \<Rightarrow> poll_config \<Rightarrow> string \<Rightarrow> command_result option"
where
  "scan_polling_handler fuel parse lat statuses api scanId cfg breakpoint_type =
     (let fails = failed ''scan:polling'' in
      case new_client parse (rest_options_of api) of
        Inl e \<Rightarrow> Some (fails e Exit)
      | Inr c \<Rightarrow>
          (case create_polling cfg breakpoint_type of
             Inl e \<Rightarrow> Some (fails e Exit)
           | Inr (b, s0) \<Rightarrow>
               (case start fuel cfg b lat (statuses c scanId) s0 of
                  None \<Rightarrow> None
                | Some (Inr _, _) \<Rightarrow> Some (finished [] [] (Exit 0))
                | Some (Inl e, _) \<Rightarrow>
                    Some (if err_name e = ''BreakpointException''
                          then finished [] [Log_Error ''The breakpoint has been hit during polling.'',
                                 Log_Error (''Breakpoint: '' @ err_message e)] (Exit 50)
                          else fails e Exit))))"


section \<open>Discoveries\<close>

record discovery_args =
  da_api :: api_args
  da_project :: string
  da_name :: string
  da_auth :: "string option"
  da_repeater :: "string option"
  da_archive :: "string option"
  da_crawler :: "string list option"
  da_hostFilter :: "string list option"
  da_header :: "string list option"
  da_smart :: "bool option"
  da_crawlParentSubdomains :: bool
  da_concurrency :: "nat option"
  da_interactionsDepth :: nat

definition check_discovery_args :: "discovery_args \<Rightarrow> bool js_result" where
  "check_discovery_args a =
     (if truthy (da_archive a) \<and> da_crawler a \<noteq> None
      then Inl (mk_error ''Arguments --archive and --crawler are mutually exclusive'')
      else if \<not> truthy (da_archive a) \<and> da_crawler a = None
      then Inl (mk_error ''Either --archive or --crawler must be specified'')
      else Inr True)"

text \<open>\<open>targetTimeout\<close> is not set by the command.\<close>

definition discovery_config_of :: "discovery_args \<Rightarrow> discovery_config" where
  "discovery_config_of a =
     \<lparr>dc_name = da_name a, dc_authObjectId = da_auth a, dc_poolSize = da_concurrency a,
      dc_crawlerUrls = da_crawler a, dc_extraHosts = None, dc_fileId = da_archive a, dc_targetId = None,
      dc_hostsFilter = da_hostFilter a, dc_optimizedCrawler = da_smart a,
      dc_maxInteractionsChainLength = da_interactionsDepth a, dc_subdomainsCrawl = da_crawlParentSubdomains a,
      dc_exclusions = None,
      dc_repeaters = (if truthy (da_repeater a) then Some [the (da_repeater a)] else None),
      dc_discoveryTypes = None, dc_targetTimeout = None\<rparr>"

type_synonym discovery_service = "client \<Rightarrow> discovery_request \<Rightarrow> answer js_result"

definition run_discovery_handler ::
  "url_parser \<Rightarrow> string \<Rightarrow> discovery_service \<Rightarrow> discovery_args \<Rightarrow> command_result \<times> discovery_request list"
where
  "run_discovery_handler parse version service a =
     guarded ''discovery:run'' Exit
       (io_bind (lift_res (discoveries_client parse (rest_options_of (da_api a)))) (\<lambda>c.
        io_bind (create_discovery version (service c) (da_project a) (map_option Header_Lines (da_header a))
                   (discovery_config_of a)) (\<lambda>res.
          lift_res (Inr (finished [console (an_id res)] (warn_lines (an_warnings res)) (Exit 0))))))"

definition rerun_discovery_handler ::
  "url_parser \<Rightarrow> discovery_service \<Rightarrow> api_args \<Rightarrow> string \<Rightarrow> string \<Rightarrow> command_result \<times> discovery_request list"
where
  "rerun_discovery_handler parse service api projectId discoveryId =
     guarded ''discovery:rerun'' Exit
       (io_bind (lift_res (discoveries_client parse (rest_options_of api))) (\<lambda>c.
        io_bind (rerun_discovery (service c) projectId discoveryId) (\<lambda>i.
          lift_res (Inr (finished [console i] [] (Exit 0))))))"

definition stop_discovery_handler ::
  "url_parser \<Rightarrow> discovery_service \<Rightarrow> api_args \<Rightarrow> string \<Rightarrow> string \<Rightarrow> command_result \<times> discovery_request list"
where
  "stop_discovery_handler parse service api projectId discoveryId =
     guarded ''discovery:stop'' Exit
       (io_bind (lift_res (discoveries_client parse (rest_options_of api))) (\<lambda>c.
        io_bind (stop_discovery (service c) projectId discoveryId) (\<lambda>_.
          lift_res (Inr (finished [] [] (Exit 0))))))"

definition exit_of :: "poll_exit \<Rightarrow> command_result" where
  "exit_of x = finished [] [] (Exit (case x of Returned \<Rightarrow> 0 | Exited n \<Rightarrow> n))"

definition discovery_polling_handler ::
  "nat \<Rightarrow> url_parser \<Rightarrow> (nat \<Rightarrow> nat) \<Rightarrow> (client \<Rightarrow> nat \<Rightarrow> discovery_view option js_result) \<Rightarrow> api_args \<Rightarrow>
     poll_config \<Rightarrow> command_result option"
where
  "discovery_polling_handler fuel parse lat views api cfg =
     (case discoveries_client parse (rest_options_of api) of
        Inl e \<Rightarrow> Some (failed ''discovery:polling'' e Exit)
      | Inr c \<Rightarrow> map_option (exit_of \<circ> fst) (discovery_start fuel cfg lat (views c) (discovery_polling cfg)))"


section \<open>Entry points\<close>

definition host_job_polling_handler ::
  "nat \<Rightarrow> url_parser \<Rightarrow> (nat \<Rightarrow> nat) \<Rightarrow> (client \<Rightarrow> nat \<Rightarrow> host_job_view option js_result) \<Rightarrow> api_args \<Rightarrow>
     poll_config \<Rightarrow> command_result option"
where
  "host_job_polling_handler fuel parse lat views api cfg =
     (case entrypoints_client parse (rest_options_of api) of
        Inl e \<Rightarrow> Some (failed ''entrypoints:update-host-polling'' e Exit)
      | Inr c \<Rightarrow> map_option (exit_of \<circ> fst) (host_job_start fuel cfg lat (views c) (host_job_polling cfg)))"

record list_args =
  la_api :: api_args
  la_project :: string
  la_limit :: "int option"
  la_connectivity :: "string list option"
  la_status :: "string list option"
  la_verbose :: bool
  la_pretty :: bool

datatype entry_point_view = Verbose entry_point | Brief string string string

definition entry_point_views :: "bool \<Rightarrow> entry_point list \<Rightarrow> entry_point_view list" where
  "entry_point_views verbose eps =
     map (\<lambda>e. if verbose then Verbose e else Brief (ep_id e) (ep_method e) (ep_url e)) eps"

text \<open>Here the client is resolved before the \<open>try\<close>; \<open>stringify\<close> is \<open>JSON.stringify\<close>, indented or not.\<close>

definition list_entrypoints_handler ::
  "url_parser \<Rightarrow> (bool \<Rightarrow> entry_point_view list \<Rightarrow> string) \<Rightarrow>
     (client \<Rightarrow> ep_request \<Rightarrow> entry_point list option js_result) \<Rightarrow> list_args \<Rightarrow> command_result \<times> ep_request list"
where
  "list_entrypoints_handler parse stringify service a =
     (case entrypoints_client parse (rest_options_of (la_api a)) of
        Inl e \<Rightarrow> (finished [] [] (Rejects e), [])
      | Inr c \<Rightarrow>
          guarded ''entrypoints:list'' Exit_Code
            (io_bind (entrypoints (service c) \<lparr>lo_projectId = la_project a, lo_limit = la_limit a,
                 lo_connectivity = la_connectivity a, lo_status = la_status a\<rparr>) (\<lambda>eps.
               lift_res (Inr (finished [stringify (la_pretty a) (entry_point_views (la_verbose a) eps)] []
                 (Exit_Code 0))))))"

definition update_host_handler ::
  "url_parser \<Rightarrow> (client \<Rightarrow> ep_request \<Rightarrow> string option js_result) \<Rightarrow> api_args \<Rightarrow> update_host_options \<Rightarrow>
     command_result \<times> ep_request list"
where
  "update_host_handler parse service api opts =
     guarded ''entrypoints:update-host'' Exit_Code
       (io_bind (lift_res (entrypoints_client parse (rest_options_of api))) (\<lambda>c.
        io_bind (updateHost (service c) opts) (\<lambda>taskId.
          lift_res (Inr (finished [console taskId] [] (Exit_Code 0))))))"


section \<open>Archives\<close>

record upload_args =
  ua_api :: api_args
  ua_type :: string
  ua_file :: string
  ua_discard :: bool
  ua_project :: "string option"
  ua_header :: "(string, string) store"
  ua_variable :: "(string, string) store"

definition spec_type_of :: "string \<Rightarrow> spec_type option" where
  "spec_type_of v =
     (case selectEnumValue SpecType v of
        None \<Rightarrow> None
      | Some x \<Rightarrow> if x = ''HAR'' then Some HAR else if x = ''OpenAPI'' then Some OPENAPI else Some POSTMAN)"

definition coerce_headers :: "uri_decoder \<Rightarrow> string list option \<Rightarrow> (string, string) store js_result" where
  "coerce_headers decode arg = (case arg of None \<Rightarrow> Inr [] | Some hs \<Rightarrow> parseHeaders decode hs)"

definition upload_handler ::
  "parser_env \<Rightarrow> file_system \<Rightarrow> (client \<Rightarrow> (bool option, form_data) request \<Rightarrow> string option js_result) \<Rightarrow>
     upload_args \<Rightarrow> command_result \<times> (bool option, form_data) request list"
where
  "upload_handler env fs service a =
     (let type = spec_type_of (ua_type a) in
      guarded ''archive:upload'' Exit
        (io_bind (lift_res (archives_client (pe_url env) (rest_options_of (ua_api a)))) (\<lambda>c.
         io_bind (lift_res (create_parser env type)) (\<lambda>parse.
         io_bind (lift_res (parse fs (ua_file a))) (\<lambda>file.
         io_bind (upload (service c) \<lparr>sp_file = file, sp_type = type, sp_discard = Some (ua_discard a),
             sp_projectId = ua_project a, sp_headers = Some (ua_header a), sp_variables = Some (ua_variable a)\<rparr>) (\<lambda>i.
           lift_res (Inr (finished [console i] [] (Exit 0)))))))))"


section \<open>The version command\<close>

text \<open>What \<open>exec\<close> reports: the outputs win over an error.\<close>

definition executeCommand :: "string \<Rightarrow> string \<Rightarrow> js_error option \<Rightarrow> string js_result" where
  "executeCommand stdout stderr err =
     (if stdout \<noteq> [] then Inr stdout
      else if stderr \<noteq> [] then Inr stderr
      else case err of Some e \<Rightarrow> Inl e | None \<Rightarrow> Inr [])"

text \<open>\<open>/ @brightsec\/cli@(.*)\n/\<close>: the first place where the rest of the line ends with a line feed.\<close>

definition cli_marker :: string where
  "cli_marker = '' @brightsec/cli@''"

fun match_version :: "string \<Rightarrow> string option" where
  "match_version [] = None"
| "match_version (c # cs) =
     (if startsWith (c # cs) cli_marker then
        let rest = drop (length cli_marker) (c # cs);
            line = takeWhile (\<lambda>x. \<not> is_newline x) rest;
            after = drop (length line) rest
        in if after \<noteq> [] \<and> hd after = CHR 0x0A then Some line else match_version cs
      else match_version cs)"

text \<open>\<open>replace(/"invalid"/gi, '')\<close>.\<close>

function remove_invalid :: "string \<Rightarrow> string" where
  "remove_invalid s =
     (if s = [] then []
      else if startsWith (toLowerCase s) ([quote] @ ''invalid'' @ [quote]) then remove_invalid (drop 9 s)
      else hd s # remove_invalid (tl s))"
  by pat_completeness auto
termination
  by (relation "measure length") auto

declare remove_invalid.simps [simp del]

definition npm_version :: "string \<Rightarrow> string" where
  "npm_version npm_list =
     trim (remove_invalid (case match_version npm_list of None \<Rightarrow> [] | Some v \<Rightarrow> v))"

definition version_lines :: "string \<Rightarrow> string \<Rightarrow> log_line list" where
  "version_lines localNpmVersion globalNpmVersion =
     [if localNpmVersion \<noteq> [] then Log_Notice (''Local installed version: '' @ localNpmVersion)
      else Log_Warn ''No local installed Bright CLI was found.'',
      if globalNpmVersion \<noteq> [] then Log_Notice (''Global installed Bright CLI version: '' @ globalNpmVersion)
      else Log_Warn ''No global installed was found.''] @
     (if localNpmVersion \<noteq> [] \<and> globalNpmVersion \<noteq> [] \<and> localNpmVersion \<noteq> globalNpmVersion
      then [Log_Warn ''To avoid issues with CLI please make sure your global and local Bright CLI versions match, or you are using locally installed Bright CLI instead of global one.'']
      else [])"

definition version_handler :: "string js_result \<Rightarrow> string js_result \<Rightarrow> command_result" where
  "version_handler local_list global_list =
     (case local_list of
        Inl e \<Rightarrow> finished [] [] (Rejects e)
      | Inr l \<Rightarrow>
          (case global_list of
             Inl e \<Rightarrow> finished [] [] (Rejects e)
           | Inr g \<Rightarrow> finished [] (version_lines (npm_version l) (npm_version g)) Returns))"


section \<open>Properties\<close>

text \<open>The exit code that an answer of the service stands for.\<close>

definition polling_exit_code :: "scan_state js_result \<Rightarrow> nat" where
  "polling_exit_code r =
     (case r of Inl e \<Rightarrow> 1 | Inr st \<Rightarrow> if isRedundant (scan_status st) then 0 else 50)"

lemma decides_exit_code:
  assumes "decides b a r" and "\<And>e. a = Inl e \<Longrightarrow> err_name e \<noteq> ''BreakpointException''"
  shows "(case r of Inr _ \<Rightarrow> 0 | Inl e \<Rightarrow> if err_name e = ''BreakpointException'' then 50 else 1) = polling_exit_code a"
  using assms by (cases a) (auto simp: polling_exit_code_def)

text \<open>
  C29. Without a timeout, the command that polls a scan ends as soon as an answer is final, and with the
  exit code that answer stands for: 0 for a scan that has ended, 50 for a live scan at the breakpoint,
  1 for an error that is not retried.  The only way to end earlier is a connection problem that
  outlasts the retries, which is exit code 1.
\<close>

theorem scan_polling_exit_code:
  assumes "new_client parse (rest_options_of api) = Inr c" and "create_breakpoint ty = Some b"
    and "due cfg = None" and "\<not> quiet b (statuses c scanId k)"
    and "\<forall>i e. statuses c scanId i = Inl e \<longrightarrow> err_name e \<noteq> ''BreakpointException''"
  shows "\<exists>res j. scan_polling_handler (k + 1) parse lat statuses api scanId cfg ty = Some res \<and> j \<le> k \<and>
    cr_ending res = Exit (polling_exit_code (statuses c scanId j)) \<and>
    (\<forall>i < j. quiet b (statuses c scanId i)) \<and>
    (quiet b (statuses c scanId j) \<longrightarrow> (\<exists>e. statuses c scanId j = Inl e \<and> transient e))"
proof -
  let ?st = "statuses c scanId"
  obtain s0 where s0: "create_polling cfg ty = Inr (b, s0)"
    using assms(2) by (auto simp: create_polling_def new_polling_def)
  obtain r s where run: "start (k + 1) cfg b lat ?st s0 = Some (r, s)"
    using scan_polling_settles [of cfg ty b s0 ?st k lat, OF s0 assms(4)] by blast
  have out: "0 < calls s" "decides b (?st (calls s - 1)) r" "\<forall>i. i + 1 < calls s \<longrightarrow> quiet b (?st i)"
    using start_outcome [of cfg ty b s0 "k + 1" lat ?st r s, OF s0 run] assms(3) by auto
  let ?j = "calls s - 1"
  have "?j \<le> k"
  proof (rule ccontr)
    assume "\<not> ?j \<le> k"
    then have "k + 1 < calls s" by linarith
    with out(3) assms(4) show False by blast
  qed
  moreover have "\<exists>res. scan_polling_handler (k + 1) parse lat statuses api scanId cfg ty = Some res \<and>
      cr_ending res = Exit (polling_exit_code (?st ?j))"
  proof -
    have "(case r of Inr _ \<Rightarrow> 0 | Inl e \<Rightarrow> if err_name e = ''BreakpointException'' then 50 else 1) =
        polling_exit_code (?st ?j)"
      by (rule decides_exit_code [OF out(2)]) (use assms(5) in blast)
    then show ?thesis
      using assms(1) s0 run
      by (cases r) (auto simp: scan_polling_handler_def failed_def finished_def Let_def split: if_splits)
  qed
  moreover have "\<forall>i < ?j. quiet b (?st i)" using out(3) by auto
  moreover have "\<exists>e. ?st ?j = Inl e \<and> transient e" if "quiet b (?st ?j)"
    using that out(2) by (cases "?st ?j") (auto simp: quiet_def split: if_splits)
  ultimately show ?thesis by blast
qed


text \<open>
  Headers given to the command that starts a discovery do not arrive: the discovery is created with
  headers named 0, 1, 2 and so on, each with a whole line as its value.
\<close>

theorem discovery_command_headers:
  assumes "new_client parse (rest_options_of (da_api a)) = Inr c" and "da_header a = Some ls"
    and "\<not> truthy (da_archive a)"
  shows "\<exists>body. snd (run_discovery_handler parse version service a) =
      [disc_req POST (''/api/v2/projects/'' @ da_project a @ ''/discoveries'') (Some (Discovery_Body body))] \<and>
    map (\<lambda>h. (hd_name h, hd_value h)) (the (db_headers body)) = zip (map nat_str [0 ..< length ls]) ls"
  using assms
  by (auto simp: run_discovery_handler_def create_discovery_def prepareConfig_def apply_default_settings_def
      explore_discovery_def discovery_config_of_def guarded_def io_bind_def lift_res_def send_def Let_def
      header_list_def split_def zip_map1 o_def split: sum.splits)


section \<open>Witnesses\<close>

definition sample_api :: api_args where
  "sample_api = \<lparr>aa_api = ''https://app'', aa_token = ''t'', aa_insecure = False, aa_proxyBright = None,
     aa_proxy = None, aa_timeout = None\<rparr>"

definition sample_client :: client where
  "sample_client = \<lparr>cl_baseURL = ''https://app'', cl_timeout = None,
     cl_agents = \<lparr>httpAgent = Http_Agent, httpsAgent = Https_Agent True\<rparr>, cl_authorization = ''Api-Key t''\<rparr>"

lemma new_client_sample: "new_client parse (rest_options_of sample_api) = Inr sample_client"
  by (simp add: new_client_def rest_options_of_def sample_api_def sample_client_def)

theorem scan_polling_exit_code_witness:
  "\<exists>res. scan_polling_handler (0 + 1) sample_url (\<lambda>_. 0)
       (\<lambda>_ _ _. Inr \<lparr>scan_status = RUNNING, numberOfIssues = (\<lambda>_. 1)\<rparr>) sample_api ''x''
       \<lparr>cfg_timeout = None, cfg_interval = None\<rparr> ''any'' = Some res \<and> cr_ending res = Exit 50"
proof -
  let ?cfg = "\<lparr>cfg_timeout = None, cfg_interval = None\<rparr>"
  let ?st = "\<lambda>(_::client) (_::string) (_::nat). Inr \<lparr>scan_status = RUNNING, numberOfIssues = (\<lambda>_. 1)\<rparr> :: scan_state js_result"
  have b: "create_breakpoint ''any'' = Some LOW" by (simp add: create_breakpoint_def)
  have d: "due ?cfg = None" by (simp add: due_def)
  have "isExcepted LOW \<lparr>scan_status = RUNNING, numberOfIssues = (\<lambda>_. 1)\<rparr>" by (auto simp: isExcepted_iff)
  then have q: "\<not> quiet LOW (?st sample_client ''x'' 0)" by (simp add: quiet_def)
  have n: "\<forall>i e. ?st sample_client ''x'' i = Inl e \<longrightarrow> err_name e \<noteq> ''BreakpointException''" by simp
  from scan_polling_exit_code [of sample_url sample_api sample_client "''any''" LOW ?cfg ?st "''x''" 0 "\<lambda>_. 0",
      OF new_client_sample b d q n]
  show ?thesis by (auto simp: polling_exit_code_def isRedundant_def)
qed

definition sample_scan_args :: scan_args where
  "sample_scan_args = \<lparr>sa_api = sample_api, sa_name = ''n'', sa_test = None, sa_module = None, sa_auth = None,
     sa_project = None, sa_template = None, sa_bucket = None, sa_hostFilter = None, sa_header = Some [[]],
     sa_crawler = Some [''https://a''], sa_archive = None, sa_repeater = None, sa_smart = None, sa_param = None,
     sa_concurrency = Some 10, sa_excludeEntryPoint = None, sa_excludeParam = None, sa_entrypoint = None\<rparr>"


definition sample_discovery_args :: discovery_args where
  "sample_discovery_args = \<lparr>da_api = sample_api, da_project = ''p'', da_name = ''n'', da_auth = None, da_repeater = None,
     da_archive = None, da_crawler = Some [''https://a''], da_hostFilter = None, da_header = Some [''a: b''],
     da_smart = None, da_crawlParentSubdomains = False, da_concurrency = Some 10, da_interactionsDepth = 3\<rparr>"

theorem discovery_command_headers_witness:
  "\<exists>q body. snd (run_discovery_handler sample_url ''1'' (\<lambda>_ _. Inl (mk_error [])) sample_discovery_args) = [q] \<and>
     req_body q = Some (Discovery_Body body) \<and>
     map (\<lambda>h. (hd_name h, hd_value h)) (the (db_headers body)) = [(''0'', ''a: b'')]"
proof -
  have 1: "new_client sample_url (rest_options_of (da_api sample_discovery_args)) = Inr sample_client"
    by (simp add: sample_discovery_args_def new_client_sample)
  have 2: "da_header sample_discovery_args = Some [''a: b'']" by (simp add: sample_discovery_args_def)
  have 3: "\<not> truthy (da_archive sample_discovery_args)" by (simp add: sample_discovery_args_def)
  have "nat_str 0 = ''0''" by code_simp
  with discovery_command_headers [of sample_url, OF 1 2 3, of "''1''" "\<lambda>_ _. Inl (mk_error [])"]
  show ?thesis by (auto simp: disc_req_def)
qed

end
