(* ===== verification/Repeater_Command.thy ===== *)
theory Repeater_Command
  imports Commands Repeater
begin

text \<open>
  The command \<open>repeater\<close> (\<open>src/Commands/RunRepeater.ts\<close>): coercions and checks of its arguments, the
  options it registers for the executors and for the connection, and its handler over the launcher.
\<close>

section \<open>Arguments\<close>

text \<open>The lists may come from an environment variable, then as a single string.\<close>

definition split_single :: "string list \<Rightarrow> string list" where
  "split_single arg =
     (case arg of
        [x] \<Rightarrow> if str_includes x '' '' then split_on '' '' (trim x) else arg
      | _ \<Rightarrow> arg)"

text \<open>An array argument: \<open>[undefined]\<close>, or its elements.\<close>

datatype array_arg = Undefined_Element | Elements "string list"

definition coerce_domains :: "array_arg \<Rightarrow> string list option" where
  "coerce_domains arg =
     (case arg of
        Undefined_Element \<Rightarrow> None
      | Elements xs \<Rightarrow> if xs = [] then None else Some (split_single xs))"

definition coerce_domains_bypass :: "array_arg \<Rightarrow> string list option" where
  "coerce_domains_bypass arg =
     (case arg of Undefined_Element \<Rightarrow> None | Elements xs \<Rightarrow> Some (split_single xs))"

definition no_proxy_default :: "string option \<Rightarrow> string list option" where
  "no_proxy_default NO_PROXY = map_option (\<lambda>v. map trim (split_on '','' (trim v))) NO_PROXY"

record cert_input =
  ci_path :: "string option"
  ci_hostname :: "string option"
  ci_passphrase :: "string option"
  ci_port :: "string option"

definition cert_error :: "string \<Rightarrow> string" where
  "cert_error m = ''Error during \"repeater\": '' @ m"

fun certs_of :: "(string \<Rightarrow> string) \<Rightarrow> cert_input list \<Rightarrow> cert list coerced" where
  "certs_of norm_path [] = Coerced_To []"
| "certs_of norm_path (c # cs) =
     (if \<not> truthy (ci_path c)
      then Coercion_Exits 1 (cert_error ''Specify the path to your client certificate file.'')
      else if \<not> truthy (ci_hostname c)
      then Coercion_Exits 1 (cert_error ''Specify the hostname (without protocol and port) of the request URL for which you want to use the certificate.'')
      else case certs_of norm_path cs of
        Coerced_To xs \<Rightarrow>
          Coerced_To (\<lparr>cert_path = norm_path (the (ci_path c)), cert_hostname = the (ci_hostname c),
                       cert_passphrase = ci_passphrase c, cert_port = ci_port c\<rparr> # xs)
      | other \<Rightarrow> other)"

definition coerce_certs ::
  "(string \<Rightarrow> cert_input js_result) \<Rightarrow> (string \<Rightarrow> string) \<Rightarrow> string list \<Rightarrow> cert list coerced"
where
  "coerce_certs json_parse norm_path args =
     (case parse_all json_parse args of Inl e \<Rightarrow> Coercion_Throws e | Inr cs \<Rightarrow> certs_of norm_path cs)"

datatype cacert = Cacert_Flag bool | Cacert_Path string

record repeater_args =
  ra_id :: string
  ra_token :: string
  ra_timeout :: "nat option"
  ra_header :: "(string, string) store option"
  ra_headers :: "(string, string) store option"
  ra_cacert :: cacert
  ra_cert :: "cert list option"
  ra_scripts :: "(string, string) store option"
  ra_experimentalConnectionReuse :: bool
  ra_ntlm :: bool
  ra_kerberos :: bool
  ra_kerberosDomains :: "string list option"
  ra_kerberosCredentials :: "string option"
  ra_kerberosDelegation :: bool
  ra_daemon :: bool
  ra_run :: bool
  ra_remove :: bool
  ra_proxyDomains :: "string list option"
  ra_proxyDomainsBypass :: "string list option"
  ra_proxy :: "string option"
  ra_proxyBright :: "string option"
  ra_proxyTarget :: "string option"
  ra_repeaterServer :: string
  ra_insecure :: bool

definition domains_ok :: "string list option \<Rightarrow> bool" where
  "domains_ok ds = list_all (\<lambda>d. \<not> str_includes d '','') (case ds of None \<Rightarrow> [] | Some xs \<Rightarrow> xs)"

definition check_repeater_args :: "repeater_args \<Rightarrow> bool js_result" where
  "check_repeater_args a =
     bind_res (isShortUUID (ra_id a)) (\<lambda>short.
     bind_res (if short then Inr True else isUUID (ra_id a)) (\<lambda>valid.
       if \<not> valid
       then Inl (mk_error ''Option --id has wrong value. Please ensure that --id option has a valid ID.'')
       else if \<not> domains_ok (ra_proxyDomains a)
       then Inl (mk_error ''Option --proxy-domains has a wrong value.Please ensure that --proxy-domains option has space separated list of domain values'')
       else if \<not> domains_ok (ra_proxyDomainsBypass a)
       then Inl (mk_error ''Option --proxy-domain-bypass has wrong value.Please ensure that --proxy-domain-bypass option has space separated list of domain values'')
       else Inr True))"


section \<open>Registered options\<close>

definition whitelist :: "whitelist_mime list" where
  "whitelist = map (\<lambda>(t, b). \<lparr>wm_type = t, wm_allowTruncation = Some b\<rparr>)
    [(''text/html'', False), (''text/plain'', True), (''text/css'', False), (''text/javascript'', False),
     (''text/markdown'', True), (''text/xml'', False), (''application/javascript'', False),
     (''application/x-javascript'', False), (''application/json'', False), (''application/xml'', False),
     (''application/x-www-form-urlencoded'', False), (''application/msgpack'', False),
     (''application/ld+json'', False), (''application/graphql'', False)]"

text \<open>An unlimited body size (\<open>Infinity\<close>) is no bound.\<close>

definition executor_options_of :: "repeater_args \<Rightarrow> executor_options" where
  "executor_options_of a =
     \<lparr>xo_timeout = ra_timeout a, xo_proxyUrl = nullish (ra_proxyTarget a) (ra_proxy a),
      xo_headers = map_option (map (\<lambda>(k, v). (k, One v))) (nullish (ra_header a) (ra_headers a)),
      xo_certs = ra_cert a, xo_whitelistMimes = Some whitelist, xo_maxBodySize = None,
      xo_maxContentLength = Some 100,
      xo_reuseConnection = (ra_ntlm a \<or> ra_experimentalConnectionReuse a),
      xo_proxyDomains = ra_proxyDomains a, xo_proxyDomainsBypass = ra_proxyDomainsBypass a,
      xo_kerberos = (if ra_kerberos a
        then Some \<lparr>kb_enabled = True, kb_domains = ra_kerberosDomains a, kb_credentials = ra_kerberosCredentials a,
                   kb_delegation = Some (ra_kerberosDelegation a)\<rparr>
        else None)\<rparr>"

record server_options =
  so_uri :: string
  so_token :: string
  so_connectTimeout :: "nat option"
  so_proxyUrl :: "string option"
  so_insecure :: bool

definition server_options_of :: "repeater_args \<Rightarrow> server_options" where
  "server_options_of a = \<lparr>so_uri = ra_repeaterServer a, so_token = ra_token a, so_connectTimeout = ra_timeout a,
     so_proxyUrl = nullish (ra_proxyBright a) (ra_proxy a), so_insecure = ra_insecure a\<rparr>"


section \<open>Handler\<close>

datatype launcher_call =
  Load_Certs "string option" | Load_Scripts "(string, string) store" | Uninstall | Install | Run string bool | Close

text \<open>The calls made, with \<open>perform\<close> for how the launcher answers them, and the result.\<close>

definition await_call ::
  "(launcher_call \<Rightarrow> unit js_result) \<Rightarrow> launcher_call \<Rightarrow> (launcher_call, unit) io"
where
  "await_call perform = send perform"

definition handler_setup :: "(launcher_call \<Rightarrow> unit js_result) \<Rightarrow> repeater_args \<Rightarrow> (launcher_call, unit) io" where
  "handler_setup perform a =
     io_bind (case ra_cacert a of
          Cacert_Flag False \<Rightarrow> lift_res (Inr ())
        | Cacert_Flag True \<Rightarrow> await_call perform (Load_Certs None)
        | Cacert_Path p \<Rightarrow> if p = [] then lift_res (Inr ()) else await_call perform (Load_Certs (Some p))) (\<lambda>_.
       case ra_scripts a of None \<Rightarrow> lift_res (Inr ()) | Some sc \<Rightarrow> await_call perform (Load_Scripts sc))"

definition run_repeater_handler ::
  "(launcher_call \<Rightarrow> unit js_result) \<Rightarrow> repeater_args \<Rightarrow> command_result \<times> launcher_call list"
where
  "run_repeater_handler perform a =
     (let (r, calls) =
        io_bind (handler_setup perform a) (\<lambda>_.
          if ra_remove a then io_bind (await_call perform Uninstall) (\<lambda>_. lift_res (Inr (finished [] [] (Exit_Code 0))))
          else if ra_daemon a then io_bind (await_call perform Install) (\<lambda>_. lift_res (Inr (finished [] [] (Exit_Code 0))))
          else
            (case perform (Run (ra_id a) (ra_run a)) of
               Inr _ \<Rightarrow> (Inr (finished [] [] Returns), [Run (ra_id a) (ra_run a)])
             | Inl e \<Rightarrow>
                 (case perform Close of
                    Inl x \<Rightarrow> (Inl x, [Run (ra_id a) (ra_run a), Close])
                  | Inr _ \<Rightarrow> (Inr (failed ''repeater'' e Exit_Code), [Run (ra_id a) (ra_run a), Close]))))
      in (case r of Inl e \<Rightarrow> finished [] [] (Rejects e) | Inr x \<Rightarrow> x, calls))"


section \<open>Properties\<close>

lemma split_single_not_Nil: "xs \<noteq> [] \<Longrightarrow> split_single xs \<noteq> []"
  by (auto simp: split_single_def split_on_not_Nil split: list.splits)

text \<open>
  With the environment variable \<open>NO_PROXY\<close> set, whatever its value, the option \<open>--proxy-domains\<close>
  cannot be used: the variable becomes the default of \<open>--proxy-domains-bypass\<close>, and an executor is not
  created when both lists are given.
\<close>

theorem no_proxy_blocks_proxy_domains:
  assumes "no_proxy_default (Some v) = Some ds" and "ra_proxyDomainsBypass a = coerce_domains_bypass (Elements ds)"
    and "ra_proxyDomains a = coerce_domains (Elements (d # ps))"
  shows "\<exists>e. new_executor (executor_options_of a) = Inl e"
proof -
  have "ds \<noteq> []" using assms(1) by (auto simp: no_proxy_default_def split_on_not_Nil)
  then show ?thesis
    using assms(2,3) split_single_not_Nil [of ds] split_single_not_Nil [of "d # ps"]
    by (simp add: new_executor_def executor_options_of_def coerce_domains_def coerce_domains_bypass_def)
qed

definition sample_repeater_args :: repeater_args where
  "sample_repeater_args = \<lparr>ra_id = ''4cQkHUuR6N'', ra_token = ''t'', ra_timeout = None, ra_header = None, ra_headers = None,
     ra_cacert = Cacert_Flag False, ra_cert = None, ra_scripts = None, ra_experimentalConnectionReuse = False,
     ra_ntlm = False, ra_kerberos = False, ra_kerberosDomains = None, ra_kerberosCredentials = None,
     ra_kerberosDelegation = False, ra_daemon = False, ra_run = False, ra_remove = False,
     ra_proxyDomains = Some [''a.b''], ra_proxyDomainsBypass = Some [''localhost''], ra_proxy = None,
     ra_proxyBright = None, ra_proxyTarget = None, ra_repeaterServer = ''wss://x'', ra_insecure = False\<rparr>"

theorem no_proxy_blocks_proxy_domains_witness:
  "\<exists>e. new_executor (executor_options_of sample_repeater_args) = Inl e"
proof -
  have d: "no_proxy_default (Some ''localhost'') = Some [''localhost'']" by code_simp
  have "split_single [''localhost''] = [''localhost'']" "split_single [''a.b''] = [''a.b'']" by code_simp+
  then show ?thesis
    by (intro no_proxy_blocks_proxy_domains [OF d, of _ "''a.b''" "[]"])
      (simp_all add: sample_repeater_args_def coerce_domains_def coerce_domains_bypass_def)
qed

end
