(* ===== verification/Traceroute.thy ===== *)
theory Traceroute
  imports Helpers "HOL-Library.Word"
begin

text \<open>
  Traceroute (\<open>src/Utils/Traceroute.ts\<close>) over ICMP, the only protocol the program uses it with: the packets
  and their identification over words, and the probing as a state machine.  The checksum functions
  belong to a third-party package and are parameters, as are the elapsed times that are printed.
\<close>

unbundle bit_operations_syntax

type_synonym byte = "8 word"

section \<open>Packets\<close>

definition firstByte :: "32 word \<Rightarrow> byte" where
  "firstByte value = ucast (value AND 0xff)"

definition secondByte :: "32 word \<Rightarrow> byte" where
  "secondByte value = ucast (drop_bit 8 (value AND 0xff00))"

record checksums =
  createChecksum :: "byte list \<Rightarrow> 16 word"
  writeChecksum :: "byte list \<Rightarrow> nat \<Rightarrow> 16 word \<Rightarrow> byte list"

definition createPingRequest :: "checksums \<Rightarrow> byte \<Rightarrow> 32 word \<Rightarrow> 32 word \<Rightarrow> nat \<Rightarrow> byte list" where
  "createPingRequest raw type identifier sequence packetSize =
     (let header = [if type = 0 then 0x08 else type, 0x00, 0x00, 0x00, secondByte identifier, firstByte identifier,
                    secondByte sequence, firstByte sequence];
          buffer = header @ replicate packetSize 0xff
      in writeChecksum raw buffer 2 (createChecksum raw buffer))"

definition out_of_range :: js_error where
  "out_of_range = \<lparr>err_name = ''RangeError'', err_message = ''The value of offset is out of range.'',
     err_code = Some ''ERR_OUT_OF_RANGE'', err_syscall = None, err_status = None, err_axios = False,
     err_data = None, err_error = None\<rparr>"

definition readUInt8 :: "byte list \<Rightarrow> nat \<Rightarrow> byte js_result" where
  "readUInt8 msg offset = (if offset < length msg then Inr (msg ! offset) else Inl out_of_range)"

definition readUInt16BE :: "byte list \<Rightarrow> nat \<Rightarrow> nat js_result" where
  "readUInt16BE msg offset =
     (if offset + 1 < length msg then Inr (256 * unat (msg ! offset) + unat (msg ! (offset + 1)))
      else Inl out_of_range)"

definition parseIdFromIcmpMessage :: "byte list \<Rightarrow> nat option js_result" where
  "parseIdFromIcmpMessage msg =
     bind_res (readUInt8 msg 20) (\<lambda>type.
       if type \<in> {3, 4, 5, 11} then
         let icmpIPOffset = 28 in
         if int (length msg) - icmpIPOffset < 20 then Inr None
         else bind_res (readUInt8 msg 28) (\<lambda>b.
           if b AND 0xf0 \<noteq> 0x40 then Inr None
           else
             let icmpIPLength = unat (b AND 0x0f) * 4 in
             if int (length msg) - icmpIPOffset - int icmpIPLength < 8 then Inr None
             else map_sum id Some (readUInt16BE msg (28 + icmpIPLength + 6)))
       else map_sum id Some (readUInt16BE msg 26))"


section \<open>Probing\<close>

record trace_options =
  to_amountProbes :: int
  to_maximumHops :: int
  to_packetSize :: nat

definition defaultHops :: int where
  "defaultHops = 64"

definition new_options :: "int option \<Rightarrow> int option \<Rightarrow> trace_options" where
  "new_options amountProbes hops =
     (let maximumHops = (case hops of None \<Rightarrow> defaultHops | Some h \<Rightarrow> if h = 0 then defaultHops else h) in
      \<lparr>to_amountProbes = (case amountProbes of None \<Rightarrow> 3 | Some p \<Rightarrow> p),
       to_maximumHops = (if maximumHops > 255 \<or> maximumHops < 1 then defaultHops else maximumHops),
       to_packetSize = 52\<rparr>)"

text \<open>
  \<open>tr_immediates\<close> are scheduled calls of \<open>sendPacket\<close>, \<open>tr_sending\<close> sends whose callback is due, \<open>tr_timers\<close>
  pending timers with the last one in the field \<open>timeout\<close>, if it has been set (\<open>tr_tracked\<close>);
  \<open>tr_lookups\<close> replies that wait for a host name.
\<close>

record trace =
  tr_port :: nat
  tr_ttl :: nat
  tr_probes :: nat
  tr_previousIP :: "string option"
  tr_sent :: "(nat \<times> nat) list"
  tr_out :: "string list"
  tr_result :: "bool js_result option"
  tr_immediates :: nat
  tr_sending :: nat
  tr_timers :: nat
  tr_tracked :: bool
  tr_lookups :: "string list"

definition new_trace :: trace where
  "new_trace = \<lparr>tr_port = 33433, tr_ttl = 1, tr_probes = 0, tr_previousIP = None, tr_sent = [], tr_out = [],
     tr_result = None, tr_immediates = 1, tr_sending = 0, tr_timers = 0, tr_tracked = False, tr_lookups = []\<rparr>"

definition sendPacket :: "trace_options \<Rightarrow> trace \<Rightarrow> trace" where
  "sendPacket opts s =
     (let s1 = (if to_amountProbes opts \<le> int (tr_probes s)
                then s\<lparr>tr_probes := 0, tr_ttl := Suc (tr_ttl s)\<rparr> else s);
          port = Suc (tr_port s1)
      in s1\<lparr>tr_probes := Suc (tr_probes s1), tr_port := port, tr_sent := tr_sent s1 @ [(tr_ttl s1, port)],
            tr_sending := Suc (tr_sending s1)\<rparr>)"

definition padStart :: "nat \<Rightarrow> string \<Rightarrow> string" where
  "padStart n t = replicate (n - length t) (CHR '' '') @ t"

definition reply_text :: "string \<Rightarrow> (string \<times> string option) option \<Rightarrow> trace \<Rightarrow> string" where
  "reply_text elapsedTime reply s =
     (let formattedTTL = padStart 3 (nat_str (tr_ttl s)); nl = [CHR 0x0A] in
      case reply of
        None \<Rightarrow> if tr_probes s = 1 then nl @ formattedTTL @ ''  * '' else ''* ''
      | Some (ip, symbolicAddress) \<Rightarrow>
          if ip = [] then (if tr_probes s = 1 then nl @ formattedTTL @ ''  * '' else ''* '')
          else if Some ip = tr_previousIP s then '' '' @ elapsedTime @ '' ''
          else nl @ (if tr_probes s = 1 then formattedTTL else replicate (length formattedTTL) (CHR '' '')) @ ''  '' @
               (if truthy symbolicAddress then the symbolicAddress else ip) @ '' ('' @ ip @ '')  '' @ elapsedTime @ '' '')"

definition handleReply :: "trace_options \<Rightarrow> string \<Rightarrow> string \<Rightarrow> (string \<times> string option) option \<Rightarrow> trace \<Rightarrow> trace" where
  "handleReply opts destinationIp elapsedTime reply s =
     (let s1 = (if tr_tracked s then s\<lparr>tr_timers := tr_timers s - 1, tr_tracked := False\<rparr> else s);
          s2 = s1\<lparr>tr_out := tr_out s1 @ [reply_text elapsedTime reply s1]\<rparr>;
          ip = map_option fst reply;
          reached = (ip = Some destinationIp)
      in if int (tr_probes s2) = to_amountProbes opts \<and> (reached \<or> to_maximumHops opts \<le> int (tr_ttl s2))
         then s2\<lparr>tr_out := tr_out s2 @ [[CHR 0x0A]],
                 tr_result := (case tr_result s2 of None \<Rightarrow> Some (Inr reached) | Some r \<Rightarrow> Some r)\<rparr>
         else s2\<lparr>tr_previousIP := ip, tr_immediates := Suc (tr_immediates s2)\<rparr>)"

definition afterSend :: "js_error option \<Rightarrow> trace \<Rightarrow> trace" where
  "afterSend err s =
     (let s1 = s\<lparr>tr_sending := tr_sending s - 1\<rparr> in
      case err of
        Some e \<Rightarrow> s1\<lparr>tr_result := (case tr_result s1 of None \<Rightarrow> Some (Inl e) | Some r \<Rightarrow> Some r)\<rparr>
      | None \<Rightarrow> s1\<lparr>tr_timers := Suc (tr_timers s1), tr_tracked := True\<rparr>)"

definition packet :: "checksums \<Rightarrow> trace_options \<Rightarrow> nat \<Rightarrow> byte list" where
  "packet raw opts port = createPingRequest raw 0 0 (word_of_nat port) (to_packetSize opts)"

definition on_message :: "byte list \<Rightarrow> string \<Rightarrow> trace \<Rightarrow> trace js_result" where
  "on_message buffer ip s =
     bind_res (parseIdFromIcmpMessage buffer) (\<lambda>port.
       Inr (if port = Some (tr_port s) then s\<lparr>tr_lookups := tr_lookups s @ [ip]\<rparr> else s))"

text \<open>
  Steps while the trace runs.  A message is taken for a reply if it carries the port of the packet sent
  last; it may come more than once and while the host name of an earlier one is looked up.
\<close>

inductive trace_step :: "trace_options \<Rightarrow> string \<Rightarrow> trace \<Rightarrow> trace \<Rightarrow> bool" for opts destinationIp where
  immediate: "tr_result s = None \<Longrightarrow> 0 < tr_immediates s \<Longrightarrow>
     trace_step opts destinationIp s (sendPacket opts (s\<lparr>tr_immediates := tr_immediates s - 1\<rparr>))"
| sent: "tr_result s = None \<Longrightarrow> 0 < tr_sending s \<Longrightarrow> trace_step opts destinationIp s (afterSend err s)"
| message: "tr_result s = None \<Longrightarrow> on_message buffer ip s = Inr s' \<Longrightarrow> trace_step opts destinationIp s s'"
| looked_up: "tr_result s = None \<Longrightarrow> tr_lookups s = pre @ ip # post \<Longrightarrow>
     trace_step opts destinationIp s
       (handleReply opts destinationIp elapsed (Some (ip, name)) (s\<lparr>tr_lookups := pre @ post\<rparr>))"
| timed_out: "tr_result s = None \<Longrightarrow> tr_tracked s \<Longrightarrow> 0 < tr_timers s \<Longrightarrow>
     trace_step opts destinationIp s (handleReply opts destinationIp elapsed None s)"
| stray_timer: "tr_result s = None \<Longrightarrow> (if tr_tracked s then 1 else 0) < tr_timers s \<Longrightarrow>
     trace_step opts destinationIp s (handleReply opts destinationIp elapsed None (s\<lparr>tr_timers := tr_timers s - 1\<rparr>))"

text \<open>
  The undisturbed course: every packet is sent and gets one outcome, a reply or a timeout, before the
  next.  \<open>answers\<close> gives the outcome by number of the packet.
\<close>

definition probe ::
  "trace_options \<Rightarrow> string \<Rightarrow> (nat \<Rightarrow> (string \<times> string option) option) \<Rightarrow> trace \<Rightarrow> trace"
where
  "probe opts destinationIp answers s =
     (let s1 = afterSend None (sendPacket opts (s\<lparr>tr_immediates := tr_immediates s - 1\<rparr>))
      in handleReply opts destinationIp [] (answers (length (tr_sent s1))) s1)"

fun trace_run ::
  "nat \<Rightarrow> trace_options \<Rightarrow> string \<Rightarrow> (nat \<Rightarrow> (string \<times> string option) option) \<Rightarrow> trace \<Rightarrow> trace option"
where
  "trace_run 0 opts destinationIp answers s = None"
| "trace_run (Suc n) opts destinationIp answers s =
     (let s' = probe opts destinationIp answers s in
      if tr_result s' \<noteq> None then Some s' else trace_run n opts destinationIp answers s')"

text \<open>\<open>execute\<close>: the destination is looked up unless it is an address; if that fails, its name stands for it.\<close>

definition resolveDestination :: "(string \<Rightarrow> bool) \<Rightarrow> (string \<Rightarrow> string list js_result) \<Rightarrow> string \<Rightarrow> string" where
  "resolveDestination isIP resolve hostname =
     (if isIP hostname then hostname
      else case resolve hostname of
        Inr ips \<Rightarrow> (case ips of [] \<Rightarrow> ''undefined'' | ip # _ \<Rightarrow> ip)
      | Inl _ \<Rightarrow> hostname)"

definition trace_banner :: "string \<Rightarrow> string \<Rightarrow> trace_options \<Rightarrow> string" where
  "trace_banner hostname ip opts =
     ''traceroute to '' @ hostname @ '' ('' @ ip @ ''), '' @ nat_str (nat (to_maximumHops opts)) @ '' hops max, '' @
     nat_str (to_packetSize opts) @ '' byte packets''"

definition execute_trace ::
  "(string \<Rightarrow> bool) \<Rightarrow> (string \<Rightarrow> string list js_result) \<Rightarrow> nat \<Rightarrow> trace_options \<Rightarrow> string \<Rightarrow>
     (string \<Rightarrow> nat \<Rightarrow> (string \<times> string option) option) \<Rightarrow> string \<times> trace option"
where
  "execute_trace isIP resolve n opts hostname answers =
     (let ip = resolveDestination isIP resolve hostname
      in (trace_banner hostname ip opts, trace_run n opts ip (answers ip) new_trace))"


section \<open>Packets are recognised\<close>

definition writes_checksum :: "checksums \<Rightarrow> bool" where
  "writes_checksum raw \<longleftrightarrow>
     (\<forall>buffer cs. 4 \<le> length buffer \<longrightarrow> take 2 (writeChecksum raw buffer 2 cs) = take 2 buffer \<and>
        drop 4 (writeChecksum raw buffer 2 cs) = drop 4 buffer)"

lemma byte_masks: "(0xff :: 32 word) = mask 8" "(0xff00 :: 32 word) = push_bit 8 (mask 8)"
  by (simp_all add: mask_eq_exp_minus_1 push_bit_eq_mult)

lemma unat_firstByte: "unat (firstByte v) = unat v mod 256"
proof -
  have "firstByte v = ucast v"
    unfolding firstByte_def byte_masks(1) by (rule bit_eqI) (auto simp: bit_unsigned_iff bit_and_iff bit_mask_iff)
  then show ?thesis by (simp add: unsigned_ucast_eq take_bit_eq_mod)
qed

lemma unat_secondByte: "unat (secondByte v) = unat v div 256 mod 256"
proof -
  have "secondByte v = ucast (drop_bit 8 v)"
    unfolding secondByte_def byte_masks(2)
    by (rule bit_eqI) (auto simp: bit_unsigned_iff bit_and_iff bit_drop_bit_eq bit_push_bit_iff bit_mask_iff)
  then show ?thesis by (simp add: unsigned_ucast_eq take_bit_eq_mod drop_bit_eq_div unat_div_distrib)
qed

lemma bytes_of_port:
  "256 * unat (secondByte (word_of_nat n)) + unat (firstByte (word_of_nat n)) = n mod 65536"
proof -
  have "256 * (m div 256 mod 256) + m mod 256 = m mod 65536" for m :: nat
    using mod_mult2_eq [of m 256 256] by simp
  then have "256 * unat (secondByte (word_of_nat n)) + unat (firstByte (word_of_nat n)) = n mod 4294967296 mod 65536"
    by (simp add: unat_firstByte unat_secondByte unat_of_nat)
  also have "\<dots> = n mod 65536" by (rule mod_mod_cancel) simp
  finally show ?thesis .
qed

lemma packet_tail:
  assumes "writes_checksum raw"
  shows "drop 4 (packet raw opts port) =
    [0, 0, secondByte (word_of_nat port), firstByte (word_of_nat port)] @ replicate (to_packetSize opts) 0xff"
proof -
  have "firstByte 0 = 0" "secondByte 0 = 0" by (simp_all add: firstByte_def secondByte_def)
  with assms show ?thesis by (simp add: packet_def createPingRequest_def Let_def writes_checksum_def)
qed

lemma packet_length: "writes_checksum raw \<Longrightarrow> length (packet raw opts port) = 8 + to_packetSize opts"
  using arg_cong [OF packet_tail, of raw length opts port] by simp

lemma packet_port_bytes:
  assumes "writes_checksum raw"
  shows "256 * unat (packet raw opts port ! 6) + unat (packet raw opts port ! 7) = port mod 65536"
proof -
  have "packet raw opts port ! (4 + i) = drop 4 (packet raw opts port) ! i" if "i < 4" for i
    using that packet_length [OF assms, of opts port] by simp
  from this [of 2] this [of 3] show ?thesis by (simp add: packet_tail [OF assms] bytes_of_port)
qed

text \<open>Messages of the network that follow a packet: an echo reply, and an error that quotes the packet.\<close>

definition echo_reply :: "byte list \<Rightarrow> byte list \<Rightarrow> byte list \<Rightarrow> byte list" where
  "echo_reply ip_header head req = ip_header @ [0] @ head @ drop 4 req"

definition icmp_error :: "byte list \<Rightarrow> byte \<Rightarrow> byte list \<Rightarrow> nat \<Rightarrow> byte list \<Rightarrow> nat \<Rightarrow> byte list \<Rightarrow> byte list" where
  "icmp_error ip_header type head ihl quoted_header n req =
     ip_header @ [type] @ head @ [0x40 OR word_of_nat ihl] @ quoted_header @ take n req"

lemma parse_echo_reply:
  assumes "writes_checksum raw" "length ip_header = 20" "length head = 3"
  shows "parseIdFromIcmpMessage (echo_reply ip_header head (packet raw opts port)) = Inr (Some (port mod 65536))"
proof -
  let ?m = "echo_reply ip_header head (packet raw opts port)"
  have len: "length ?m = 28 + to_packetSize opts" and type: "?m ! 20 = 0"
    using assms packet_length [OF assms(1), of opts port] by (auto simp: echo_reply_def nth_append)
  have "?m ! (24 + i) = drop 4 (packet raw opts port) ! i" for i
    using assms by (simp add: echo_reply_def nth_append)
  from this [of 2] this [of 3] have "256 * unat (?m ! 26) + unat (?m ! 27) = port mod 65536"
    by (simp add: packet_tail [OF assms(1)] bytes_of_port)
  with len type show ?thesis by (simp add: parseIdFromIcmpMessage_def readUInt8_def readUInt16BE_def)
qed

lemma ihl_bits:
  assumes "5 \<le> ihl" "ihl \<le> 15"
  shows "((0x40 :: byte) OR word_of_nat ihl) AND 0xf0 = 0x40" "unat (((0x40 :: byte) OR word_of_nat ihl) AND 0x0f) = ihl"
proof -
  have "ihl = 5 \<or> ihl = 6 \<or> ihl = 7 \<or> ihl = 8 \<or> ihl = 9 \<or> ihl = 10 \<or> ihl = 11 \<or> ihl = 12 \<or> ihl = 13 \<or>
    ihl = 14 \<or> ihl = 15" using assms by presburger
  then show "((0x40 :: byte) OR word_of_nat ihl) AND 0xf0 = 0x40"
    "unat (((0x40 :: byte) OR word_of_nat ihl) AND 0x0f) = ihl" by auto
qed

lemma parse_icmp_error:
  assumes "writes_checksum raw" "length ip_header = 20" "length head = 7" "type \<in> {3, 4, 5, 11}"
    and "5 \<le> ihl" "ihl \<le> 15" "Suc (length quoted_header) = 4 * ihl" "8 \<le> n"
  shows "parseIdFromIcmpMessage (icmp_error ip_header type head ihl quoted_header n (packet raw opts port)) =
    Inr (Some (port mod 65536))"
proof -
  let ?p = "packet raw opts port"
  let ?m = "icmp_error ip_header type head ihl quoted_header n ?p"
  let ?b = "(0x40 :: byte) OR word_of_nat ihl"
  have len: "length ?m = 28 + 4 * ihl + length (take n ?p)" and n: "8 \<le> length (take n ?p)"
    using assms packet_length [OF assms(1), of opts port] by (auto simp: icmp_error_def)
  have t: "?m ! 20 = type" and b: "?m ! 28 = ?b"
    using assms(2,3) by (simp_all add: icmp_error_def nth_append)
  have nth: "?m ! (28 + 4 * ihl + i) = ?p ! i" if "i < 8" for i
  proof -
    have "?m = (ip_header @ [type] @ head @ [?b] @ quoted_header) @ take n ?p" by (simp add: icmp_error_def)
    moreover have "length (ip_header @ [type] @ head @ [?b] @ quoted_header) = 28 + 4 * ihl" using assms by simp
    ultimately have "?m ! (28 + 4 * ihl + i) = take n ?p ! i" by (simp only: nth_append_length_plus flip: \<open>length _ = 28 + 4 * ihl\<close>)
    with that \<open>8 \<le> n\<close> show ?thesis by simp
  qed
  have "256 * unat (?m ! (34 + 4 * ihl)) + unat (?m ! (35 + 4 * ihl)) = port mod 65536"
    using nth [of 6] nth [of 7] packet_port_bytes [OF assms(1), of opts port] by (simp add: add.commute add.left_commute)
  moreover have "28 < length ?m" "\<not> int (length ?m) - 28 < 20" "\<not> int (length ?m) - 28 - int (4 * ihl) < 8"
    using len n assms(5) by auto
  ultimately show ?thesis
    using t b len n assms(4) ihl_bits [OF assms(5,6)]
    by (simp add: parseIdFromIcmpMessage_def readUInt8_def readUInt16BE_def Let_def algebra_simps)
qed

text \<open>C32.  Packets are told apart by the port they carry.  An echo reply to a packet and an ICMP error that
  quotes one, with or without options in the quoted header, are taken for the reply to the packet sent
  last exactly if the port of the packet, in 16 bits, is the current one; so a packet recognises its own
  replies as long as the port fits in 16 bits, and none after that.\<close>

theorem reply_recognised:
  fixes s ip port
  defines "seen \<equiv> Inr (if port mod 65536 = tr_port s then s\<lparr>tr_lookups := tr_lookups s @ [ip]\<rparr> else s)"
  assumes "writes_checksum raw" and "length ip_header = 20" and "length reply_head = 3" and "length error_head = 7"
    and "type \<in> {3, 4, 5, 11}" and "5 \<le> ihl" "ihl \<le> 15" "Suc (length quoted_header) = 4 * ihl" and "8 \<le> n"
  shows "on_message (echo_reply ip_header reply_head (packet raw opts port)) ip s = seen \<and>
    on_message (icmp_error ip_header type error_head ihl quoted_header n (packet raw opts port)) ip s = seen"
  using assms by (simp add: on_message_def parse_echo_reply parse_icmp_error)

definition plain_checksums :: checksums where
  "plain_checksums = \<lparr>createChecksum = (\<lambda>b. word_of_nat (sum_list (map unat b))),
     writeChecksum = (\<lambda>b n cs. take n b @ [ucast (drop_bit 8 cs), ucast cs] @ drop (n + 2) b)\<rparr>"

lemma plain_checksums_ok: "writes_checksum plain_checksums"
  by (auto simp: writes_checksum_def plain_checksums_def)

theorem reply_recognised_witness:
  "on_message (icmp_error (replicate 20 0) 11 (replicate 7 0) 6 (replicate 23 0) 8
       (packet plain_checksums (new_options None None) 33434)) ''10.0.0.1'' (sendPacket (new_options None None) new_trace) =
     Inr ((sendPacket (new_options None None) new_trace)\<lparr>tr_lookups := [''10.0.0.1'']\<rparr>)"
  using reply_recognised [OF plain_checksums_ok, of "replicate 20 0" "replicate 3 0" "replicate 7 0" 11 6 "replicate 23 0" 8
      "new_options None None" 33434 "''10.0.0.1''" "sendPacket (new_options None None) new_trace"]
  by (simp add: sendPacket_def new_trace_def new_options_def)


section \<open>The undisturbed course\<close>

text \<open>What \<open>k\<close> probes without a stop lead to, and when the probe after \<open>j\<close> others stops the trace.\<close>

definition course :: "nat \<Rightarrow> nat \<Rightarrow> trace \<Rightarrow> bool" where
  "course P k s \<longleftrightarrow> tr_port s = 33433 + k \<and> tr_sent s = map (\<lambda>i. (1 + i div P, 33434 + i)) [0..<k] \<and>
     (case k of 0 \<Rightarrow> tr_ttl s = 1 \<and> tr_probes s = 0 | Suc j \<Rightarrow> tr_ttl s = 1 + j div P \<and> tr_probes s = 1 + j mod P)"

definition from_dest :: "string \<Rightarrow> (string \<times> string option) option \<Rightarrow> bool" where
  "from_dest dest reply \<longleftrightarrow> map_option fst reply = Some dest"

definition stops_after ::
  "nat \<Rightarrow> int \<Rightarrow> string \<Rightarrow> (nat \<Rightarrow> (string \<times> string option) option) \<Rightarrow> nat \<Rightarrow> bool"
where
  "stops_after P H dest answers j \<longleftrightarrow>
     Suc (j mod P) = P \<and> (from_dest dest (answers (Suc j)) \<or> H \<le> int (Suc (j div P)))"

lemma course_new [simp]: "course P 0 new_trace"
  by (simp add: course_def new_trace_def)

lemma course_send:
  assumes "course P k s" "to_amountProbes opts = int P" "1 \<le> P"
  shows "course P (Suc k) (sendPacket opts s)"
proof (cases k)
  case (Suc j)
  have "j mod P < P" using assms(3) by simp
  with Suc assms show ?thesis by (auto simp: course_def sendPacket_def Let_def mod_Suc div_Suc)
qed (use assms in \<open>auto simp: course_def sendPacket_def Let_def\<close>)

lemma course_frame:
  "tr_port s' = tr_port s \<Longrightarrow> tr_sent s' = tr_sent s \<Longrightarrow> tr_ttl s' = tr_ttl s \<Longrightarrow> tr_probes s' = tr_probes s \<Longrightarrow>
   course P k s' = course P k s"
  by (cases k) (simp_all add: course_def)

lemma course_upd [simp]:
  "course P k (s\<lparr>tr_immediates := n\<rparr>) = course P k s" "course P k (afterSend err s) = course P k s"
  by (rule course_frame; simp add: afterSend_def Let_def split: option.split)+

lemma handleReply_keeps:
  "tr_port (handleReply opts dest el r s) = tr_port s" "tr_sent (handleReply opts dest el r s) = tr_sent s"
  "tr_ttl (handleReply opts dest el r s) = tr_ttl s" "tr_probes (handleReply opts dest el r s) = tr_probes s"
  by (simp_all add: handleReply_def Let_def)

lemma handleReply_result:
  "tr_result s = None \<Longrightarrow> tr_result (handleReply opts dest el r s) =
     (if int (tr_probes s) = to_amountProbes opts \<and> (from_dest dest r \<or> to_maximumHops opts \<le> int (tr_ttl s))
      then Some (Inr (from_dest dest r)) else None)"
  by (simp add: handleReply_def Let_def from_dest_def)

lemma course_probe:
  assumes "course P k s" "tr_result s = None" "to_amountProbes opts = int P" "1 \<le> P"
  shows "course P (Suc k) (probe opts dest answers s)"
    and "tr_result (probe opts dest answers s) =
      (if stops_after P (to_maximumHops opts) dest answers k
       then Some (Inr (from_dest dest (answers (Suc k)))) else None)"
proof -
  let ?t = "sendPacket opts (s\<lparr>tr_immediates := tr_immediates s - 1\<rparr>)"
  have c: "course P (Suc k) ?t"
    using assms by (intro course_send) simp_all
  then have c': "course P (Suc k) (afterSend None ?t)"
    by simp
  then show "course P (Suc k) (probe opts dest answers s)"
    unfolding probe_def Let_def course_frame [OF handleReply_keeps] .
  have "tr_result (afterSend None ?t) = None"
    using assms(2) by (simp add: afterSend_def sendPacket_def Let_def)
  with c' assms(3) show "tr_result (probe opts dest answers s) =
      (if stops_after P (to_maximumHops opts) dest answers k
       then Some (Inr (from_dest dest (answers (Suc k)))) else None)"
    by (auto simp: probe_def Let_def handleReply_result course_def stops_after_def)
qed

lemma trace_run_stops:
  assumes "course P k s" "tr_result s = None" "to_amountProbes opts = int P" "1 \<le> P"
    and "k \<le> j" "j < k + n" "stops_after P (to_maximumHops opts) dest answers j"
    and "\<And>i. k \<le> i \<Longrightarrow> i < j \<Longrightarrow> \<not> stops_after P (to_maximumHops opts) dest answers i"
  shows "\<exists>s'. trace_run n opts dest answers s = Some s' \<and> course P (Suc j) s' \<and>
    tr_result s' = Some (Inr (from_dest dest (answers (Suc j))))"
  using assms
proof (induction n arbitrary: k s)
  case (Suc n)
  let ?s = "probe opts dest answers s"
  note pr = course_probe [OF Suc.prems(1-4), of dest answers]
  show ?case
  proof (cases "j = k")
    case True
    with pr Suc.prems(7) show ?thesis by simp
  next
    case False
    then have "\<not> stops_after P (to_maximumHops opts) dest answers k" using Suc.prems(5,8) by auto
    with pr have r: "tr_result ?s = None" by simp
    have "\<exists>s'. trace_run n opts dest answers ?s = Some s' \<and> course P (Suc j) s' \<and>
        tr_result s' = Some (Inr (from_dest dest (answers (Suc j))))"
      by (rule Suc.IH [OF pr(1) r Suc.prems(3,4)]) (use Suc.prems(5-8) False in auto)
    with r show ?thesis by simp
  qed
qed simp

lemma trace_course:
  assumes P: "to_amountProbes opts = int P" "1 \<le> P" and H: "to_maximumHops opts = int H" "1 \<le> H"
  shows "\<exists>s hops. trace_run (P * H) opts dest answers new_trace = Some s \<and> 1 \<le> hops \<and> hops \<le> H \<and>
    tr_sent s = map (\<lambda>i. (1 + i div P, 33434 + i)) [0..<P * hops] \<and>
    tr_result s = Some (Inr (from_dest dest (answers (P * hops)))) \<and>
    (hops < H \<longrightarrow> from_dest dest (answers (P * hops))) \<and>
    (\<forall>h\<in>{1..<hops}. \<not> from_dest dest (answers (P * h)))"
proof -
  let ?stop = "stops_after P (int H) dest answers"
  have last: "Suc (P * h - 1) = P * h" "(P * h - 1) mod P = P - 1" "(P * h - 1) div P = h - 1" if "1 \<le> h" for h
  proof -
    have e: "P * h - 1 = P * (h - 1) + (P - 1)" using that P(2) by (cases h) auto
    show "(P * h - 1) mod P = P - 1" "(P * h - 1) div P = h - 1"
      unfolding e using P(2) by (simp_all only: mod_mult_self4 div_mult_self4) simp_all
    show "Suc (P * h - 1) = P * h" using that P(2) by simp
  qed
  have stop: "?stop (P * h - 1) \<longleftrightarrow> from_dest dest (answers (P * h)) \<or> H \<le> h" if "1 \<le> h" for h
    using last [OF that] that P(2) by (auto simp: stops_after_def)
  define j where "j = (LEAST j. ?stop j)"
  have sj: "?stop j" and le: "j \<le> P * H - 1"
    using stop [OF H(2)] by (auto simp: j_def intro: LeastI Least_le)
  have first: "\<not> ?stop i" if "i < j" for i using that not_less_Least unfolding j_def by blast
  define hops where "hops = Suc (j div P)"
  have "Suc j = P * (j div P) + Suc (j mod P)" by simp
  moreover have "Suc (j mod P) = P" using sj by (simp add: stops_after_def)
  ultimately have j: "Suc j = P * hops" by (simp add: hops_def)
  then have hops: "1 \<le> hops" "j = P * hops - 1" using P(2) by (auto simp: hops_def)
  have "P * hops \<le> P * H" using le last(1) [OF H(2)] unfolding j [symmetric] by linarith
  then have H': "hops \<le> H" and jH: "j < P * H" using P(2) j by (simp, linarith)
  obtain s where "trace_run (P * H) opts dest answers new_trace = Some s" "course P (Suc j) s"
      "tr_result s = Some (Inr (from_dest dest (answers (Suc j))))"
    using trace_run_stops [OF course_new _ P, of j "P * H" dest answers] sj first jH H
    by (auto simp: new_trace_def)
  moreover have "\<not> from_dest dest (answers (P * h))" if "h \<in> {1..<hops}" for h
  proof -
    have "P * h < P * hops" using that P(2) by simp
    then have "P * h - 1 < j" using last(1) [of h] that unfolding j [symmetric] by simp
    from first [OF this] stop [of h] that show ?thesis by auto
  qed
  moreover have "hops < H \<longrightarrow> from_dest dest (answers (P * hops))"
    using stop [OF hops(1)] sj hops(2) by auto
  ultimately show ?thesis
    using j hops(1) H' by (intro exI [of _ s] exI [of _ hops]) (auto simp: course_def)
qed

text \<open>C33.  An undisturbed trace ends: with at least one probe per hop it sends no more packets than probes
  per hop times hops, whole hops only, each hop with its number as time to live and every packet with a
  port of its own, and it reports the destination as reached exactly if the last probe of the last hop was
  answered by it, which no earlier hop's last probe was.\<close>

theorem trace_ends:
  assumes P: "to_amountProbes opts = int P" "1 \<le> P" and H: "to_maximumHops opts = int H" "1 \<le> H"
  shows "\<exists>s hops. trace_run (P * H) opts dest answers new_trace = Some s \<and> 1 \<le> hops \<and> hops \<le> H \<and>
    tr_sent s = map (\<lambda>i. (1 + i div P, 33434 + i)) [0..<P * hops] \<and>
    tr_result s = Some (Inr (from_dest dest (answers (P * hops)))) \<and>
    (hops < H \<longrightarrow> from_dest dest (answers (P * hops))) \<and>
    (\<forall>h\<in>{1..<hops}. \<not> from_dest dest (answers (P * h)))"
  by (rule trace_course [OF P H])

text \<open>
  A destination whose name cannot be looked up is never reported as reached, whatever answers: the trace runs
  through all hops.
\<close>

theorem unresolved_never_reached:
  assumes P: "to_amountProbes opts = int P" "1 \<le> P" and H: "to_maximumHops opts = int H" "1 \<le> H"
    and "\<not> isIP host" and "resolve host = Inl e" and "\<forall>k ip name. answers host k = Some (ip, name) \<longrightarrow> isIP ip"
  shows "\<exists>s. snd (execute_trace isIP resolve (P * H) opts host answers) = Some s \<and>
    tr_result s = Some (Inr False) \<and> length (tr_sent s) = P * H"
proof -
  have no: "\<not> from_dest host (answers host k)" for k
    using assms(5,7) by (auto simp: from_dest_def split: option.splits)
  obtain s hops where "trace_run (P * H) opts host (answers host) new_trace = Some s" "hops \<le> H"
      "tr_sent s = map (\<lambda>i. (1 + i div P, 33434 + i)) [0..<P * hops]"
      "tr_result s = Some (Inr (from_dest host (answers host (P * hops))))"
      "hops < H \<longrightarrow> from_dest host (answers host (P * hops))"
    using trace_course [OF P H, of host "answers host"] by blast
  with no show ?thesis
    using assms(5,6) by (auto simp: execute_trace_def resolveDestination_def Let_def)
qed

theorem trace_ends_witness:
  "\<exists>s. trace_run (3 * 64) (new_options None None) ''10.0.0.9''
      (\<lambda>k. if k < 7 then None else Some (''10.0.0.9'', None)) new_trace = Some s \<and> length (tr_sent s) = 9 \<and>
    tr_result s = Some (Inr True)"
proof -
  let ?answers = "\<lambda>k::nat. if k < 7 then None else Some (''10.0.0.9'', None :: string option)"
  have o: "to_amountProbes (new_options None None) = int 3" "to_maximumHops (new_options None None) = int 64"
    by (simp_all add: new_options_def defaultHops_def)
  from trace_ends [OF o(1) _ o(2), of "''10.0.0.9''" ?answers]
  obtain s hops where "trace_run (3 * 64) (new_options None None) ''10.0.0.9'' ?answers new_trace = Some s"
    and "1 \<le> hops" "hops \<le> 64" and sent: "length (tr_sent s) = 3 * hops"
    and res: "tr_result s = Some (Inr (from_dest ''10.0.0.9'' (?answers (3 * hops))))"
    and stop: "hops < 64 \<longrightarrow> from_dest ''10.0.0.9'' (?answers (3 * hops))"
    and first: "\<forall>h\<in>{1..<hops}. \<not> from_dest ''10.0.0.9'' (?answers (3 * h))"
    by force
  moreover have "hops = 3"
  proof (rule ccontr)
    assume "hops \<noteq> 3"
    moreover have "\<not> 3 < hops" using bspec [OF first, of 3] by (auto simp: from_dest_def)
    ultimately have "hops < 3" by simp
    with stop show False by (auto simp: from_dest_def split: if_splits)
  qed
  ultimately show ?thesis by (auto simp: from_dest_def)
qed


section \<open>Disturbances\<close>

lemma handleReply_continues:
  "tr_result s = None \<Longrightarrow> tr_result (handleReply opts dest el r s) = None \<Longrightarrow>
   tr_immediates (handleReply opts dest el r s) = Suc (tr_immediates s)"
  by (simp add: handleReply_def Let_def split: if_splits)

lemma handleReply_lookups [simp]: "tr_lookups (handleReply opts dest el r s) = tr_lookups s"
  by (simp add: handleReply_def Let_def)

lemma sendPacket_keeps [simp]:
  "tr_result (sendPacket opts s) = tr_result s" "tr_immediates (sendPacket opts s) = tr_immediates s"
  "tr_lookups (sendPacket opts s) = tr_lookups s" "tr_sending (sendPacket opts s) = Suc (tr_sending s)"
  by (simp_all add: sendPacket_def Let_def)

lemma no_stop_before:
  assumes "course P (Suc j) s" "to_amountProbes opts = int P" "to_maximumHops opts = int H" "Suc j < P * H"
    and "tr_result s = None" "\<not> from_dest dest r"
  shows "tr_result (handleReply opts dest el r s) = None"
proof -
  have "\<not> (Suc (j mod P) = P \<and> H \<le> Suc (j div P))"
  proof
    assume a: "Suc (j mod P) = P \<and> H \<le> Suc (j div P)"
    have "Suc j = P * (j div P) + Suc (j mod P)" by simp
    also have "\<dots> = P * Suc (j div P)" using a by simp
    also have "\<dots> \<ge> P * H" using a by (intro mult_le_mono2) simp
    finally show False using assms(4) by simp
  qed
  then show ?thesis using assms by (auto simp: handleReply_result course_def)
qed

lemma probe_steps:
  assumes "tr_result s = None" "0 < tr_immediates s" "answers (Suc (length (tr_sent s))) = None"
  shows "(trace_step opts dest)\<^sup>*\<^sup>* s (probe opts dest answers s)"
proof -
  let ?t = "sendPacket opts (s\<lparr>tr_immediates := tr_immediates s - 1\<rparr>)"
  have t: "tr_result ?t = None" "0 < tr_sending ?t" using assms(1) by simp_all
  then have u: "tr_result (afterSend None ?t) = None" "tr_tracked (afterSend None ?t)" "0 < tr_timers (afterSend None ?t)"
    "length (tr_sent (afterSend None ?t)) = Suc (length (tr_sent s))"
    by (simp_all add: afterSend_def Let_def) (simp add: sendPacket_def Let_def)
  have "probe opts dest answers s = handleReply opts dest [] None (afterSend None ?t)"
    using u(4) assms(3) by (simp add: probe_def Let_def)
  then show ?thesis
    using trace_step.immediate [OF assms(1,2)] trace_step.sent [OF t] trace_step.timed_out [OF u(1-3)]
    by (metis converse_rtranclp_into_rtranclp rtranclp.rtrancl_refl)
qed

lemma silent_course:
  assumes P: "to_amountProbes opts = int P" "1 \<le> P" and H: "to_maximumHops opts = int H" and "k < P * H"
  shows "\<exists>s. (trace_step opts dest)\<^sup>*\<^sup>* new_trace s \<and> course P k s \<and> tr_result s = None \<and> 0 < tr_immediates s \<and>
    tr_lookups s = []"
  using assms(4)
proof (induction k)
  case (Suc k)
  then obtain s where s: "(trace_step opts dest)\<^sup>*\<^sup>* new_trace s" "course P k s" "tr_result s = None"
      "0 < tr_immediates s" "tr_lookups s = []" by auto
  let ?t = "sendPacket opts (s\<lparr>tr_immediates := tr_immediates s - 1\<rparr>)"
  have p: "probe opts dest (\<lambda>_. None) s = handleReply opts dest [] None (afterSend None ?t)"
    by (simp add: probe_def Let_def)
  have c: "course P (Suc k) (afterSend None ?t)" and r: "tr_result (afterSend None ?t) = None"
    using course_send [of P k "s\<lparr>tr_immediates := tr_immediates s - 1\<rparr>" opts] s P
    by (simp_all, simp add: afterSend_def Let_def)
  have n: "tr_result (probe opts dest (\<lambda>_. None) s) = None"
    unfolding p using no_stop_before [OF c P(1) H Suc.prems r, of dest None] by (simp add: from_dest_def)
  moreover have "0 < tr_immediates (probe opts dest (\<lambda>_. None) s)"
    using handleReply_continues [OF r] n unfolding p by simp
  moreover have "tr_lookups (probe opts dest (\<lambda>_. None) s) = []"
    unfolding p using s(5) by (simp add: afterSend_def Let_def)
  moreover have "course P (Suc k) (probe opts dest (\<lambda>_. None) s)"
    unfolding p course_frame [OF handleReply_keeps] by (rule c)
  ultimately show ?case using s probe_steps [OF s(3,4)] by (metis rtranclp_trans)
next
  case 0
  have "tr_result new_trace = None" "0 < tr_immediates new_trace" "tr_lookups new_trace = []"
    by (simp_all add: new_trace_def)
  then show ?case by (intro exI [of _ new_trace]) simp
qed

lemma message_seen:
  assumes "tr_port s < 65536"
  shows "\<exists>buffer. on_message buffer ip s = Inr (s\<lparr>tr_lookups := tr_lookups s @ [ip]\<rparr>)"
proof -
  have "on_message (echo_reply (replicate 20 0) (replicate 3 0) (packet plain_checksums opts (tr_port s))) ip s =
      Inr (s\<lparr>tr_lookups := tr_lookups s @ [ip]\<rparr>)" for opts
    using assms by (simp add: on_message_def parse_echo_reply [OF plain_checksums_ok])
  then show ?thesis by blast
qed

lemma looked_up_step:
  assumes "tr_result s = None" "tr_lookups s = ip # ips"
  shows "trace_step opts dest s (handleReply opts dest [] (Some (ip, None)) (s\<lparr>tr_lookups := ips\<rparr>))"
  using trace_step.looked_up [OF assms(1), of "[]" ip ips] assms(2) by simp

lemma course_lookups [simp]: "course P k (s\<lparr>tr_lookups := ips\<rparr>) = course P k s"
  by (rule course_frame) simp_all

text \<open>Two copies of a reply to the last packet but one schedule two packets at once.\<close>

lemma duplicate_reply:
  assumes P: "to_amountProbes opts = int P" "1 \<le> P" and H: "to_maximumHops opts = int H"
    and s: "course P (Suc j) s" "tr_result s = None" "tr_lookups s = []"
    and j: "Suc j < P * H" "33434 + j < 65536"
  shows "\<exists>s'. (trace_step opts dest)\<^sup>*\<^sup>* s s' \<and> course P (Suc j) s' \<and> tr_result s' = None \<and> 2 \<le> tr_immediates s'"
proof -
  let ?ip = "CHR ''x'' # dest"
  let ?reply = "Some (?ip, None) :: (string \<times> string option) option"
  let ?s1 = "s\<lparr>tr_lookups := [?ip]\<rparr>" and ?s2 = "s\<lparr>tr_lookups := [?ip, ?ip]\<rparr>"
  have port: "tr_port s < 65536" "tr_port ?s1 < 65536" using s(1) j(2) by (simp_all add: course_def)
  have 1: "trace_step opts dest s ?s1"
    using message_seen [OF port(1), of ?ip] s(2,3) by (auto intro: trace_step.message)
  have 2: "trace_step opts dest ?s1 ?s2"
    using message_seen [OF port(2), of ?ip] s(2) by (auto intro: trace_step.message)
  have nd: "\<not> from_dest dest ?reply" by (simp add: from_dest_def)
  define s3 where "s3 = handleReply opts dest [] ?reply ?s1"
  have 3: "trace_step opts dest ?s2 s3"
    using looked_up_step [of ?s2 ?ip "[?ip]" opts dest] s(2) by (simp add: s3_def)
  have c3: "course P (Suc j) s3" "tr_result s3 = None" "tr_lookups s3 = [?ip]" "1 \<le> tr_immediates s3"
    using no_stop_before [of P j ?s1 opts H dest ?reply "[]"] handleReply_continues [of ?s1 opts dest "[]" ?reply] assms nd
    by (auto simp: s3_def course_frame [OF handleReply_keeps])
  let ?s3 = "s3\<lparr>tr_lookups := []\<rparr>"
  define s4 where "s4 = handleReply opts dest [] ?reply ?s3"
  have 4: "trace_step opts dest s3 s4"
    using looked_up_step [OF c3(2,3)] by (simp add: s4_def)
  have c4: "course P (Suc j) s4" "tr_result s4 = None" "2 \<le> tr_immediates s4"
    using no_stop_before [of P j ?s3 opts H dest ?reply "[]"] handleReply_continues [of ?s3 opts dest "[]" ?reply]
      c3 P H j nd
    by (auto simp: s4_def course_frame [OF handleReply_keeps])
  have "(trace_step opts dest)\<^sup>*\<^sup>* s s4"
    using 1 2 3 4 by (meson converse_rtranclp_into_rtranclp rtranclp.rtrancl_refl)
  with c4 show ?thesis by blast
qed

lemma send_step:
  assumes "course P k s" "tr_result s = None" "0 < tr_immediates s" "to_amountProbes opts = int P" "1 \<le> P"
  shows "\<exists>s'. trace_step opts dest s s' \<and> course P (Suc k) s' \<and> tr_result s' = None \<and>
    tr_immediates s' = tr_immediates s - 1 \<and> tr_lookups s' = tr_lookups s"
  using trace_step.immediate [OF assms(2,3), of opts dest] course_send [of P k "s\<lparr>tr_immediates := tr_immediates s - 1\<rparr>" opts]
    assms by fastforce

text \<open>The limit on hops does not hold once a reply is duplicated: for all numbers of probes and hops,
  two or more in all, a trace whose last reply but one arrives twice sends a packet with a time to live
  beyond the maximum number of hops.\<close>

theorem duplicate_reply_exceeds_hops:
  assumes P: "to_amountProbes opts = int P" "1 \<le> P" and H: "to_maximumHops opts = int H"
    and n: "2 \<le> P * H" "P * H \<le> 32000"
  shows "\<exists>s. (trace_step opts dest)\<^sup>*\<^sup>* new_trace s \<and> (H + 1, 33434 + P * H) \<in> set (tr_sent s) \<and> tr_result s = None"
proof -
  define j where "j = P * H - 2"
  have j: "j < P * H" "Suc (Suc j) = P * H" using n(1) by (auto simp: j_def)
  obtain a where a: "(trace_step opts dest)\<^sup>*\<^sup>* new_trace a" "course P j a" "tr_result a = None" "0 < tr_immediates a"
      "tr_lookups a = []"
    using silent_course [OF P H j(1)] by blast
  obtain b where b: "trace_step opts dest a b" "course P (Suc j) b" "tr_result b = None" "tr_lookups b = []"
    using send_step [OF a(2-4) P, of dest] a(5) by auto
  obtain c where c: "(trace_step opts dest)\<^sup>*\<^sup>* b c" "course P (Suc j) c" "tr_result c = None" "2 \<le> tr_immediates c"
    using duplicate_reply [OF P H b(2-4), of dest] j(2) n(2) by auto
  obtain d where d: "trace_step opts dest c d" "course P (P * H) d" "tr_result d = None" "1 \<le> tr_immediates d"
    using send_step [OF c(2,3) _ P, of dest] c(4) j(2) by auto
  obtain e where e: "trace_step opts dest d e" "course P (Suc (P * H)) e" "tr_result e = None"
    using send_step [OF d(2,3) _ P, of dest] d(4) by auto
  have "(H + 1, 33434 + P * H) \<in> set (tr_sent e)"
    using e(2) P(2) by (simp add: course_def)
  moreover have "(trace_step opts dest)\<^sup>*\<^sup>* new_trace e"
    using a(1) b(1) c(1) d(1) e(1) by (meson rtranclp.rtrancl_into_rtrancl rtranclp_trans)
  ultimately show ?thesis using e(3) by blast
qed

theorem duplicate_reply_exceeds_hops_witness:
  "\<exists>s. (trace_step (new_options None None) ''10.0.0.9'')\<^sup>*\<^sup>* new_trace s \<and> (65, 33626) \<in> set (tr_sent s) \<and> tr_result s = None"
  using duplicate_reply_exceeds_hops [of "new_options None None" 3 64 "''10.0.0.9''"]
  by (simp add: new_options_def defaultHops_def)

lemma probed_step:
  assumes "trace_step opts dest s s'" "to_amountProbes opts \<le> 0" "1 \<le> tr_probes s" "\<forall>b. tr_result s \<noteq> Some (Inr b)"
  shows "1 \<le> tr_probes s' \<and> (\<forall>b. tr_result s' \<noteq> Some (Inr b))"
  using assms
  by (cases rule: trace_step.cases)
    (auto simp: sendPacket_def afterSend_def handleReply_def on_message_def Let_def bind_res_Inr_iff split: option.splits if_splits)

text \<open>With no probes per hop a trace never reports a result: from the first packet on, whatever is
  received and whichever timers fire, it ends only by an error of the socket.\<close>

theorem no_probes_never_ends:
  assumes "to_amountProbes opts \<le> 0" and "(trace_step opts dest)\<^sup>*\<^sup>* (sendPacket opts (new_trace\<lparr>tr_immediates := 0\<rparr>)) s"
  shows "\<forall>reached. tr_result s \<noteq> Some (Inr reached)"
proof -
  have "1 \<le> tr_probes s \<and> (\<forall>b. tr_result s \<noteq> Some (Inr b))"
    using assms(2)
  proof (induction rule: rtranclp_induct)
    case base
    show ?case by (simp add: new_trace_def sendPacket_def Let_def)
  next
    case (step t u)
    with probed_step [OF step(2) assms(1)] show ?case by blast
  qed
  then show ?thesis by blast
qed

theorem no_probes_never_ends_witness:
  "\<forall>reached. tr_result (sendPacket (new_options (Some 0) None) (new_trace\<lparr>tr_immediates := 0\<rparr>)) \<noteq> Some (Inr reached)"
  by (rule no_probes_never_ends [where dest = "''10.0.0.9''" and opts = "new_options (Some 0) None"])
    (simp_all add: new_options_def)

end
