(* ===== verification/Ws_Executor.thy ===== *)
theory Ws_Executor
  imports Http_Executor Rest_Client
begin

text \<open>
  The executor of web socket requests (\<open>src/RequestExecutor/WsRequestExecutor.ts\<close>): the options of the
  connection, the exchange as a reaction to the events of the socket and its timer, and the attempts with
  client certificates.  The socket itself is the package \<open>ws\<close>; its events are the input of the model.
\<close>

section \<open>The connection\<close>

definition FORBIDDEN_HEADERS :: "string list" where
  "FORBIDDEN_HEADERS = [''sec-websocket-version'', ''sec-websocket-key'']"

definition normalizeHeaders :: "headers \<Rightarrow> headers" where
  "normalizeHeaders hs =
     foldl (\<lambda>result (key, value).
       if toLowerCase (trim key) \<in> set FORBIDDEN_HEADERS then result else sset key value result) [] hs"

record ws_executor =
  wx_options :: executor_options
  wx_agents :: "agents option"

definition new_ws_executor :: "url_parser \<Rightarrow> executor_options \<Rightarrow> ws_executor js_result" where
  "new_ws_executor parse opts =
     (if truthy (xo_proxyUrl opts)
      then map_sum id (\<lambda>a. \<lparr>wx_options = opts, wx_agents = Some a\<rparr>) (createProxy parse (the (xo_proxyUrl opts)) False)
      else Inr \<lparr>wx_options = opts, wx_agents = None\<rparr>)"

record ws_options =
  wo_agent :: "agent option"
  wo_rejectUnauthorized :: bool
  wo_handshakeTimeout :: "nat option"
  wo_headers :: headers
  wo_ca :: "string option"
  wo_pfx :: "string option"
  wo_passphrase :: "string option"
  wo_maxHeaderSize :: nat

definition MAX_HEADERS_SIZE :: nat where
  "MAX_HEADERS_SIZE = 32768"

definition ws_options_of :: "ws_executor \<Rightarrow> http_request \<Rightarrow> ws_options" where
  "ws_options_of x r =
     \<lparr>wo_agent = map_option (if secureEndpoint r then httpsAgent else httpAgent) (wx_agents x),
      wo_rejectUnauthorized = False,
      wo_handshakeTimeout = xo_timeout (wx_options x),
      wo_headers = normalizeHeaders (rq_headers r),
      wo_ca = rq_ca r, wo_pfx = rq_pfx r, wo_passphrase = rq_passphrase r,
      wo_maxHeaderSize = MAX_HEADERS_SIZE\<rparr>"


section \<open>The exchange\<close>

record upgrade_response =
  up_statusCode :: nat
  up_headers :: headers

text \<open>
  Events: \<open>Sent\<close> is the callback of \<open>send\<close>, \<open>Timer\<close> the expiry of the timer of \<open>setTimeout\<close>, \<open>Leave_Open\<close> the
  socket leaving the state \<open>OPEN\<close> without the executor.
\<close>

datatype ws_event =
  Open | Upgrade upgrade_response | Sent "js_error option" | Message string | Close nat string | Error js_error |
  Timer | Leave_Open

datatype ws_phase =
  Connecting bool "upgrade_response option" | Sending upgrade_response | Waiting upgrade_response |
  Settled "response js_result"

record ws_client =
  wc_phase :: ws_phase
  wc_open :: bool
  wc_sent :: "string option list"
  wc_timer :: bool
  wc_closedWith :: "nat option"
  wc_closeListener :: bool
  wc_uncaught :: "js_error list"

definition new_client_ws :: ws_client where
  "new_client_ws = \<lparr>wc_phase = Connecting False None, wc_open = False, wc_sent = [], wc_timer = False,
     wc_closedWith = None, wc_closeListener = False, wc_uncaught = []\<rparr>"

definition timed_out_frame :: js_error where
  "timed_out_frame = (mk_error ''Waiting frame has timed out'')\<lparr>err_code := Some ''ETIMEDOUT''\<rparr>"

text \<open>The \<open>finally\<close> block.\<close>

definition finish :: "response js_result \<Rightarrow> ws_client \<Rightarrow> ws_client" where
  "finish res c =
     (let c1 = c\<lparr>wc_phase := Settled res, wc_timer := False\<rparr>
      in if wc_open c1 then c1\<lparr>wc_closedWith := Some 1000, wc_open := False\<rparr> else c1)"

definition ws_response :: "upgrade_response \<Rightarrow> nat option \<Rightarrow> string \<Rightarrow> response" where
  "ws_response up c body =
     \<lparr>rs_protocol = WS, rs_statusCode = Some (case c of Some n \<Rightarrow> n | None \<Rightarrow> up_statusCode up),
      rs_headers = Some (up_headers up), rs_body = Some body, rs_encoding = None, rs_message = None,
      rs_errorCode = None, rs_ttfb = None\<rparr>"

definition connected :: "string option \<Rightarrow> bool \<Rightarrow> upgrade_response option \<Rightarrow> ws_client \<Rightarrow> ws_client" where
  "connected body opened upgraded c =
     (case (opened, upgraded) of
        (True, Some up) \<Rightarrow> c\<lparr>wc_phase := Sending up, wc_sent := wc_sent c @ [body]\<rparr>
      | _ \<Rightarrow> c\<lparr>wc_phase := Connecting opened upgraded\<rparr>)"

definition matches_reply :: "(string \<Rightarrow> string \<Rightarrow> bool) \<Rightarrow> string option \<Rightarrow> string \<Rightarrow> bool" where
  "matches_reply re matcher text = (case matcher of None \<Rightarrow> True | Some m \<Rightarrow> re m text)"

text \<open>
  An error is caught while a promise of \<open>once\<close> listens: both while connecting, none while the message is
  being sent, and the one for the closing of the socket afterwards, until it has settled.
\<close>

definition on_error_ws :: "js_error \<Rightarrow> ws_client \<Rightarrow> ws_client" where
  "on_error_ws e c =
     (case wc_phase c of
        Connecting _ _ \<Rightarrow> finish (Inl e) c
      | Sending _ \<Rightarrow> c\<lparr>wc_uncaught := wc_uncaught c @ [e]\<rparr>
      | Waiting _ \<Rightarrow> finish (Inl e) (c\<lparr>wc_closeListener := False\<rparr>)
      | Settled _ \<Rightarrow> if wc_closeListener c then c\<lparr>wc_closeListener := False\<rparr>
                     else c\<lparr>wc_uncaught := wc_uncaught c @ [e]\<rparr>)"

fun ws_on :: "(string \<Rightarrow> string \<Rightarrow> bool) \<Rightarrow> http_request \<Rightarrow> ws_event \<Rightarrow> ws_client \<Rightarrow> ws_client" where
  "ws_on re r Open c =
     (case wc_phase c of
        Connecting _ upgraded \<Rightarrow> connected (rq_body r) True upgraded (c\<lparr>wc_open := True\<rparr>)
      | _ \<Rightarrow> c)"
| "ws_on re r (Upgrade up) c =
     (case wc_phase c of Connecting opened None \<Rightarrow> connected (rq_body r) opened (Some up) c | _ \<Rightarrow> c)"
| "ws_on re r (Sent err) c =
     (case wc_phase c of
        Sending up \<Rightarrow>
          (case err of
             Some e \<Rightarrow> finish (Inl e) c
           | None \<Rightarrow> c\<lparr>wc_phase := Waiting up, wc_timer := True, wc_closeListener := True\<rparr>)
      | _ \<Rightarrow> c)"
| "ws_on re r (Message text) c =
     (case wc_phase c of
        Waiting up \<Rightarrow> if matches_reply re (rq_correlationIdRegex r) text then finish (Inr (ws_response up None text)) c else c
      | _ \<Rightarrow> c)"
| "ws_on re r (Close n reason) c =
     (let c1 = c\<lparr>wc_open := False, wc_closeListener := False\<rparr> in
      case wc_phase c1 of Waiting up \<Rightarrow> finish (Inr (ws_response up (Some n) reason)) c1 | _ \<Rightarrow> c1)"
| "ws_on re r (Error e) c = on_error_ws e c"
| "ws_on re r Timer c = (if wc_timer c then on_error_ws timed_out_frame (c\<lparr>wc_timer := False\<rparr>) else c)"
| "ws_on re r Leave_Open c = c\<lparr>wc_open := False\<rparr>"

definition ws_events :: "(string \<Rightarrow> string \<Rightarrow> bool) \<Rightarrow> http_request \<Rightarrow> ws_event list \<Rightarrow> ws_client \<Rightarrow> ws_client" where
  "ws_events re r evs c = foldl (\<lambda>c ev. ws_on re r ev c) c evs"

text \<open>
  What is outside: \<open>ne_connect\<close> is the constructor of the socket, which may throw, and the events that follow.
\<close>

record ws_env =
  ne_parse :: url_parser
  ne_regexp :: "string \<Rightarrow> string \<Rightarrow> bool"
  ne_connect :: "string \<Rightarrow> ws_options \<Rightarrow> ws_event list js_result"
  ne_read :: "string \<Rightarrow> string option"
  ne_passphrase :: "string option \<Rightarrow> string option \<Rightarrow> bool"

fun settled_with :: "ws_phase \<Rightarrow> response js_result option" where
  "settled_with (Settled res) = Some res"
| "settled_with _ = None"

definition executeRequest_ws :: "ws_env \<Rightarrow> ws_executor \<Rightarrow> http_request \<Rightarrow> response js_result option" where
  "executeRequest_ws env x r =
     (case ne_connect env (rq_url r) (ws_options_of x r) of
        Inl e \<Rightarrow> Some (Inl e)
      | Inr evs \<Rightarrow> settled_with (wc_phase (ws_events (ne_regexp env) r evs new_client_ws)))"


section \<open>Client certificates\<close>

fun ws_send_with_certs ::
  "ws_env \<Rightarrow> ws_executor \<Rightarrow> cert list \<Rightarrow> http_request \<Rightarrow> (cert \<times> response js_result option) list"
where
  "ws_send_with_certs env x [] r = []"
| "ws_send_with_certs env x (c # cs) r =
     (let r' = fst (loadCert (ne_read env) (ne_passphrase env) c r)
      in (c, executeRequest_ws env x r') # ws_send_with_certs env x cs r')"

definition settled_attempts :: "(cert \<times> response js_result option) list \<Rightarrow> (cert \<times> response js_result) list" where
  "settled_attempts as = List.map_filter (\<lambda>(c, res). map_option (Pair c) res) as"

text \<open>\<open>Promise.any\<close>: the result is open as long as no attempt succeeds and some have not settled.\<close>

definition ws_tryRequestWithCertificates ::
  "ws_env \<Rightarrow> ws_executor \<Rightarrow> ((cert \<times> response js_result) list \<Rightarrow> (cert \<times> response js_result) list) \<Rightarrow>
     http_request \<Rightarrow> cert list \<Rightarrow> cert_cache \<Rightarrow> response js_result option \<times> cert_cache"
where
  "ws_tryRequestWithCertificates env x finishes r loads cache =
     (let as = ws_send_with_certs env x loads r;
          (winner, cache') = settle (ne_parse env) r (finishes (settled_attempts as)) cache
      in (case winner of
            Some resp \<Rightarrow> Some (Inr resp)
          | None \<Rightarrow> if list_all (\<lambda>(c, res). res \<noteq> None) as then Some (Inl aggregate_error) else None, cache'))"

text \<open>The errors of the socket library have no field \<open>info\<close>.\<close>

definition ws_error_response :: "js_error \<Rightarrow> response" where
  "ws_error_response e =
     \<lparr>rs_protocol = WS, rs_statusCode = None, rs_headers = None, rs_body = None, rs_encoding = None,
      rs_message = Some (err_message e), rs_errorCode = nullish (err_code e) (err_syscall e), rs_ttfb = None\<rparr>"

definition ws_result :: "response js_result \<Rightarrow> response" where
  "ws_result res = (case res of Inl e \<Rightarrow> ws_error_response e | Inr resp \<Rightarrow> resp)"

definition execute_ws ::
  "ws_env \<Rightarrow> ws_executor \<Rightarrow> (cert list \<Rightarrow> cert list) \<Rightarrow>
     ((cert \<times> response js_result) list \<Rightarrow> (cert \<times> response js_result) list) \<Rightarrow> http_request \<Rightarrow> cert_cache \<Rightarrow>
     response option \<times> cert_cache"
where
  "execute_ws env x loads finishes r cache =
     (case (case xo_certs (wx_options x) of
              None \<Rightarrow> Inr [] | Some registered \<Rightarrow> resolve_certs (ne_parse env) cache r registered) of
        Inl e \<Rightarrow> (Some (ws_error_response e), cache)
      | Inr [] \<Rightarrow> (map_option ws_result (executeRequest_ws env x r), cache)
      | Inr (c # cs) \<Rightarrow>
          (let (res, cache') = ws_tryRequestWithCertificates env x finishes r (loads (c # cs)) cache
           in (map_option ws_result res, cache')))"


section \<open>Properties of the exchange\<close>

lemma normalizeHeaders_filter:
  assumes "wf_store hs"
  shows "normalizeHeaders hs = filter (\<lambda>(key, value). toLowerCase (trim key) \<notin> set FORBIDDEN_HEADERS) hs"
proof -
  let ?P = "\<lambda>(key, value). toLowerCase (trim key) \<notin> set FORBIDDEN_HEADERS"
  let ?f = "\<lambda>result (key, value). if toLowerCase (trim key) \<in> set FORBIDDEN_HEADERS then result else sset key value result"
  have "foldl ?f acc hs = acc @ filter ?P hs"
    if "distinct (map fst hs)" "fst ` set acc \<inter> fst ` set hs = {}" for acc
    using that
  proof (induction hs arbitrary: acc)
    case (Cons h hs)
    obtain k v where h: "h = (k, v)" by (cases h)
    have "sset k v acc = acc @ [(k, v)]" if "k \<notin> fst ` set acc" using that by (simp add: sset_fresh map_of_eq_None_iff)
    with Cons h show ?case by auto
  qed simp
  from this [of "[]"] assms show ?thesis by (simp add: normalizeHeaders_def)
qed

text \<open>What an event decides while the executor waits for the reply.\<close>

fun decides :: "(string \<Rightarrow> string \<Rightarrow> bool) \<Rightarrow> http_request \<Rightarrow> upgrade_response \<Rightarrow> ws_event \<Rightarrow> response js_result option" where
  "decides re r up (Message text) =
     (if matches_reply re (rq_correlationIdRegex r) text then Some (Inr (ws_response up None text)) else None)"
| "decides re r up (Close n reason) = Some (Inr (ws_response up (Some n) reason))"
| "decides re r up (Error e) = Some (Inl e)"
| "decides re r up Timer = Some (Inl timed_out_frame)"
| "decides re r up ev = None"

fun first_decision :: "(string \<Rightarrow> string \<Rightarrow> bool) \<Rightarrow> http_request \<Rightarrow> upgrade_response \<Rightarrow> ws_event list \<Rightarrow> response js_result option" where
  "first_decision re r up [] = None"
| "first_decision re r up (ev # evs) =
     (case decides re r up ev of Some res \<Rightarrow> Some res | None \<Rightarrow> first_decision re r up evs)"

lemma first_decision_settles:
  "ev \<in> set evs \<Longrightarrow> decides re r up ev \<noteq> None \<Longrightarrow> first_decision re r up evs \<noteq> None"
  by (induction evs) (auto split: option.splits)

lemma first_decision_Some:
  "first_decision re r up evs = Some res \<Longrightarrow>
   \<exists>pre ev post. evs = pre @ ev # post \<and> decides re r up ev = Some res \<and> (\<forall>d \<in> set pre. decides re r up d = None)"
proof (induction evs)
  case (Cons ev evs)
  show ?case
  proof (cases "decides re r up ev")
    case None
    with Cons obtain pre d post where "evs = pre @ d # post" "decides re r up d = Some res"
      "\<forall>d \<in> set pre. decides re r up d = None" by auto
    with None show ?thesis by (intro exI [of _ "ev # pre"]) auto
  qed (use Cons.prems in \<open>auto intro!: exI [of _ "[]"]\<close>)
qed simp

definition ws_inv :: "http_request \<Rightarrow> ws_client \<Rightarrow> bool" where
  "ws_inv r c \<longleftrightarrow>
     (wc_timer c \<longleftrightarrow> (\<exists>up. wc_phase c = Waiting up)) \<and>
     ((\<exists>res. wc_phase c = Settled res) \<longrightarrow> \<not> wc_open c) \<and>
     wc_sent c \<in> {[], [rq_body r]} \<and> ((\<exists>opened up. wc_phase c = Connecting opened up) \<longrightarrow> wc_sent c = [])"

lemma ws_inv_step: "ws_inv r c \<Longrightarrow> ws_inv r (ws_on re r ev c)"
  by (cases ev; cases "wc_phase c")
    (auto simp: ws_inv_def connected_def finish_def on_error_ws_def Let_def split: option.splits bool.splits)

lemma settled_stays: "wc_phase c = Settled res \<Longrightarrow> wc_phase (ws_on re r ev c) = Settled res"
  by (cases ev) (auto simp: on_error_ws_def Let_def)

lemma ws_events_Nil [simp]: "ws_events re r [] c = c"
  and ws_events_Cons [simp]: "ws_events re r (ev # evs) c = ws_events re r evs (ws_on re r ev c)"
  and ws_events_append: "ws_events re r (xs @ ys) c = ws_events re r ys (ws_events re r xs c)"
  by (simp_all add: ws_events_def)

lemma settled_events: "wc_phase c = Settled res \<Longrightarrow> wc_phase (ws_events re r evs c) = Settled res"
  by (induction evs arbitrary: c) (simp_all add: settled_stays)

lemma ws_inv_events: "ws_inv r c \<Longrightarrow> ws_inv r (ws_events re r evs c)"
  by (induction evs arbitrary: c) (simp_all add: ws_inv_step)

text \<open>C38.  Whatever the socket does, a message is sent at most once and only after the handshake; the timer runs
  exactly while a reply is awaited; when the exchange has settled the timer is cleared and the socket is
  no longer open, and no later event changes the result.\<close>

theorem ws_exchange_clean:
  "let c = ws_events re r evs new_client_ws in
   wc_sent c \<in> {[], [rq_body r]} \<and> (wc_timer c \<longleftrightarrow> (\<exists>up. wc_phase c = Waiting up)) \<and>
   (\<forall>res. wc_phase c = Settled res \<longrightarrow>
      \<not> wc_open c \<and> \<not> wc_timer c \<and> wc_phase (ws_events re r (evs @ later) new_client_ws) = Settled res)"
proof -
  have "ws_inv r new_client_ws" by (simp add: ws_inv_def new_client_ws_def)
  then have "ws_inv r (ws_events re r evs new_client_ws)" by (rule ws_inv_events)
  then show ?thesis by (auto simp: ws_inv_def Let_def ws_events_append settled_events)
qed

theorem ws_exchange_clean_witness:
  "\<exists>res. let evs = [Upgrade \<lparr>up_statusCode = 101, up_headers = []\<rparr>, Open, Sent None, Message ''a''] in
     wc_phase (ws_events (\<lambda>_ _. True) sample_request evs new_client_ws) = Settled res \<and>
     \<not> wc_open (ws_events (\<lambda>_ _. True) sample_request evs new_client_ws) \<and>
     wc_phase (ws_events (\<lambda>_ _. True) sample_request (evs @ [Message ''b'']) new_client_ws) = Settled res"
proof -
  let ?up = "\<lparr>up_statusCode = 101, up_headers = []\<rparr>"
  let ?evs = "[Upgrade ?up, Open, Sent None, Message ''a'']"
  have "wc_phase (ws_events (\<lambda>_ _. True) sample_request ?evs new_client_ws) = Settled (Inr (ws_response ?up None ''a''))"
    by (simp add: new_client_ws_def connected_def finish_def matches_reply_def split: option.split)
  with ws_exchange_clean [of "\<lambda>_ _. True" sample_request ?evs "[Message ''b'']"] show ?thesis
    unfolding Let_def by blast
qed

lemma waiting_events:
  "wc_phase c = Waiting up \<Longrightarrow> wc_timer c \<Longrightarrow>
   settled_with (wc_phase (ws_events re r evs c)) = first_decision re r up evs"
proof (induction evs arbitrary: c)
  case (Cons ev evs)
  show ?case
  proof (cases "decides re r up ev")
    case None
    then have "wc_phase (ws_on re r ev c) = Waiting up" "wc_timer (ws_on re r ev c)"
      using Cons.prems by (cases ev; simp split: if_splits)+
    with Cons.IH None show ?thesis by simp
  next
    case (Some res)
    then have "wc_phase (ws_on re r ev c) = Settled res"
      using Cons.prems by (cases ev) (auto simp: on_error_ws_def finish_def Let_def split: if_splits)
    with Some show ?thesis by (simp add: settled_events)
  qed
qed simp

text \<open>Events that have no listener while the message is being sent.\<close>

fun unheard :: "ws_event \<Rightarrow> bool" where
  "unheard (Sent _) = False"
| "unheard (Error _) = False"
| "unheard _ = True"

lemma sending_events:
  assumes "wc_phase c = Sending up" "\<forall>ev \<in> set evs. unheard ev" "\<not> wc_timer c"
  shows "wc_phase (ws_events re r evs c) = Sending up \<and> \<not> wc_timer (ws_events re r evs c)"
  using assms
proof (induction evs arbitrary: c)
  case (Cons ev evs)
  then have "wc_phase (ws_on re r ev c) = Sending up" "\<not> wc_timer (ws_on re r ev c)" by (cases ev; simp)+
  with Cons show ?case by simp
qed simp

text \<open>C37.  After a successful handshake the response is decided by the first decisive event after the message
  has been sent: a message that matches the correlation expression, the closing of the socket with its code as the
  status, an error, or the timeout, which therefore always settles the exchange.  What arrives while the message
  is still being sent is lost, even a matching reply or the closing of the socket.\<close>

theorem ws_exchange_outcome:
  assumes "ne_connect env (rq_url r) (ws_options_of x r) = Inr (Upgrade up # Open # early @ Sent None # evs)"
    and "\<forall>ev \<in> set early. unheard ev"
  shows "executeRequest_ws env x r = first_decision (ne_regexp env) r up evs \<and>
    (Timer \<in> set evs \<longrightarrow> executeRequest_ws env x r \<noteq> None)"
proof -
  let ?re = "ne_regexp env"
  define c where "c = ws_on ?re r Open (ws_on ?re r (Upgrade up) new_client_ws)"
  have c: "wc_phase c = Sending up" "\<not> wc_timer c"
    by (simp_all add: c_def new_client_ws_def connected_def)
  define d where "d = ws_events ?re r early c"
  have d: "wc_phase d = Sending up" using sending_events [OF c(1) assms(2) c(2)] by (simp add: d_def)
  have "executeRequest_ws env x r = settled_with (wc_phase (ws_events ?re r evs (ws_on ?re r (Sent None) d)))"
    using assms(1) by (simp only: executeRequest_ws_def ws_events_append ws_events_Cons c_def d_def sum.case)
  also have "\<dots> = first_decision ?re r up evs"
    by (rule waiting_events) (simp_all add: d)
  finally show ?thesis using first_decision_settles [of Timer evs] by auto
qed

definition sample_ws_executor :: ws_executor where
  "sample_ws_executor = \<lparr>wx_options = sample_executor_options, wx_agents = None\<rparr>"

definition greeting_server :: ws_env where
  "greeting_server = \<lparr>ne_parse = any_url, ne_regexp = (\<lambda>_ _. True),
     ne_connect = (\<lambda>_ _. Inr (Upgrade \<lparr>up_statusCode = 101, up_headers = []\<rparr> # Open # [Message ''reply''] @ Sent None # [Timer])),
     ne_read = Some, ne_passphrase = (\<lambda>_ _. True)\<rparr>"

theorem ws_exchange_outcome_witness:
  "executeRequest_ws greeting_server sample_ws_executor sample_request = Some (Inl timed_out_frame)"
  using ws_exchange_outcome [of greeting_server sample_request sample_ws_executor "\<lparr>up_statusCode = 101, up_headers = []\<rparr>"
      "[Message ''reply'']" "[Timer]"]
  by (simp add: greeting_server_def)

text \<open>An error of the socket while the message is being sent escapes all handlers.\<close>

lemma ws_error_while_sending:
  "wc_uncaught (ws_events re r [Upgrade up, Open, Error e] new_client_ws) = [e]"
  by (simp add: new_client_ws_def connected_def on_error_ws_def)

text \<open>A web socket over TLS is given the agent for plain connections of the proxy, although the factory
  selects the other one for such a target: the scheme is compared with \<open>https\<close>.\<close>

theorem wss_uses_plain_agent:
  assumes "new_ws_executor parse opts = Inr x" and "xo_proxyUrl opts = Some p" and "p \<noteq> []"
    and "parse p = Some v" and "url_protocol v \<in> {''http:'', ''https:''}"
    and "startsWith (rq_url r) ''wss:''" and "parse (rq_url r) = Some u" and "url_protocol u = ''wss:''"
  shows "wo_agent (ws_options_of x r) = Some (Http_Proxy_Agent p False) \<and>
    createProxyForClient parse (rq_url r) p False = Inr (Patched_Https_Proxy_Agent p False)"
proof -
  have "createProxy parse p False = Inr (createHttpProxy p False)" using assms(4,5) by (auto simp: createProxy_def Let_def)
  moreover have "\<not> secureEndpoint r"
    using assms(6) by (auto simp: secureEndpoint_def startsWith_def prefix_def)
  ultimately show ?thesis
    using assms(1-3,7,8) by (auto simp: new_ws_executor_def ws_options_of_def createProxyForClient_def createHttpProxy_def)
qed

theorem wss_uses_plain_agent_witness:
  "wo_agent (ws_options_of \<lparr>wx_options = sample_executor_options\<lparr>xo_proxyUrl := Some ''http://p''\<rparr>,
       wx_agents = Some (createHttpProxy ''http://p'' False)\<rparr> (sample_request\<lparr>rq_url := ''wss://a.b''\<rparr>)) =
     Some (Http_Proxy_Agent ''http://p'' False)"
proof -
  let ?parse = "\<lambda>t. Some \<lparr>url_protocol = (if t = ''http://p'' then ''http:'' else ''wss:''), url_host = ''a.b'',
    url_hostname = ''a.b'', url_port = []\<rparr> :: url option"
  let ?opts = "sample_executor_options\<lparr>xo_proxyUrl := Some ''http://p''\<rparr>"
  have "new_ws_executor ?parse ?opts = Inr \<lparr>wx_options = ?opts, wx_agents = Some (createHttpProxy ''http://p'' False)\<rparr>"
    by (simp add: new_ws_executor_def createProxy_def)
  from wss_uses_plain_agent [OF this, of "''http://p''" _ "sample_request\<lparr>rq_url := ''wss://a.b''\<rparr>"]
  show ?thesis by (auto simp: startsWith_def)
qed


section \<open>Attempts with certificates\<close>

lemma ws_send_with_certs_fst: "map fst (ws_send_with_certs env x cs r) = cs"
  by (induction cs arbitrary: r) (simp_all add: Let_def)

lemma settled_attempts_mem: "(c, res) \<in> set (settled_attempts as) \<longleftrightarrow> (c, Some res) \<in> set as"
  by (force simp: settled_attempts_def List.map_filter_def)

text \<open>
  As for HTTP, the result is the first successful answer and its certificate is remembered unless one was;
  in addition an attempt that never settles keeps a failing request open.
\<close>

theorem ws_certificate_attempts:
  assumes "parse = ne_parse env" and "parse (rq_url r) = Some u"
    and "\<And>as. mset (finishes as) = mset as"
    and "ws_tryRequestWithCertificates env x finishes r loads cache = (res, cache')"
  shows "let as = ws_send_with_certs env x loads r in
    case res of
      None \<Rightarrow> (\<exists>c. (c, None) \<in> set as) \<and> (\<forall>c a. (c, Some a) \<in> set as \<longrightarrow> isl a) \<and> cache' = cache
    | Some (Inl e) \<Rightarrow> e = aggregate_error \<and> (\<forall>(c, a) \<in> set as. \<exists>e. a = Some (Inl e)) \<and> cache' = cache
    | Some (Inr resp) \<Rightarrow> \<exists>c \<in> set loads. (c, Some (Inr resp)) \<in> set as \<and>
        sget cache' (url_key u) = Some (case sget cache (url_key u) of None \<Rightarrow> c | Some d \<Rightarrow> d)"
proof -
  let ?as = "ws_send_with_certs env x loads r"
  let ?fs = "finishes (settled_attempts ?as)"
  have mem: "(c, a) \<in> set ?fs \<longleftrightarrow> (c, Some a) \<in> set ?as" for c a
    using assms(3) [of "settled_attempts ?as"] settled_attempts_mem by (metis set_mset_mset)
  obtain w where w: "settle parse r ?fs cache = (w, cache')"
    and res: "res = (case w of Some resp \<Rightarrow> Some (Inr resp) | None \<Rightarrow>
      if list_all (\<lambda>(c, res). res \<noteq> None) ?as then Some (Inl aggregate_error) else None)"
    using assms(1,4) by (auto simp: ws_tryRequestWithCertificates_def Let_def split: prod.splits)
  note won = settle_winner [of parse, OF assms(2) w]
  show ?thesis
  proof (cases w)
    case None
    with won have failed: "\<forall>c a. (c, Some a) \<in> set ?as \<longrightarrow> isl a" and same: "cache' = cache" using mem by force+
    show ?thesis
    proof (cases "list_all (\<lambda>(c, res). res \<noteq> None) ?as")
      case True
      with failed have "\<forall>(c, a) \<in> set ?as. \<exists>e. a = Some (Inl e)" by (fastforce simp: list_all_iff isl_def)
      with True None res same show ?thesis by (simp add: Let_def)
    next
      case False
      then have "\<exists>c. (c, None) \<in> set ?as" by (auto simp: list_all_iff)
      with False None res same failed show ?thesis by (simp add: Let_def)
    qed
  next
    case (Some resp)
    with won obtain pre c post where "?fs = pre @ (c, Inr resp) # post"
      "sget cache' (url_key u) = Some (case sget cache (url_key u) of None \<Rightarrow> c | Some d \<Rightarrow> d)" by auto
    moreover from this(1) have "(c, Some (Inr resp)) \<in> set ?as" using mem [of c "Inr resp"] by simp
    moreover from this have "c \<in> set (map fst ?as)" by force
    then have "c \<in> set loads" by (simp only: ws_send_with_certs_fst)
    ultimately show ?thesis using res Some unfolding Let_def by (simp only: option.case sum.case) blast
  qed
qed

end
