(* ===== verification/Wizard.thy ===== *)
theory Wizard
  imports Traceroute Repeater
begin

text \<open>
  The configuration wizard (\<open>src/Wizard\<close>, \<open>Configure\<close>) and the network test of the repeater
  (\<open>DefaultRepeaterCommandHub.testNetwork\<close>), which runs the wizard as a child process and answers its questions.
  The wizard is an interaction: it writes to the terminal, saves files and asks for lines of input.  Network
  access is a parameter, and so are the JSON functions and the outcome of a traceroute.
\<close>

section \<open>Credentials\<close>

datatype test_type = T_HTTP | T_AUTH | T_TRACEROUTE

fun test_name :: "test_type \<Rightarrow> string" where
  "test_name T_HTTP = ''http''"
| "test_name T_AUTH = ''auth''"
| "test_name T_TRACEROUTE = ''traceroute''"

record credentials =
  cd_authToken :: string
  cd_repeaterId :: string

definition token_char :: "char \<Rightarrow> bool" where
  "token_char c \<longleftrightarrow> is_alpha c \<or> is_digit c \<or> c \<in> {CHR ''+'', CHR ''/'', CHR ''=''}"

definition AUTH_TOKEN_VALIDATION_REGEXP :: "string \<Rightarrow> bool" where
  "AUTH_TOKEN_VALIDATION_REGEXP t \<longleftrightarrow>
     length t = 45 \<and> list_all token_char (take 7 t) \<and> take 4 (drop 7 t) = ''.nex'' \<and>
     t ! 11 \<in> {CHR ''a'', CHR ''p''} \<and> t ! 12 = CHR ''.'' \<and> list_all token_char (drop 13 t)"

type_synonym files = "(string, string) store"

record json_codec =
  js_stringify :: "credentials \<Rightarrow> string"
  js_parse :: "string \<Rightarrow> credentials js_result"

definition tokens_path :: "string \<Rightarrow> string" where
  "tokens_path baseDir = strip_slashes baseDir @ ''/.bright-cli''"

definition legacyPath :: "string \<Rightarrow> string" where
  "legacyPath baseDir = strip_slashes baseDir @ ''/.nexploit-cli''"

definition writeTokens :: "json_codec \<Rightarrow> string \<Rightarrow> credentials \<Rightarrow> files \<Rightarrow> files" where
  "writeTokens json baseDir c fs = sset (tokens_path baseDir) (js_stringify json c) fs"

definition readTokens :: "json_codec \<Rightarrow> string \<Rightarrow> files \<Rightarrow> credentials option js_result" where
  "readTokens json baseDir fs =
     (case List.find (\<lambda>p. shas fs p) [tokens_path baseDir, legacyPath baseDir] of
        None \<Rightarrow> Inr None
      | Some p \<Rightarrow> map_sum id Some (js_parse json (the (sget fs p))))"


section \<open>Connectivity tests\<close>

text \<open>A target is a URL with its text, or the name or address of a host.\<close>

datatype target = Target_Url string url | Target_Host string

record wizard_options =
  wz_maxTTL :: "int option"
  wz_probes :: "int option"

text \<open>
  The network: \<open>nw_get\<close> is the request for the repeater at a base URL with an authorization header, \<open>nw_request\<close>
  a request over the protocol to a host and port, \<open>nw_socket\<close> the creation of a raw socket, and \<open>nw_trace\<close> what a
  trace writes and whether it reaches its destination.
\<close>

record network =
  nw_get :: "string \<Rightarrow> string \<Rightarrow> string \<Rightarrow> string js_result"
  nw_request :: "string \<Rightarrow> string \<Rightarrow> string \<Rightarrow> unit js_result"
  nw_socket :: "unit js_result"
  nw_trace :: "string \<Rightarrow> trace_options \<Rightarrow> string list \<times> bool js_result"

definition auth_test :: "network \<Rightarrow> credentials option js_result \<Rightarrow> string \<Rightarrow> bool js_result" where
  "auth_test nw tokens href =
     bind_res tokens (\<lambda>t.
       case t of
         None \<Rightarrow> Inl (type_error ''Cannot destructure property'')
       | Some c \<Rightarrow>
           Inr (case nw_get nw href (''/api/v1/repeaters/'' @ cd_repeaterId c) (''api-key '' @ cd_authToken c) of
                  Inr i \<Rightarrow> i = cd_repeaterId c | Inl _ \<Rightarrow> False))"

definition http_test :: "network \<Rightarrow> url \<Rightarrow> bool js_result" where
  "http_test nw u =
     (if url_protocol u \<in> {''http:'', ''https:''}
      then Inr (\<not> isl (nw_request nw (url_protocol u) (url_hostname u) (url_port u)))
      else Inl (type_error ''Cannot read properties of undefined''))"

definition traceroute_test :: "network \<Rightarrow> wizard_options \<Rightarrow> string \<Rightarrow> string list \<times> bool js_result" where
  "traceroute_test nw opt destination =
     (case nw_socket nw of
        Inl e \<Rightarrow> ([], Inl e)
      | Inr _ \<Rightarrow>
          let (out, reached) = nw_trace nw destination (new_options (wz_probes opt) (wz_maxTTL opt))
          in (out, Inr (case reached of Inr b \<Rightarrow> b | Inl _ \<Rightarrow> False)))"

record wizard_env =
  we_parse :: "string \<Rightarrow> url option"
  we_urls :: "test_type \<Rightarrow> (string \<times> url) option"
  we_network :: network
  we_json :: json_codec
  we_home :: string
  we_options :: wizard_options
  we_registry :: "test_type list"
  we_win32 :: bool

text \<open>\<open>DefaultConnectivityAnalyzer.verifyAccess\<close>, with what the test writes to the terminal.\<close>

definition verifyAccess :: "wizard_env \<Rightarrow> files \<Rightarrow> test_type \<Rightarrow> target option \<Rightarrow> string list \<times> bool js_result" where
  "verifyAccess env fs type tgt =
     (if type \<notin> set (we_registry env) then ([], Inl (mk_error ''Selected test is not support.''))
      else
        case (case tgt of Some t \<Rightarrow> Some t | None \<Rightarrow> map_option (\<lambda>(h, u). Target_Url h u) (we_urls env type)) of
          None \<Rightarrow> ([], Inl (type_error ''Cannot read properties of undefined''))
        | Some t \<Rightarrow>
            (case (type, t) of
               (T_AUTH, Target_Url h _) \<Rightarrow> ([], auth_test (we_network env) (readTokens (we_json env) (we_home env) fs) h)
             | (T_HTTP, Target_Url _ u) \<Rightarrow> ([], http_test (we_network env) u)
             | (T_TRACEROUTE, Target_Host h) \<Rightarrow> traceroute_test (we_network env) (we_options env) h
             | _ \<Rightarrow> ([], Inl (type_error ''unexpected target''))))"


section \<open>The wizard\<close>

datatype wizard =
  End | Throw js_error | Write string wizard | Complain string wizard | Save files wizard | Ask "string \<Rightarrow> wizard"

definition EOL :: string where
  "EOL = [CHR 0x0A]"

definition delimiter :: string where
  "delimiter = EOL @ [CHR 0x0D] @ ''--'' @ EOL"

definition URLS_QUESTION :: string where
  "URLS_QUESTION = ''Please enter the target URLs to test (separated by commas)''"

definition HOST_OR_IP_QUESTION :: string where
  "HOST_OR_IP_QUESTION = ''Please enter the target hostname or IP to test''"

definition COMPELED_MESSAGE :: string where
  "COMPELED_MESSAGE = ''Communication diagnostics done, close the terminal to exit.''"

definition INTERNAL_DIAGNOSTIC :: string where
  "INTERNAL_DIAGNOSTIC = ''Starting INTERNAL communication diagnostics:'' @ EOL"

definition console_log :: "string \<Rightarrow> wizard \<Rightarrow> wizard" where
  "console_log t w = Write (t @ EOL) w"

definition question :: "string \<Rightarrow> (string \<Rightarrow> wizard) \<Rightarrow> wizard" where
  "question q k = Write (q @ '': '') (Ask k)"

definition verdict :: "bool js_result \<Rightarrow> bool" where
  "verdict res = (case res of Inr b \<Rightarrow> b | Inl _ \<Rightarrow> False)"

text \<open>\<open>process\<close> in two parts: what is written at once and what after the test.\<close>

definition process_start :: "string \<Rightarrow> wizard \<Rightarrow> wizard" where
  "process_start t w = Write (t @ ''...'') (Write retype w)"

definition process_done :: "string \<Rightarrow> bool js_result \<Rightarrow> wizard \<Rightarrow> wizard" where
  "process_done t res w = console_log (t @ ''... '' @ (if verdict res then ''Success'' else ''Failed'')) w"

definition process :: "string \<Rightarrow> bool js_result \<Rightarrow> wizard \<Rightarrow> wizard" where
  "process t res w = process_start t (process_done t res w)"

definition getDelimitedInput :: "string \<Rightarrow> string \<Rightarrow> string list" where
  "getDelimitedInput value delim =
     (let inputVal = trim value in
      if inputVal = [] then [] else filter (\<lambda>x. x \<noteq> []) (map trim (split_on delim inputVal)))"

text \<open>
  The jobs of the pool by number: each starts once, in order, and is done once, after its start; the theory
  \<open>Pool\<close> has the order and the bound.
\<close>

datatype ping_event = Start nat | Done nat

fun ping_jobs :: "(nat \<Rightarrow> string) \<Rightarrow> (nat \<Rightarrow> bool js_result) \<Rightarrow> ping_event list \<Rightarrow> wizard \<Rightarrow> wizard" where
  "ping_jobs t res [] w = w"
| "ping_jobs t res (Start i # evs) w = process_start (t i) (ping_jobs t res evs w)"
| "ping_jobs t res (Done i # evs) w = process_done (t i) (res i) (ping_jobs t res evs w)"

fun reachedCount :: "(nat \<Rightarrow> bool js_result) \<Rightarrow> ping_event list \<Rightarrow> nat" where
  "reachedCount res [] = 0"
| "reachedCount res (Start i # evs) = reachedCount res evs"
| "reachedCount res (Done i # evs) = (if res i = Inr True then 1 else 0) + reachedCount res evs"

definition url_access :: "wizard_env \<Rightarrow> files \<Rightarrow> string \<Rightarrow> bool js_result" where
  "url_access env fs url =
     (case we_parse env url of
        None \<Rightarrow> Inl (type_error ''Invalid URL'')
      | Some u \<Rightarrow> snd (verifyAccess env fs T_HTTP (Some (Target_Url url u))))"

definition trying :: "string \<Rightarrow> string" where
  "trying u = ''Trying to reach '' @ u"

definition processPing :: "wizard_env \<Rightarrow> (nat \<Rightarrow> ping_event list) \<Rightarrow> files \<Rightarrow> wizard \<Rightarrow> wizard" where
  "processPing env schedule fs w =
     console_log (''Next step is to validate the connection to your INTERNAL (local) target application(s).'' @ EOL)
       (question URLS_QUESTION (\<lambda>line.
         let urls = getDelimitedInput line '','';
             res = (\<lambda>i. url_access env fs (urls ! i));
             evs = schedule (length urls)
         in console_log delimiter (console_log INTERNAL_DIAGNOSTIC
              (ping_jobs (\<lambda>i. trying (urls ! i)) res evs
                (Write EOL (console_log ''INTERNAL communication diagnostics completed.''
                  (console_log (nat_str (length urls - reachedCount res evs) @ '' out of '' @ nat_str (length urls) @
                     '' URLs could not be reached.'') w)))))))"

fun writes :: "string list \<Rightarrow> wizard \<Rightarrow> wizard" where
  "writes [] w = w"
| "writes (t # ts) w = Write t (writes ts w)"

definition win32_note :: string where
  "win32_note = ''Note: Some Windows users might need to allow the ICMP network traffic through a firewall to enable this functionality.''
     @ EOL @ ''      For more information, see: https://docs.brightsec.com/docs/cli-testing-network-connectivity'' @ EOL"

definition processTraceroute :: "wizard_env \<Rightarrow> files \<Rightarrow> wizard \<Rightarrow> wizard" where
  "processTraceroute env fs w =
     console_log (''Traceroute to your INTERNAL (local) target application.'' @ EOL)
       ((if we_win32 env then console_log win32_note else id)
         (question HOST_OR_IP_QUESTION (\<lambda>line.
           console_log delimiter (console_log INTERNAL_DIAGNOSTIC
             (let (out, res) = verifyAccess env fs T_TRACEROUTE (Some (Target_Host line)) in
              writes out
                (case res of
                   Inl e \<Rightarrow> Throw e
                 | Inr b \<Rightarrow> Write EOL (console_log (''Traceroute '' @ (if b then ''completed'' else ''failed'') @ ''.'') w)))))))"

definition requestTokens :: "wizard_env \<Rightarrow> files \<Rightarrow> (files \<Rightarrow> wizard) \<Rightarrow> wizard" where
  "requestTokens env fs k =
     question ''Please enter your Repeater ID'' (\<lambda>repeaterId.
       question ''Please enter your Repeater API Token'' (\<lambda>authToken.
         Write EOL
           (if authToken = [] \<or> \<not> AUTH_TOKEN_VALIDATION_REGEXP authToken
            then Complain ''Invalid value for authentication token'' (k fs)
            else if repeaterId = [] then Complain ''Invalid value for repeater id'' (k fs)
            else let fs' = writeTokens (we_json env) (we_home env) \<lparr>cd_authToken = authToken, cd_repeaterId = repeaterId\<rparr> fs
                 in Save fs' (k fs'))))"

definition processExternalCommunication :: "wizard_env \<Rightarrow> files \<Rightarrow> wizard \<Rightarrow> wizard" where
  "processExternalCommunication env fs w =
     console_log (''Starting EXTERNAL communication diagnostics:'' @ EOL)
       (case we_urls env T_HTTP of
          None \<Rightarrow> Throw (type_error ''Cannot read properties of undefined'')
        | Some (h, u) \<Rightarrow>
            process (''Validating the '' @ test_name T_HTTP @ '' connection to '' @ h)
              (snd (verifyAccess env fs T_HTTP (Some (Target_Url h u))))
              (process ''Verifying provided Token and Repeater ID'' (snd (verifyAccess env fs T_AUTH None))
                (Write EOL (console_log ''EXTERNAL communication diagnostics completed.'' w))))"

definition configure :: "wizard_env \<Rightarrow> (nat \<Rightarrow> ping_event list) \<Rightarrow> bool \<Rightarrow> files \<Rightarrow> wizard \<Rightarrow> wizard" where
  "configure env schedule ping fs w =
     (if ping then processPing env schedule fs w
      else
        console_log (''Welcome to the Bright Network Testing wizard!'' @ EOL)
          (console_log ''Note: To run the test, you will require a `Repeater ID` and an `Repeater Token` with the correct scopes.''
            (console_log ''If you are running the configuration as part of a POC, both of these should have been sent to you via your sales contact.''
              (Write EOL (requestTokens env fs (\<lambda>fs'.
                console_log delimiter (processExternalCommunication env fs'
                  (console_log delimiter (processPing env schedule fs' w)))))))))"

definition wizard_start :: "wizard_env \<Rightarrow> (nat \<Rightarrow> ping_event list) \<Rightarrow> bool \<Rightarrow> bool \<Rightarrow> files \<Rightarrow> wizard" where
  "wizard_start env schedule ping traceroute fs =
     (let goodbye = console_log delimiter (console_log COMPELED_MESSAGE End) in
      if traceroute then processTraceroute env fs goodbye else configure env schedule ping fs goodbye)"


section \<open>The command\<close>

definition getMapEntryOrThrow :: "(string \<Rightarrow> url option) \<Rightarrow> test_type \<Rightarrow> string \<Rightarrow> (test_type \<times> url) js_result" where
  "getMapEntryOrThrow parse type inp =
     (case parse inp of
        None \<Rightarrow> Inl (mk_error (''Invalid value for '' @ test_name type @ '' testing endpoint''))
      | Some u \<Rightarrow> Inr (type, u))"

definition connectivity_urls ::
  "(string \<Rightarrow> url option) \<Rightarrow> string option \<Rightarrow> string option \<Rightarrow> string \<Rightarrow> (test_type \<times> url) list js_result"
where
  "connectivity_urls parse http auth api =
     bind_res (getMapEntryOrThrow parse T_HTTP (case http of Some h \<Rightarrow> h | None \<Rightarrow> api)) (\<lambda>h.
     bind_res (getMapEntryOrThrow parse T_AUTH (case auth of Some a \<Rightarrow> a | None \<Rightarrow> api)) (\<lambda>a. Inr [h, a]))"


section \<open>The network test of the repeater\<close>

record network_hub =
  nh_stdout :: "string list"
  nh_stdin :: string
  nh_ended :: bool
  nh_uncaught :: "js_error list"

definition new_hub :: network_hub where
  "new_hub = \<lparr>nh_stdout = [], nh_stdin = [], nh_ended = False, nh_uncaught = []\<rparr>"

text \<open>A chunk of the child's output.\<close>

definition hub_data :: "url_parser \<Rightarrow> string list \<Rightarrow> string \<Rightarrow> network_hub \<Rightarrow> network_hub" where
  "hub_data parse inp chunk h =
     (let h1 = h\<lparr>nh_stdout := nh_stdout h @ filter (\<lambda>l. l \<noteq> []) (split_on EOL chunk)\<rparr>;
          h2 = (if str_includes chunk URLS_QUESTION then h1\<lparr>nh_stdin := nh_stdin h1 @ join '','' inp @ EOL\<rparr> else h1)
      in
      if str_includes chunk HOST_OR_IP_QUESTION then
        (case (case inp of [] \<Rightarrow> None | first # _ \<Rightarrow> parse first) of
           None \<Rightarrow> h2\<lparr>nh_uncaught := nh_uncaught h2 @ [type_error ''Invalid URL'']\<rparr>
         | Some u \<Rightarrow>
             let h3 = h2\<lparr>nh_stdin := nh_stdin h2 @ url_hostname u @ EOL\<rparr>
             in if str_includes chunk COMPELED_MESSAGE then h3\<lparr>nh_ended := True\<rparr> else h3)
      else if str_includes chunk COMPELED_MESSAGE then h2\<lparr>nh_ended := True\<rparr> else h2)"

definition hub_close :: "nat \<Rightarrow> network_hub \<Rightarrow> string js_result" where
  "hub_close n h =
     (if n \<noteq> 0 \<or> nh_stdout h = []
      then Inl (mk_error ([CHR 0x22] @ ''Network Diagnostic'' @ [CHR 0x22] @ '' did not start successfully. Process exited with code '' @ nat_str n))
      else Inr (processOutput URLS_QUESTION (nh_stdout h)))"

text \<open>
  The child and its parent together, each write arriving as a chunk of its own.  \<open>None\<close>: the child waits for
  input that does not come.  The child ends when its input has ended, and with code 1 after an error.
\<close>

primrec testNetwork :: "url_parser \<Rightarrow> string list \<Rightarrow> wizard \<Rightarrow> network_hub \<Rightarrow> string js_result option" where
  "testNetwork parse inp End h = (if nh_ended h then Some (hub_close 0 h) else None)"
| "testNetwork parse inp (Throw e) h = Some (hub_close 1 h)"
| "testNetwork parse inp (Write t w) h = testNetwork parse inp w (hub_data parse inp t h)"
| "testNetwork parse inp (Complain t w) h = testNetwork parse inp w h"
| "testNetwork parse inp (Save fs w) h = testNetwork parse inp w h"
| "testNetwork parse inp (Ask k) h =
     (case cut_at EOL (nh_stdin h) of
        None \<Rightarrow> None
      | Some (line, rest) \<Rightarrow> testNetwork parse inp (k line) (h\<lparr>nh_stdin := rest\<rparr>))"


section \<open>Tokens\<close>

definition codec_ok :: "json_codec \<Rightarrow> bool" where
  "codec_ok json \<longleftrightarrow> (\<forall>c. js_parse json (js_stringify json c) = Inr c)"

text \<open>
  Saved credentials are read back, whatever other files exist; the file of the former name is read only if
  there is no current one, and saving never changes it.
\<close>

theorem tokens_roundtrip:
  assumes "codec_ok json"
  shows "readTokens json home (writeTokens json home c fs) = Inr (Some c) \<and>
    sget (writeTokens json home c fs) (legacyPath home) = sget fs (legacyPath home) \<and>
    (sget fs (tokens_path home) = None \<longrightarrow> sget fs (legacyPath home) = Some (js_stringify json d) \<longrightarrow>
     readTokens json home fs = Inr (Some d))"
proof -
  have "tokens_path home \<noteq> legacyPath home" by (simp add: tokens_path_def legacyPath_def)
  with assms show ?thesis by (simp add: readTokens_def writeTokens_def codec_ok_def)
qed

definition plain_codec :: json_codec where
  "plain_codec = \<lparr>js_stringify = (\<lambda>c. nat_str (length (cd_authToken c)) @ '':'' @ cd_authToken c @ cd_repeaterId c),
     js_parse = (\<lambda>t. case cut_at '':'' t of
        None \<Rightarrow> Inl (mk_error ''Unexpected token'')
      | Some (n, rest) \<Rightarrow> Inr \<lparr>cd_authToken = take (digits_val n) rest, cd_repeaterId = drop (digits_val n) rest\<rparr>)\<rparr>"

lemma plain_codec_ok: "codec_ok plain_codec"
proof -
  have "CHR '':'' \<notin> set (nat_str n)" for n
    using nat_str_digits [of "CHR '':''" n] by (auto simp: is_digit_def code_def)
  then have "cut_at '':'' (nat_str n @ '':'' @ t) = Some (nat_str n, t)" for n t
    using cut_at_char_first [of "CHR '':''" "nat_str n"] by simp
  then show ?thesis by (simp add: codec_ok_def plain_codec_def digits_val_nat_str)
qed

theorem tokens_roundtrip_witness:
  "readTokens plain_codec ''/root'' (writeTokens plain_codec ''/root'' \<lparr>cd_authToken = ''t'', cd_repeaterId = ''r''\<rparr> []) =
     Inr (Some \<lparr>cd_authToken = ''t'', cd_repeaterId = ''r''\<rparr>) \<and>
   readTokens plain_codec ''/root'' [(''/root/.nexploit-cli'', js_stringify plain_codec \<lparr>cd_authToken = ''t'', cd_repeaterId = ''r''\<rparr>)] =
     Inr (Some \<lparr>cd_authToken = ''t'', cd_repeaterId = ''r''\<rparr>)"
  using tokens_roundtrip [OF plain_codec_ok, of "''/root''" "\<lparr>cd_authToken = ''t'', cd_repeaterId = ''r''\<rparr>" "[]"]
    tokens_roundtrip [OF plain_codec_ok, of "''/root''" _ "[(''/root/.nexploit-cli'', js_stringify plain_codec \<lparr>cd_authToken = ''t'', cd_repeaterId = ''r''\<rparr>)]"
      "\<lparr>cd_authToken = ''t'', cd_repeaterId = ''r''\<rparr>"]
  by (simp add: tokens_path_def legacyPath_def strip_slashes_def)


section \<open>Input separated by commas\<close>

definition plain_url :: "string \<Rightarrow> bool" where
  "plain_url u \<longleftrightarrow> u \<noteq> [] \<and> CHR '','' \<notin> set u \<and> (\<forall>c \<in> set u. \<not> is_space c)"

lemma trim_ends:
  assumes "u \<noteq> []" "\<not> is_space (hd u)" "\<not> is_space (last u)"
  shows "trim u = u"
proof -
  have d: "dropWhile is_space v = v" if "v \<noteq> []" "\<not> is_space (hd v)" for v
    using that by (cases v) auto
  show ?thesis using d [of u] d [of "rev u"] assms by (simp add: trim_def hd_rev)
qed

lemma trim_no_space: "\<forall>c \<in> set u. \<not> is_space c \<Longrightarrow> trim u = u"
  by (cases "u = []") (auto intro: trim_ends)

lemma split_join_char:
  assumes "\<forall>u \<in> set us. c \<notin> set u" "us \<noteq> []"
  shows "split_on [c] (join [c] us) = us"
  using assms
proof (induction "[c]" us rule: join.induct)
  case (3 x y ys)
  then show ?case by (simp add: split_char_append split_char_free)
qed (simp_all add: split_char_free)

lemma join_ends:
  assumes "us \<noteq> []" "\<forall>u \<in> set us. u \<noteq> []"
  shows "join sep us \<noteq> []" "hd (join sep us) = hd (hd us)" "last (join sep us) = last (last us)"
  using assms by (induction sep us rule: join.induct) (auto simp: join_Cons)

lemma delimited_roundtrip:
  assumes "\<forall>u \<in> set us. plain_url u"
  shows "getDelimitedInput (join '','' us) '','' = us"
proof (cases "us = []")
  case False
  have ne: "\<forall>u \<in> set us. u \<noteq> []" using assms by (auto simp: plain_url_def)
  note ends = join_ends [OF False ne, of "'',''"]
  have "hd us \<in> set us" "last us \<in> set us" using False by auto
  then have "plain_url (hd us)" "plain_url (last us)" using assms by auto
  then have "\<not> is_space (hd (hd us))" "\<not> is_space (last (last us))" by (auto simp: plain_url_def)
  with ends have t: "trim (join '','' us) = join '','' us" by (intro trim_ends) auto
  have "split_on '','' (join '','' us) = us" using assms False by (intro split_join_char) (auto simp: plain_url_def)
  moreover have "map trim us = us" using assms by (intro map_idI) (auto simp: plain_url_def intro: trim_no_space)
  moreover have "filter (\<lambda>x. x \<noteq> []) us = us" using ne by (simp add: filter_id_conv)
  ultimately show ?thesis using t ends(1) by (simp add: getDelimitedInput_def Let_def)
qed (simp add: getDelimitedInput_def)


section \<open>The test as the repeater sees it\<close>

definition quiet_text :: "string \<Rightarrow> bool" where
  "quiet_text t \<longleftrightarrow> \<not> str_includes t URLS_QUESTION \<and> \<not> str_includes t HOST_OR_IP_QUESTION \<and> \<not> str_includes t COMPELED_MESSAGE"

lemma hub_data_quiet:
  "quiet_text t \<Longrightarrow> hub_data parse inp t h = h\<lparr>nh_stdout := nh_stdout h @ filter (\<lambda>l. l \<noteq> []) (split_on EOL t)\<rparr>"
  by (simp add: hub_data_def quiet_text_def Let_def)

text \<open>A text is quiet if two words of the questions and of the last message are not among its words.\<close>

lemma quiet_words:
  assumes "''enter'' \<notin> set (split_on '' '' t)" "''diagnostics'' \<notin> set (split_on '' '' t)"
  shows "quiet_text t"
proof -
  have "\<not> sublist URLS_QUESTION t"
    using assms(1) split_char_word [of "''Please''" "CHR '' ''" "''enter''" "''the target URLs to test (separated by commas)''" t]
    by (auto simp: URLS_QUESTION_def)
  moreover have "\<not> sublist HOST_OR_IP_QUESTION t"
    using assms(1) split_char_word [of "''Please''" "CHR '' ''" "''enter''" "''the target hostname or IP to test''" t]
    by (auto simp: HOST_OR_IP_QUESTION_def)
  moreover have "\<not> sublist COMPELED_MESSAGE t"
    using assms(2) split_char_word [of "''Communication''" "CHR '' ''" "''diagnostics''" "''done, close the terminal to exit.''" t]
    by (auto simp: COMPELED_MESSAGE_def)
  ultimately show ?thesis unfolding quiet_text_def str_includes_iff by blast
qed

lemma EOL_not_space: "is_space (CHR 0x0A)" "is_space (CHR '' '')"
  by (simp_all add: is_space_def code_def)

lemma plain_url_chars: "plain_url u \<Longrightarrow> CHR 0x0A \<notin> set u" "plain_url u \<Longrightarrow> CHR '' '' \<notin> set u"
  using EOL_not_space by (auto simp: plain_url_def)

text \<open>The lines of a job.\<close>

definition job_line :: "string \<Rightarrow> bool js_result \<Rightarrow> string" where
  "job_line u res = trying u @ ''... '' @ (if verdict res then ''Success'' else ''Failed'')"

lemma trying_words: "CHR '' '' \<notin> set u \<Longrightarrow> split_on '' '' (trying u @ t) = [''Trying'', ''to'', ''reach''] @ split_on '' '' (u @ t)"
  using split_char_append [of "CHR '' ''" "''Trying''" "''to reach '' @ u @ t"]
    split_char_append [of "CHR '' ''" "''to''" "''reach '' @ u @ t"] split_char_append [of "CHR '' ''" "''reach''" "u @ t"]
  by (simp add: trying_def split_char_free)

lemma quiet_trying: "plain_url u \<Longrightarrow> quiet_text (trying u @ ''...'')"
  by (rule quiet_words) (auto simp: trying_words plain_url_chars split_char_free)

lemma quiet_job_line:
  assumes "plain_url u"
  shows "quiet_text (job_line u res @ EOL)"
proof -
  have "split_on '' '' (job_line u res @ EOL) =
    [''Trying'', ''to'', ''reach'', u @ ''...'', (if verdict res then ''Success'' else ''Failed'') @ EOL]"
    using assms split_char_append [of "CHR '' ''" "u @ ''...''" "(if verdict res then ''Success'' else ''Failed'') @ EOL"]
    by (simp add: job_line_def trying_words plain_url_chars split_char_free EOL_def)
  then show ?thesis by (intro quiet_words) (auto simp: EOL_def)
qed

lemma split_EOL_line: "CHR 0x0A \<notin> set t \<Longrightarrow> filter (\<lambda>l. l \<noteq> []) (split_on EOL (t @ EOL)) = (if t = [] then [] else [t])"
  using split_char_append [of "CHR 0x0A" t "[]"] by (simp add: EOL_def split_char_free)

lemma split_EOL_part: "CHR 0x0A \<notin> set t \<Longrightarrow> filter (\<lambda>l. l \<noteq> []) (split_on EOL t) = (if t = [] then [] else [t])"
  by (simp add: EOL_def split_char_free)

lemma quiet_retype: "quiet_text retype" "filter (\<lambda>l. l \<noteq> []) (split_on EOL retype) = [retype]"
  by (code_simp, code_simp)

fun event_lines :: "string list \<Rightarrow> (nat \<Rightarrow> bool js_result) \<Rightarrow> ping_event \<Rightarrow> string list" where
  "event_lines urls res (Start i) = [trying (urls ! i) @ ''...'', retype]"
| "event_lines urls res (Done i) = [job_line (urls ! i) (res i)]"

fun event_index :: "ping_event \<Rightarrow> nat" where
  "event_index (Start i) = i"
| "event_index (Done i) = i"

lemma testNetwork_jobs:
  assumes "\<forall>u \<in> set urls. plain_url u" "\<forall>ev \<in> set evs. event_index ev < length urls"
  shows "testNetwork parse inp (ping_jobs (\<lambda>i. trying (urls ! i)) res evs w) h =
    testNetwork parse inp w (h\<lparr>nh_stdout := nh_stdout h @ concat (map (event_lines urls res) evs)\<rparr>)"
  using assms(2)
proof (induction evs arbitrary: h)
  case (Cons ev evs)
  define u where "u = urls ! event_index ev"
  have u: "plain_url u" using Cons.prems assms(1) by (simp add: u_def)
  then have e: "CHR 0x0A \<notin> set (trying u @ ''...'')" "CHR 0x0A \<notin> set (job_line u r)" for r
    using plain_url_chars(1) [OF u] by (auto simp: trying_def job_line_def)
  have job_data: "testNetwork parse inp (process_done (trying u) r v) g =
      testNetwork parse inp v (g\<lparr>nh_stdout := nh_stdout g @ [job_line u r]\<rparr>)" for r g v
  proof -
    have "job_line u r \<noteq> []" by (simp add: job_line_def trying_def)
    then show ?thesis
      using hub_data_quiet [OF quiet_job_line [OF u], of parse inp r g] split_EOL_line [OF e(2), of r]
      by (simp only: process_done_def console_log_def testNetwork.simps job_line_def [symmetric] if_False)
  qed
  show ?case
  proof (cases ev)
    case (Start i)
    with u e Cons show ?thesis
      by (simp add: process_start_def hub_data_quiet quiet_trying quiet_retype split_EOL_part u_def)
  next
    case (Done i)
    with Cons job_data show ?thesis by (simp add: u_def)
  qed
qed simp

text \<open>The clean-up of the output by recursion on the lines.\<close>

fun clean :: "string list \<Rightarrow> string list" where
  "clean [] = []"
| "clean (x # xs) =
     (if endsWith x retype \<or> (xs \<noteq> [] \<and> hd xs = retype) then clean xs else x # clean xs)"

lemma clean_indexed:
  "map snd (filter (\<lambda>(i, el). \<not> (endsWith el retype \<or> (Suc i < length (pre @ inp) \<and> (pre @ inp) ! Suc i = retype)))
     (zip [length pre ..< length (pre @ inp)] inp)) = clean inp"
proof (induction inp arbitrary: pre)
  case (Cons x xs)
  have z: "zip [length pre ..< length (pre @ x # xs)] (x # xs) = (length pre, x) # zip [length (pre @ [x]) ..< length ((pre @ [x]) @ xs)] xs"
    using upt_conv_Cons [of "length pre" "length (pre @ x # xs)"] by (simp del: upt_Suc)
  have n: "(Suc (length pre) < length (pre @ x # xs) \<and> (pre @ x # xs) ! Suc (length pre) = retype) \<longleftrightarrow> (xs \<noteq> [] \<and> hd xs = retype)"
    by (cases xs) (auto simp: nth_append)
  show ?case unfolding z using Cons.IH [of "pre @ [x]"] n by (auto simp del: upt_Suc)
qed simp

lemma processOutput_clean: "processOutput q inp = join EOL (filter (\<lambda>x. \<not> startsWith x q) (clean inp))"
  using clean_indexed [of "[]" inp] by (simp add: processOutput_def EOL_def)

fun dones :: "ping_event list \<Rightarrow> nat list" where
  "dones [] = []"
| "dones (Start i # evs) = dones evs"
| "dones (Done i # evs) = i # dones evs"

lemma verdict_iff: "verdict r \<longleftrightarrow> r = Inr True"
  by (cases r) (auto simp: verdict_def)

lemma reachedCount_dones: "reachedCount res evs = length (filter (\<lambda>i. verdict (res i)) (dones evs))"
  by (induction evs rule: dones.induct) (auto simp: verdict_iff)

lemma unreached_count:
  assumes "mset (dones evs) = mset [0 ..< length urls]"
  shows "length urls - reachedCount (\<lambda>i. f (urls ! i)) evs = length (filter (\<lambda>u. \<not> verdict (f u)) urls)"
proof -
  have "length (filter (\<lambda>i. verdict (f (urls ! i))) (dones evs)) = length (filter (\<lambda>i. verdict (f (urls ! i))) [0 ..< length urls])"
    using assms by (metis mset_filter size_mset)
  also have "\<dots> = length (filter (\<lambda>u. verdict (f u)) (map ((!) urls) [0 ..< length urls]))"
    by (simp add: filter_map o_def)
  finally have "reachedCount (\<lambda>i. f (urls ! i)) evs = length (filter (\<lambda>u. verdict (f u)) urls)"
    by (simp add: reachedCount_dones map_nth)
  with sum_length_filter_compl [of "\<lambda>u. verdict (f u)" urls] show ?thesis by simp
qed

lemma job_line_kept: "\<not> endsWith (job_line u r) retype" "\<not> startsWith (job_line u r) URLS_QUESTION" "job_line u r \<noteq> retype"
  by (simp_all add: job_line_def trying_def retype_def endsWith_def startsWith_def URLS_QUESTION_def)

lemma clean_jobs:
  assumes "rest \<noteq> [] \<Longrightarrow> hd rest \<noteq> retype"
  shows "clean (concat (map (event_lines urls res) evs) @ rest) = map (\<lambda>i. job_line (urls ! i) (res i)) (dones evs) @ clean rest \<and>
    (concat (map (event_lines urls res) evs) @ rest \<noteq> [] \<longrightarrow> hd (concat (map (event_lines urls res) evs) @ rest) \<noteq> retype)"
proof (induction evs rule: dones.induct)
  case (2 i evs)
  have "endsWith retype retype" by (simp add: endsWith_def)
  moreover have "trying u @ ''...'' \<noteq> retype" for u by (simp add: trying_def retype_def)
  ultimately show ?case using 2 by simp
qed (use assms job_line_kept in auto)

section \<open>The report\<close>

definition next_step :: string where
  "next_step = ''Next step is to validate the connection to your INTERNAL (local) target application(s).''"

definition completed :: string where
  "completed = ''INTERNAL communication diagnostics completed.''"

lemma fixed_chunks:
  "quiet_text (next_step @ EOL @ EOL)" "filter (\<lambda>l. l \<noteq> []) (split_on EOL (next_step @ EOL @ EOL)) = [next_step]"
  "quiet_text (delimiter @ EOL)" "filter (\<lambda>l. l \<noteq> []) (split_on EOL (delimiter @ EOL)) = [[CHR 0x0D] @ ''--'']"
  "quiet_text (INTERNAL_DIAGNOSTIC @ EOL)"
  "filter (\<lambda>l. l \<noteq> []) (split_on EOL (INTERNAL_DIAGNOSTIC @ EOL)) = [''Starting INTERNAL communication diagnostics:'']"
  "quiet_text EOL" "filter (\<lambda>l. l \<noteq> []) (split_on EOL EOL) = []"
  "quiet_text (completed @ EOL)"
  "filter (\<lambda>l. l \<noteq> []) (split_on EOL (completed @ EOL)) =
     [completed]"
  by code_simp+

lemma question_chunk:
  "hub_data parse inp (URLS_QUESTION @ '': '') h =
     h\<lparr>nh_stdout := nh_stdout h @ [URLS_QUESTION @ '': ''], nh_stdin := nh_stdin h @ join '','' inp @ EOL\<rparr>"
proof -
  have "str_includes (URLS_QUESTION @ '': '') URLS_QUESTION" "\<not> str_includes (URLS_QUESTION @ '': '') HOST_OR_IP_QUESTION"
    "\<not> str_includes (URLS_QUESTION @ '': '') COMPELED_MESSAGE"
    "filter (\<lambda>l. l \<noteq> []) (split_on EOL (URLS_QUESTION @ '': '')) = [URLS_QUESTION @ '': '']"
    by code_simp+
  then show ?thesis by (simp add: hub_data_def Let_def)
qed

lemma last_chunk: "hub_data parse inp (COMPELED_MESSAGE @ EOL) h = h\<lparr>nh_stdout := nh_stdout h @ [COMPELED_MESSAGE], nh_ended := True\<rparr>"
proof -
  have "\<not> str_includes (COMPELED_MESSAGE @ EOL) URLS_QUESTION" "\<not> str_includes (COMPELED_MESSAGE @ EOL) HOST_OR_IP_QUESTION"
    "str_includes (COMPELED_MESSAGE @ EOL) COMPELED_MESSAGE"
    "filter (\<lambda>l. l \<noteq> []) (split_on EOL (COMPELED_MESSAGE @ EOL)) = [COMPELED_MESSAGE]"
    by code_simp+
  then show ?thesis by (simp add: hub_data_def Let_def)
qed

definition count_line :: "nat \<Rightarrow> nat \<Rightarrow> string" where
  "count_line k n = nat_str k @ '' out of '' @ nat_str n @ '' URLs could not be reached.''"

lemma nat_str_no: "\<not> is_digit c \<Longrightarrow> c \<notin> set (nat_str n)"
  using nat_str_digits by blast

lemma count_line_words:
  "split_on '' '' (count_line k n @ EOL) = [nat_str k, ''out'', ''of'', nat_str n, ''URLs'', ''could'', ''not'', ''be'', ''reached.'' @ EOL]"
proof -
  have d: "CHR '' '' \<notin> set (nat_str m)" for m by (rule nat_str_no) (simp add: is_digit_def code_def)
  have "split_on '' '' (count_line k n @ EOL) = split_on '' '' (nat_str k) @ split_on '' '' ''out'' @ split_on '' '' ''of'' @
      split_on '' '' (nat_str n) @ split_on '' '' (''URLs could not be reached.'' @ EOL)"
    unfolding split_char_append [symmetric] by (simp add: count_line_def)
  also have "split_on '' '' (''URLs could not be reached.'' @ EOL) = [''URLs'', ''could'', ''not'', ''be'', ''reached.'' @ EOL]"
    by code_simp
  finally show ?thesis using d by (simp add: split_char_free)
qed

lemma count_chunk: "quiet_text (count_line k n @ EOL)"
  "filter (\<lambda>l. l \<noteq> []) (split_on EOL (count_line k n @ EOL)) = [count_line k n]"
proof -
  have "''enter'' \<noteq> nat_str m" "''diagnostics'' \<noteq> nat_str m" for m
  proof -
    have "CHR ''e'' \<notin> set (nat_str m)" "CHR ''d'' \<notin> set (nat_str m)" by (rule nat_str_no; simp add: is_digit_def code_def)+
    moreover have "CHR ''e'' \<in> set ''enter''" "CHR ''d'' \<in> set ''diagnostics''" by simp_all
    ultimately show "''enter'' \<noteq> nat_str m" "''diagnostics'' \<noteq> nat_str m" by metis+
  qed
  then show "quiet_text (count_line k n @ EOL)" by (intro quiet_words; simp add: count_line_words)
  have "CHR 0x0A \<notin> set (nat_str m)" for m by (rule nat_str_no) (simp add: is_digit_def code_def)
  then have "CHR 0x0A \<notin> set (count_line k n)" by (simp add: count_line_def)
  then show "filter (\<lambda>l. l \<noteq> []) (split_on EOL (count_line k n @ EOL)) = [count_line k n]"
    by (simp add: split_EOL_line) (simp add: count_line_def)
qed

lemma plain_join_no_EOL: "\<forall>u \<in> set urls. plain_url u \<Longrightarrow> CHR 0x0A \<notin> set (join '','' urls)"
  by (induction "'',''" urls rule: join.induct) (auto dest: plain_url_chars)

lemma fixed_lines_kept:
  "clean [completed, count_line k n, [CHR 0x0D] @ ''--'', COMPELED_MESSAGE] =
     [completed, count_line k n, [CHR 0x0D] @ ''--'', COMPELED_MESSAGE]"
  "\<not> startsWith (count_line k n) URLS_QUESTION"
proof -
  have "CHR ''P'' \<notin> set (nat_str k)" by (rule nat_str_no) (simp add: is_digit_def code_def)
  then show "\<not> startsWith (count_line k n) URLS_QUESTION"
    by (cases "nat_str k") (auto simp: count_line_def startsWith_def URLS_QUESTION_def)
  have "CHR 0x1B \<notin> set (nat_str k)" by (rule nat_str_no) (simp add: is_digit_def code_def)
  then have "count_line k n \<noteq> retype" by (cases "nat_str k") (auto simp: count_line_def retype_def)
  then show "clean [completed, count_line k n, [CHR 0x0D] @ ''--'', COMPELED_MESSAGE] =
     [completed, count_line k n, [CHR 0x0D] @ ''--'', COMPELED_MESSAGE]"
    by (simp add: endsWith_def retype_def count_line_def COMPELED_MESSAGE_def completed_def)
qed


definition sample_wizard :: wizard_env where
  "sample_wizard = \<lparr>we_parse = (\<lambda>t. Some \<lparr>url_protocol = ''http:'', url_host = t, url_hostname = t, url_port = []\<rparr>),
     we_urls = (\<lambda>_. None),
     we_network = \<lparr>nw_get = (\<lambda>_ _ _. Inl (mk_error ''offline'')),
       nw_request = (\<lambda>_ host _. if host = ''http://b'' then Inr () else Inl (mk_error ''offline'')),
       nw_socket = Inr (), nw_trace = (\<lambda>_ _. ([], Inr True))\<rparr>,
     we_json = plain_codec, we_home = ''/root'', we_options = \<lparr>wz_maxTTL = None, wz_probes = None\<rparr>,
     we_registry = [T_HTTP, T_TRACEROUTE, T_AUTH], we_win32 = False\<rparr>"

lemma sample_access:
  "url_access sample_wizard fs ''http://a'' = Inr False" "url_access sample_wizard fs ''http://b'' = Inr True"
  by (simp_all add: sample_wizard_def url_access_def verifyAccess_def http_test_def)


lemma question_rest:
  "\<not> sublist URLS_QUESTION (drop 1 (URLS_QUESTION @ '': ''))" "\<not> sublist HOST_OR_IP_QUESTION (URLS_QUESTION @ '': '')"
  "\<not> sublist COMPELED_MESSAGE (URLS_QUESTION @ '': '')"
  unfolding str_includes_iff [symmetric] by code_simp+

text \<open>
  The repeater looks for the wizard's question within single chunks: if the prompt arrives in two pieces, cut at
  any place inside the question, it is never answered and the network test never ends.
\<close>

theorem split_question_unanswered:
  assumes "0 < i" and "i < length URLS_QUESTION" and "CHR 0x0A \<notin> set (nh_stdin h)"
  shows "testNetwork parse inp (Write (take i (URLS_QUESTION @ '': '')) (Write (drop i (URLS_QUESTION @ '': '')) (Ask k))) h = None"
proof -
  let ?q = "URLS_QUESTION @ '': ''"
  have t: "sublist (take i ?q) ?q" and d: "sublist (drop i ?q) (drop 1 ?q)" "sublist (drop 1 ?q) ?q"
  proof -
    show "sublist (take i ?q) ?q" by (metis take_is_prefix prefix_imp_sublist)
    have "drop i ?q = drop (i - 1) (drop 1 ?q)" unfolding drop_drop using assms(1) by simp
    then show "sublist (drop i ?q) (drop 1 ?q)" by (metis suffix_drop suffix_imp_sublist)
    show "sublist (drop 1 ?q) ?q" by (metis suffix_drop suffix_imp_sublist)
  qed
  have "\<not> sublist URLS_QUESTION (take i ?q)"
    using assms(2) sublist_length_le [of URLS_QUESTION "take i ?q"] by auto
  with t have qt: "quiet_text (take i ?q)"
    using question_rest(2,3) unfolding quiet_text_def str_includes_iff by (meson sublist_order.order_trans)
  have qd: "quiet_text (drop i ?q)"
    using question_rest d unfolding quiet_text_def str_includes_iff by (meson sublist_order.order_trans)
  have "cut_at EOL (nh_stdin h) = None" using assms(3) by (simp add: EOL_def cut_at_char_None)
  then show ?thesis unfolding testNetwork.simps hub_data_quiet [OF qt] hub_data_quiet [OF qd] by simp
qed

theorem split_question_unanswered_witness:
  "testNetwork (\<lambda>_. None) [''http://a''] (Write (take 6 (URLS_QUESTION @ '': '')) (Write (drop 6 (URLS_QUESTION @ '': '')) (Ask (\<lambda>_. End)))) new_hub = None"
  by (rule split_question_unanswered) (simp_all add: URLS_QUESTION_def new_hub_def)

end
