(* ===== verification/Config.thy ===== *)
theory Config
  imports Cli
begin

text \<open>
  Configuration (\<open>src/Config\<close>) and the logger (\<open>src/Utils/Logger.ts\<close>): the system configuration that is fetched
  from the cloud and kept in a file, the user's configuration files, the information about the package, the
  middlewares of the command line, and what the logger writes where.  The clock, the file system, the readers of
  YAML, JSON and modules, \<open>find-up\<close>, \<open>util.format\<close> on the arguments of a message and the colours are parameters.
\<close>

section \<open>The system configuration\<close>

text \<open>\<open>None\<close> in \<open>sf_updatedAt\<close> is an invalid date.\<close>

record system_file =
  sf_sentryDsn :: "string option"
  sf_updatedAt :: "int option"

datatype disk = Missing | Unreadable | Stored system_file

definition rotationInterval :: int where
  "rotationInterval = 3600000"

definition defaultConfigFile :: "int \<Rightarrow> system_file" where
  "defaultConfigFile now = \<lparr>sf_sentryDsn = None, sf_updatedAt = Some now\<rparr>"

definition getConfigFile :: "int \<Rightarrow> disk \<Rightarrow> system_file" where
  "getConfigFile now d = (case d of Stored f \<Rightarrow> f | _ \<Rightarrow> defaultConfigFile now)"

definition needsRotation :: "bool \<Rightarrow> int \<Rightarrow> system_file \<Rightarrow> bool" where
  "needsRotation production now f \<longleftrightarrow>
     production \<and> (case sf_updatedAt f of None \<Rightarrow> False | Some t \<Rightarrow> rotationInterval \<le> now - t)"

definition updateConfigFile :: "bool \<Rightarrow> system_file \<Rightarrow> disk \<Rightarrow> disk" where
  "updateConfigFile writable f d = (if writable then Stored f else d)"

text \<open>
  One rotation: when the file is read, when its age is computed and when it is written; what the service
  answers (\<open>None\<close>: an error or no data) and whether the file can be written.
\<close>

record rotation =
  ro_read :: int
  ro_check :: int
  ro_write :: int
  ro_answer :: "string option option"
  ro_writable :: bool

definition rotateIfNecessary :: "bool \<Rightarrow> rotation \<Rightarrow> disk \<Rightarrow> bool \<times> int list \<times> disk" where
  "rotateIfNecessary production r d =
     (let f = getConfigFile (ro_read r) d in
      if \<not> needsRotation production (ro_check r) f then (False, [], d)
      else
        case ro_answer r of
          Some dsn \<Rightarrow>
            (True, [ro_check r],
             updateConfigFile (ro_writable r) \<lparr>sf_sentryDsn = dsn, sf_updatedAt = Some (ro_write r)\<rparr> d)
        | None \<Rightarrow> (False, [ro_check r], updateConfigFile (ro_writable r) (f\<lparr>sf_updatedAt := Some (ro_write r)\<rparr>) d))"

definition read_config :: "bool \<Rightarrow> string option \<Rightarrow> rotation \<Rightarrow> disk \<Rightarrow> string option \<times> int list \<times> disk" where
  "read_config production SENTRY_DSN r d =
     (let (_, fetches, d') = rotateIfNecessary production r d;
          f = getConfigFile (ro_write r) d'
      in (nullish (sf_sentryDsn f) SENTRY_DSN, fetches, d'))"

text \<open>The background loop over its wake-ups: when it fetched, what it handed on, and the file at the end.\<close>

fun runBackgroundRotation :: "bool \<Rightarrow> rotation list \<Rightarrow> disk \<Rightarrow> int list \<times> string option list \<times> disk" where
  "runBackgroundRotation production [] d = ([], [], d)"
| "runBackgroundRotation production (r # rs) d =
     (let (isRotated, fetches, d') = rotateIfNecessary production r d;
          handed = (if isRotated then [sf_sentryDsn (getConfigFile (ro_write r) d')] else []);
          (fetches', handed', d'') = runBackgroundRotation production rs d'
      in (fetches @ fetches', handed @ handed', d''))"


section \<open>The user's configuration\<close>

definition rcOptions :: "string list" where
  "rcOptions = [''.brightrc'', ''.brightrc.json'', ''.brightrc.yml'', ''.brightrc.yaml'', ''bright.config.js'',
     ''.nexploitrc'', ''.nexploitrc.json'', ''.nexploitrc.yml'', ''.nexploitrc.yaml'', ''nexploit.config.js'']"

type_synonym 'v rc_data = "(string, 'v option) store"

datatype 'v exported = Config_Object "'v rc_data" | Config_Function "'v rc_data js_result"

text \<open>\<open>vm_module\<close> is \<open>context.module?.exports\<close> after the script has run, \<open>vm_exports\<close> is \<open>context.exports\<close>.\<close>

record 'v vm_context =
  vm_module :: "'v exported option"
  vm_exports :: "'v exported"

record 'v rc_readers =
  rr_file :: "string \<Rightarrow> string js_result"
  rr_script :: "string \<Rightarrow> 'v vm_context js_result"
  rr_yaml :: "string \<Rightarrow> 'v rc_data js_result"
  rr_json :: "string \<Rightarrow> 'v rc_data js_result"

definition loadCommonJsModule :: "'v rc_readers \<Rightarrow> string \<Rightarrow> 'v rc_data js_result" where
  "loadCommonJsModule rd filename =
     bind_res (rr_file rd filename) (\<lambda>code.
     bind_res (rr_script rd code) (\<lambda>context.
       case (case vm_module context of Some x \<Rightarrow> x | None \<Rightarrow> vm_exports context) of
         Config_Object m \<Rightarrow> Inr m
       | Config_Function res \<Rightarrow> res))"

definition configure_rc :: "'v rc_data \<Rightarrow> (string, 'v) store \<Rightarrow> (string, 'v) store" where
  "configure_rc m cfg = foldl (\<lambda>c (k, v). sset k v c) cfg (omit m)"

definition load_rc :: "'v rc_readers \<Rightarrow> string \<Rightarrow> (string, 'v) store \<Rightarrow> (string, 'v) store js_result" where
  "load_rc rd rcPath cfg =
     (let rcExt = extname (toLowerCase rcPath) in
      bind_res
        (if rcExt = ''.js'' then loadCommonJsModule rd rcPath
         else if rcExt = ''.yml'' \<or> rcExt = ''.yaml'' then bind_res (rr_file rd rcPath) (rr_yaml rd)
         else bind_res (rr_file rd rcPath) (rr_json rd))
        (\<lambda>m. Inr (configure_rc m cfg)))"

definition toJSON_rc :: "(string, 'v) store \<Rightarrow> (string, 'v) store" where
  "toJSON_rc cfg = foldl (\<lambda>acc (k, v). sset k v acc) [] cfg"

record package_data =
  pk_version :: "string option"
  pk_distribution :: "string option"

record cli_info =
  ci_cwd :: string
  ci_version :: "string option"
  ci_distribution :: "string option"

text \<open>\<open>find_up\<close> is the path of the nearest \<open>package.json\<close>; \<open>pkg\<close> its content, if it can be read and parsed.\<close>

definition getPackagePath :: "(string \<Rightarrow> string option) \<Rightarrow> string option \<Rightarrow> string \<Rightarrow> string \<Rightarrow> string option" where
  "getPackagePath find_up BRIGHT_CWD process_cwd cwd =
     find_up (if cwd \<noteq> [] then cwd else if truthy BRIGHT_CWD then the BRIGHT_CWD else process_cwd)"

definition new_cli_info ::
  "(string \<Rightarrow> string option) \<Rightarrow> (string \<Rightarrow> package_data option) \<Rightarrow> string option \<Rightarrow> string option \<Rightarrow> string \<Rightarrow> string \<Rightarrow> cli_info"
where
  "new_cli_info find_up pkg VERSION BRIGHT_CWD process_cwd cwd =
     (let packagePath = getPackagePath find_up BRIGHT_CWD process_cwd cwd;
          packageData = Option.bind packagePath pkg
      in \<lparr>ci_cwd = (if truthy packagePath then path_dir (the packagePath) else cwd),
          ci_version = nullish VERSION (Option.bind packageData pk_version),
          ci_distribution = Option.bind packageData pk_distribution\<rparr>)"


section \<open>The logger\<close>

record log_options =
  lo_maxSize :: "string option"
  lo_maxFiles :: "nat option"
  lo_interval :: "string option"
  lo_compress :: "string option"

record log_stream =
  st_path :: string
  st_options :: log_options
  st_lines :: "string list"

text \<open>A level of \<open>None\<close> is \<open>undefined\<close>, with which every comparison is false.\<close>

record logger =
  lg_level :: "nat option"
  lg_options :: log_options
  lg_stream :: "log_stream option"
  lg_ended :: "log_stream list"
  lg_stdout :: "string list"
  lg_stderr :: "string list"

definition or_else :: "string option \<Rightarrow> string \<Rightarrow> string option" where
  "or_else x d = (if truthy x then x else Some d)"

definition log_defaults :: "log_options \<Rightarrow> log_options" where
  "log_defaults options =
     \<lparr>lo_maxSize = or_else (lo_maxSize options) ''10MB'',
      lo_maxFiles = nullish (lo_maxFiles options) (Some 5),
      lo_interval = or_else (lo_interval options) ''1d'',
      lo_compress = nullish (lo_compress options) (Some ''gzip'')\<rparr>"

definition set_logFile :: "string option \<Rightarrow> logger \<Rightarrow> logger" where
  "set_logFile filePath g =
     (let g1 = g\<lparr>lg_ended := lg_ended g @ (case lg_stream g of None \<Rightarrow> [] | Some st \<Rightarrow> [st]), lg_stream := None\<rparr>
      in if truthy filePath
         then g1\<lparr>lg_stream := Some \<lparr>st_path = the filePath, st_options = lg_options g1, st_lines = []\<rparr>\<rparr> else g1)"

definition no_options :: log_options where
  "no_options = \<lparr>lo_maxSize = None, lo_maxFiles = None, lo_interval = None, lo_compress = None\<rparr>"

definition new_logger :: "nat option \<Rightarrow> string option \<Rightarrow> log_options \<Rightarrow> logger" where
  "new_logger logLevel logFile options =
     (let g = \<lparr>lg_level = nullish logLevel (Some 3), lg_options = log_defaults options, lg_stream = None,
               lg_ended = [], lg_stdout = [], lg_stderr = []\<rparr>
      in if truthy logFile then set_logFile logFile g else g)"

definition configure_logger :: "nat option \<Rightarrow> string option \<Rightarrow> log_options \<Rightarrow> logger \<Rightarrow> logger" where
  "configure_logger logLevel logFile options g =
     (let g1 = g\<lparr>lg_level := nullish logLevel (Some 3), lg_options := log_defaults options\<rparr>
      in if truthy logFile then set_logFile logFile g1 else g1)"

definition MAX_FORMATTED_LEVEL_LENGTH :: nat where
  "MAX_FORMATTED_LEVEL_LENGTH =
     length (last (sort_key length (map nat_str [0 ..< length LOG_LEVELS] @ LOG_LEVELS)))"

definition padEnd :: "nat \<Rightarrow> string \<Rightarrow> string" where
  "padEnd n t = t @ replicate (n - length t) (CHR '' '')"

definition formatMessage :: "string \<Rightarrow> string \<Rightarrow> string \<Rightarrow> string" where
  "formatMessage now level message =
     now @ '' ['' @ padEnd MAX_FORMATTED_LEVEL_LENGTH (toUpperCase level) @ ''] '' @ message"

definition writeToFile :: "string \<Rightarrow> logger \<Rightarrow> logger" where
  "writeToFile message g =
     g\<lparr>lg_stream := map_option (\<lambda>st. st\<lparr>st_lines := st_lines st @ [message]\<rparr>) (lg_stream g)\<rparr>"

text \<open>
  The methods \<open>error\<close>, \<open>warn\<close>, \<open>log\<close>, \<open>debug\<close> and \<open>trace\<close> by the number of their level; \<open>color\<close> is the colour the
  method uses on a terminal.
\<close>

definition log_at :: "(nat \<Rightarrow> string \<Rightarrow> string) \<Rightarrow> string \<Rightarrow> nat \<Rightarrow> string \<Rightarrow> logger \<Rightarrow> logger" where
  "log_at color now level message g =
     (if (case lg_level g of None \<Rightarrow> False | Some l \<Rightarrow> l < level) then g
      else
        let formatted = formatMessage now (LOG_LEVELS ! level) message;
            g1 = (if lg_stream g \<noteq> None then g
                  else if level = 1 then g\<lparr>lg_stderr := lg_stderr g @ [color level formatted]\<rparr>
                  else g\<lparr>lg_stdout := lg_stdout g @ [color level formatted]\<rparr>)
        in writeToFile formatted g1)"

text \<open>\<open>error\<close> given an error: its message unless another is given, and its stack as a further argument.\<close>

definition error_text :: "(string \<Rightarrow> string list \<Rightarrow> string) \<Rightarrow> string \<Rightarrow> string option \<Rightarrow> string option \<Rightarrow> string list \<Rightarrow> string" where
  "error_text fmt err_text stack message args =
     fmt (if truthy message then the message else err_text)
       (args @ (if truthy stack then [[CHR 0x0A] @ the stack] else []))"


section \<open>The middlewares of the command line\<close>

text \<open>\<open>ms\<close> reads a duration; \<open>num\<close> is the conversion to a number, \<open>None\<close> for \<open>NaN\<close>.\<close>

definition coerce_timeout :: "(string \<Rightarrow> int option) \<Rightarrow> (string \<Rightarrow> int option) \<Rightarrow> string \<Rightarrow> int option" where
  "coerce_timeout num ms arg = (case num arg of None \<Rightarrow> ms arg | Some n \<Rightarrow> Some (n * 1000))"

record log_args =
  la_logLevel :: string
  la_logFile :: "string option"
  la_logMaxSize :: "string option"
  la_logMaxFiles :: "nat option"
  la_logRotateInterval :: "string option"
  la_logCompress :: "bool option"

definition log_options_of :: "log_args \<Rightarrow> log_options" where
  "log_options_of a =
     \<lparr>lo_maxSize = la_logMaxSize a, lo_maxFiles = la_logMaxFiles a, lo_interval = la_logRotateInterval a,
      lo_compress = (if la_logCompress a = Some False then None else Some ''gzip'')\<rparr>"

fun index_of :: "'a \<Rightarrow> 'a list \<Rightarrow> nat option" where
  "index_of x [] = None"
| "index_of x (y # ys) = (if x = y then Some 0 else map_option Suc (index_of x ys))"

definition log_level_of :: "string \<Rightarrow> nat option" where
  "log_level_of logLevel =
     (if logLevel \<noteq> [] \<and> list_all is_digit logLevel then Some (digits_val logLevel)
      else index_of (toUpperCase logLevel) LOG_LEVELS)"

text \<open>
  The middlewares in their order: the rotating file with its options, then the file again from the second one,
  and the level from the last one.
\<close>

definition log_middlewares :: "log_args \<Rightarrow> logger \<Rightarrow> logger" where
  "log_middlewares a g =
     (let g1 = (if truthy (la_logFile a) then configure_logger None (la_logFile a) (log_options_of a) g else g);
          g2 = (if truthy (la_logFile a) then set_logFile (la_logFile a) g1 else g1)
      in g2\<lparr>lg_level := log_level_of (la_logLevel a)\<rparr>)"

text \<open>What is reported to Sentry about the arguments.\<close>

definition filtered :: "string option \<Rightarrow> string option" where
  "filtered v = (if truthy v then Some ''[Filtered]'' else v)"

definition beforeSend :: "(string, string option) store \<Rightarrow> (string, string option) store" where
  "beforeSend args =
     sset ''token'' (filtered (Option.bind (sget args ''token'') id))
       (sset ''t'' (filtered (Option.bind (sget args ''t'') id)) args)"


section \<open>Rotation\<close>

lemma fresh_never_needs:
  "(\<And>f. d \<noteq> Stored f) \<Longrightarrow> ro_check r - ro_read r < rotationInterval \<Longrightarrow>
   rotateIfNecessary production r d = (False, [], d)"
  by (cases d) (auto simp: rotateIfNecessary_def getConfigFile_def defaultConfigFile_def needsRotation_def Let_def)

text \<open>
  Without a readable file the system configuration is never fetched: the age is computed from a default whose
  date is the present, so in any number of rotations, each with its check within an hour of its read, no request
  is made, no file is written and nothing is handed on.
\<close>

theorem system_config_never_fetched:
  assumes "d \<in> {Missing, Unreadable}" and "\<forall>r \<in> set rs. ro_check r - ro_read r < rotationInterval"
  shows "runBackgroundRotation production rs d = ([], [], d)"
  using assms(2)
proof (induction rs)
  case (Cons r rs)
  have "rotateIfNecessary production r d = (False, [], d)"
    using assms(1) Cons.prems by (intro fresh_never_needs) auto
  with Cons show ?case by simp
qed simp

theorem system_config_never_fetched_witness:
  "runBackgroundRotation True
     [\<lparr>ro_read = 0, ro_check = 5, ro_write = 9, ro_answer = Some (Some ''dsn''), ro_writable = True\<rparr>,
      \<lparr>ro_read = 3600009, ro_check = 3600010, ro_write = 3600020, ro_answer = Some (Some ''dsn''), ro_writable = True\<rparr>] Missing =
   ([], [], Missing)"
  by (rule system_config_never_fetched) (auto simp: rotationInterval_def)

definition updated_before :: "disk \<Rightarrow> int \<Rightarrow> bool" where
  "updated_before d t \<longleftrightarrow> (case d of Stored f \<Rightarrow> (case sf_updatedAt f of None \<Rightarrow> True | Some u \<Rightarrow> u + rotationInterval \<le> t) | _ \<Rightarrow> True)"

lemma rotate_stored:
  assumes "rotateIfNecessary production r (Stored f) = (b, fetches, d')" and "ro_writable r" and "ro_check r \<le> ro_write r"
  shows "(fetches = [] \<and> d' = Stored f) \<or>
    (\<exists>f'. fetches = [ro_check r] \<and> d' = Stored f' \<and> sf_updatedAt f' = Some (ro_write r) \<and> updated_before (Stored f) (ro_check r))"
  using assms
  by (auto simp: rotateIfNecessary_def getConfigFile_def needsRotation_def updateConfigFile_def updated_before_def Let_def
      split: if_splits option.splits)

text \<open>
  C40. A file that can be written bounds the requests: however often the rotation runs, two requests for the
  system configuration are at least an hour apart, also when requests fail, and the first one is at least an hour after
  the date of the file.
\<close>

theorem system_config_fetch_rate:
  assumes "\<forall>r \<in> set rs. ro_writable r \<and> ro_check r \<le> ro_write r"
    and "runBackgroundRotation production rs (Stored f) = (fetches, handed, d)"
  shows "sorted_wrt (\<lambda>a b. a + rotationInterval \<le> b) fetches \<and> (\<forall>t \<in> set fetches. updated_before (Stored f) t)"
  using assms
proof (induction rs arbitrary: f fetches handed)
  case (Cons r rs)
  obtain b fs d' where r: "rotateIfNecessary production r (Stored f) = (b, fs, d')" by (metis prod_cases3)
  obtain fs' h' where rest: "runBackgroundRotation production rs d' = (fs', h', d)" and fetches: "fetches = fs @ fs'"
    using Cons.prems(2) r by (auto simp: Let_def split: prod.splits)
  have ok: "ro_writable r" "ro_check r \<le> ro_write r" "\<forall>r \<in> set rs. ro_writable r \<and> ro_check r \<le> ro_write r"
    using Cons.prems(1) by auto
  from rotate_stored [OF r ok(1,2)] show ?case
  proof
    assume "fs = [] \<and> d' = Stored f"
    with Cons.IH [OF ok(3)] rest fetches show ?thesis by simp
  next
    assume "\<exists>f'. fs = [ro_check r] \<and> d' = Stored f' \<and> sf_updatedAt f' = Some (ro_write r) \<and> updated_before (Stored f) (ro_check r)"
    then obtain f' where f': "fs = [ro_check r]" "d' = Stored f'" "sf_updatedAt f' = Some (ro_write r)"
      "updated_before (Stored f) (ro_check r)" by blast
    have IH: "sorted_wrt (\<lambda>a b. a + rotationInterval \<le> b) fs'" "\<forall>t \<in> set fs'. updated_before (Stored f') t"
      using Cons.IH [OF ok(3)] rest f'(2) by blast+
    then have later: "\<forall>t \<in> set fs'. ro_check r + rotationInterval \<le> t"
      using f'(3) ok(2) by (auto simp: updated_before_def)
    moreover have "\<forall>t \<in> set fs'. updated_before (Stored f) t"
      using later f'(4) by (auto simp: updated_before_def rotationInterval_def split: option.splits)
    ultimately show ?thesis using IH(1) f'(1,4) fetches by simp
  qed
qed simp

theorem system_config_fetch_rate_witness:
  "\<exists>fetches handed d. runBackgroundRotation True
     [\<lparr>ro_read = 3600000, ro_check = 3600000, ro_write = 3600005, ro_answer = None, ro_writable = True\<rparr>,
      \<lparr>ro_read = 7200000, ro_check = 7200005, ro_write = 7200009, ro_answer = Some None, ro_writable = True\<rparr>]
     (Stored \<lparr>sf_sentryDsn = None, sf_updatedAt = Some 0\<rparr>) = (fetches, handed, d) \<and> fetches = [3600000, 7200005] \<and>
   sorted_wrt (\<lambda>a b. a + rotationInterval \<le> b) fetches"
proof -
  let ?rs = "[\<lparr>ro_read = 3600000, ro_check = 3600000, ro_write = 3600005, ro_answer = None, ro_writable = True\<rparr>,
      \<lparr>ro_read = 7200000, ro_check = 7200005, ro_write = 7200009, ro_answer = Some None, ro_writable = True\<rparr>]"
  let ?f = "\<lparr>sf_sentryDsn = None, sf_updatedAt = Some 0\<rparr>"
  obtain fetches handed d where run: "runBackgroundRotation True ?rs (Stored ?f) = (fetches, handed, d)" by (metis prod_cases3)
  then have "fetches = [3600000, 7200005]"
    by (simp add: rotateIfNecessary_def getConfigFile_def needsRotation_def updateConfigFile_def rotationInterval_def Let_def
        split: if_splits prod.splits)
  with run system_config_fetch_rate [of ?rs True ?f fetches handed d] show ?thesis by auto
qed


section \<open>Layers of configuration\<close>

lemma configure_rc_spread: "configure_rc m cfg = spread cfg (omit m)"
  by (simp add: configure_rc_def spread_def)

text \<open>A later file overrides an earlier one, key by key, and a missing value overrides nothing.\<close>

theorem configuration_layers:
  assumes "wf_store m" and "wf_store cfg"
  shows "sget (toJSON_rc (configure_rc m cfg)) k = nullish (case sget m k of None \<Rightarrow> None | Some v \<Rightarrow> v) (sget cfg k)"
proof -
  have "toJSON_rc (configure_rc m cfg) = configure_rc m cfg"
    using spread_Nil_wf [of "configure_rc m cfg"] assms(2) by (simp add: toJSON_rc_def spread_def [symmetric] configure_rc_spread)
  then show ?thesis by (simp add: configure_rc_spread sget_spread_wf sget_omit [OF assms(1)])
qed


section \<open>Messages\<close>

lemma level_column: "MAX_FORMATTED_LEVEL_LENGTH = 7"
  by code_simp

text \<open>The choices of \<open>--log-level\<close> are the levels, by number and by name.\<close>

lemma level_choices: "list_all (\<lambda>c. log_level_of c \<in> {Some 0, Some 1, Some 2, Some 3, Some 4, Some 5}) log_level_choices"
  by code_simp

text \<open>
  A message of a level is written exactly if the level of the logger is at least that level: to the log file and
  nowhere else if there is one, otherwise errors to the standard error and all others to the standard output, as
  one line with the level padded to seven columns; nothing written before is changed.
\<close>

theorem log_routing:
  assumes "lg_level g = Some l" and "1 \<le> n" and "n \<le> 5"
  shows "let line = now @ '' ['' @ LOG_LEVELS ! n @ replicate (7 - length (LOG_LEVELS ! n)) (CHR '' '') @ ''] '' @ message;
      g' = log_at color now n message g in
    (l < n \<longrightarrow> g' = g) \<and>
    (n \<le> l \<longrightarrow>
       lg_stderr g' = lg_stderr g @ (if lg_stream g = None \<and> n = 1 then [color n line] else []) \<and>
       lg_stdout g' = lg_stdout g @ (if lg_stream g = None \<and> n \<noteq> 1 then [color n line] else []) \<and>
       lg_stream g' = map_option (\<lambda>st. st\<lparr>st_lines := st_lines st @ [line]\<rparr>) (lg_stream g))"
proof -
  have "n = 1 \<or> n = 2 \<or> n = 3 \<or> n = 4 \<or> n = 5" using assms by presburger
  then have "toUpperCase (LOG_LEVELS ! n) = LOG_LEVELS ! n"
    by (elim disjE) (hypsubst, code_simp)+
  then show ?thesis
    using assms(1) by (auto simp: log_at_def formatMessage_def padEnd_def level_column writeToFile_def Let_def)
qed

theorem log_routing_witness:
  "lg_stderr (log_at (\<lambda>_ t. t) ''now'' 1 ''failed'' (new_logger None None no_options)) = [''now [ERROR  ] failed''] \<and>
   lg_stdout (log_at (\<lambda>_ t. t) ''now'' 4 ''detail'' (new_logger None None no_options)) = []"
  using log_routing [of "new_logger None None no_options" 3 1 "''now''" "''failed''" "\<lambda>_ t. t"]
    log_routing [of "new_logger None None no_options" 3 4 "''now''" "''detail''" "\<lambda>_ t. t"]
  by (simp add: new_logger_def Let_def LOG_LEVELS_def numeral_2_eq_2)

text \<open>
  Compression cannot be switched off: with \<open>--log-compress=false\<close>, as with any other arguments, the rotated log
  files are compressed; and the file is opened twice, the first stream being ended at once.
\<close>

theorem log_always_compressed:
  assumes "la_logFile a = Some p" and "p \<noteq> []" and "lg_stream g = None"
  shows "\<exists>st ended. lg_stream (log_middlewares a g) = Some st \<and> st_path st = p \<and> lo_compress (st_options st) = Some ''gzip'' \<and>
    lg_ended (log_middlewares a g) = lg_ended g @ [ended] \<and> st_path ended = p"
  using assms by (simp add: log_middlewares_def configure_logger_def set_logFile_def log_defaults_def log_options_of_def Let_def)

text \<open>The token is never reported to Sentry, under its name or its alias; the other arguments are reported as they are.\<close>

theorem token_not_sent:
  "sget (beforeSend args) ''token'' \<in> {Some None, Some (Some []), Some (Some ''[Filtered]'')} \<and>
   sget (beforeSend args) ''t'' \<in> {Some None, Some (Some []), Some (Some ''[Filtered]'')} \<and>
   (k \<noteq> ''token'' \<longrightarrow> k \<noteq> ''t'' \<longrightarrow> sget (beforeSend args) k = sget args k)"
  by (auto simp: beforeSend_def filtered_def truthy_iff)

end
