(* ===== verification/Os_Release.thy ===== *)
theory Os_Release
  imports Wildcards
begin

text \<open>
  Reading the system's description on Linux (\<open>detectLinuxVersion\<close> in \<open>src/Repeater/DefaultRuntimeDetector.ts\<close>):
  the regular expression with which \<open>extractValue\<close> looks for a key in \<open>/etc/os-release\<close>, with the backtracking
  semantics of ECMAScript, and the proof that it finds what a well-formed file says.
\<close>

section \<open>Regular expressions\<close>

text \<open>
  \<open>Many\<close> is a repetition, greedy or lazy, \<open>Caret\<close> the start of the input, \<open>Capture\<close> the one group.  The results of
  matching are listed in the order in which the matcher tries them; an iteration that
  consumes nothing is rejected.
\<close>

datatype re =
  Class "char \<Rightarrow> bool" | Caret | Seq re re | Alt re re | Opt re | Many bool re | Capture re

record match_state =
  ms_start :: bool
  ms_rest :: string
  ms_group :: "string option"

function (sequential) matches :: "re \<Rightarrow> match_state \<Rightarrow> match_state list" where
  "matches (Class P) s =
     (case ms_rest s of
        [] \<Rightarrow> []
      | c # cs \<Rightarrow> if P c then [s\<lparr>ms_start := False, ms_rest := cs\<rparr>] else [])"
| "matches Caret s = (if ms_start s then [s] else [])"
| "matches (Seq a b) s = concat (map (matches b) (matches a s))"
| "matches (Alt a b) s = matches a s @ matches b s"
| "matches (Opt a) s = matches a s @ [s]"
| "matches (Many greedy a) s =
     (let more = concat (map (matches (Many greedy a))
                   (filter (\<lambda>t. length (ms_rest t) < length (ms_rest s)) (matches a s)))
      in if greedy then more @ [s] else s # more)"
| "matches (Capture a) s =
     map (\<lambda>t. t\<lparr>ms_group := Some (take (length (ms_rest s) - length (ms_rest t)) (ms_rest s))\<rparr>) (matches a s)"
  by pat_completeness auto
termination
  by (relation "measures [\<lambda>(r, s). size r, \<lambda>(r, s). length (ms_rest s)]") auto

fun search :: "re \<Rightarrow> bool \<Rightarrow> string \<Rightarrow> match_state option" where
  "search r start s =
     (case matches r \<lparr>ms_start = start, ms_rest = s, ms_group = None\<rparr> of
        t # _ \<Rightarrow> Some t
      | [] \<Rightarrow> (case s of [] \<Rightarrow> None | c # cs \<Rightarrow> search r False cs))"


section \<open>The expression of \<open>extractValue\<close>\<close>

fun word_re :: "string \<Rightarrow> re \<Rightarrow> re" where
  "word_re [] r = r"
| "word_re (c # cs) r = Seq (Class (\<lambda>d. lower_char d = lower_char c)) (word_re cs r)"

definition quoted_re :: "char \<Rightarrow> re" where
  "quoted_re q =
     Seq (Many True (Class is_space)) (Seq (Class (\<lambda>c. c = q))
       (Seq (Many True (Alt (Seq (Class (\<lambda>c. c = backslash)) (Class (\<lambda>c. c = q))) (Class (\<lambda>c. c \<noteq> q))))
         (Class (\<lambda>c. c = q))))"

abbreviation plain_char :: "char \<Rightarrow> bool" where
  "plain_char c \<equiv> c \<noteq> CHR ''#'' \<and> \<not> is_newline c"

definition value_re :: re where
  "value_re =
     Alt (quoted_re (CHR 0x27)) (Alt (quoted_re (CHR 0x22)) (Alt (quoted_re (CHR 0x60))
       (Seq (Class plain_char) (Many True (Class plain_char)))))"

definition separator_re :: re where
  "separator_re =
     Alt (Seq (Many True (Class is_space)) (Seq (Class (\<lambda>c. c = CHR ''='')) (Many False (Class is_space))))
         (Seq (Class (\<lambda>c. c = CHR '':'')) (Seq (Class is_space) (Many False (Class is_space))))"

definition entry_re :: "string \<Rightarrow> re" where
  "entry_re key =
     Seq (Alt Caret (Seq (Class is_newline) (Many True (Class is_newline))))
       (word_re key (Seq separator_re (Opt (Capture value_re))))"

text \<open>\<open>replace(/^(['"`])([\s\S]*)\1$/i, '$2')\<close>.\<close>

definition strip_quotes :: "string \<Rightarrow> string" where
  "strip_quotes t =
     (if 2 \<le> length t \<and> hd t \<in> {CHR 0x27, CHR 0x22, CHR 0x60} \<and> last t = hd t then butlast (tl t) else t)"

definition extractValue :: "string \<Rightarrow> string \<Rightarrow> string option js_result" where
  "extractValue osRelease key =
     (case search (entry_re key) True osRelease of
        None \<Rightarrow> Inr None
      | Some t \<Rightarrow>
          (case ms_group t of
             None \<Rightarrow> Inl (type_error ''Cannot read properties of undefined'')
           | Some g \<Rightarrow> Inr (Some (strip_quotes g))))"


section \<open>First results\<close>

text \<open>\<open>yields r s t\<close>: the first result of matching \<open>r\<close> is \<open>t\<close>.\<close>

definition yields :: "re \<Rightarrow> match_state \<Rightarrow> match_state \<Rightarrow> bool" where
  "yields r s t \<longleftrightarrow> (\<exists>ts. matches r s = t # ts)"

lemma yields_Class: "ms_rest s = c # cs \<Longrightarrow> P c \<Longrightarrow> yields (Class P) s (s\<lparr>ms_start := False, ms_rest := cs\<rparr>)"
  by (simp add: yields_def)

lemma yields_Seq: "yields a s t \<Longrightarrow> yields b t u \<Longrightarrow> yields (Seq a b) s u"
  by (auto simp: yields_def)

lemma yields_Alt1: "yields a s t \<Longrightarrow> yields (Alt a b) s t"
  and yields_Alt2: "matches a s = [] \<Longrightarrow> yields b s t \<Longrightarrow> yields (Alt a b) s t"
  and yields_Opt: "yields a s t \<Longrightarrow> yields (Opt a) s t"
  and yields_lazy: "yields (Many False a) s s"
  by (auto simp: yields_def)

lemma yields_Capture:
  "yields a s t \<Longrightarrow>
   yields (Capture a) s (t\<lparr>ms_group := Some (take (length (ms_rest s) - length (ms_rest t)) (ms_rest s))\<rparr>)"
  by (auto simp: yields_def)

lemma yields_none: "matches a s = [] \<Longrightarrow> yields (Many True a) s s"
  by (simp add: yields_def)

lemma yields_more:
  "yields a s t \<Longrightarrow> length (ms_rest t) < length (ms_rest s) \<Longrightarrow> yields (Many True a) t u \<Longrightarrow> yields (Many True a) s u"
  by (auto simp: yields_def)

text \<open>A greedy repetition of single characters takes as many as it can.\<close>

lemma yields_run:
  assumes "\<And>s c cs. ms_rest s = c # cs \<Longrightarrow> P c \<Longrightarrow> yields a s (s\<lparr>ms_start := False, ms_rest := cs\<rparr>)"
    and "\<forall>c \<in> set xs. P c" and "\<And>s. ms_rest s = ys \<Longrightarrow> matches a s = []" and "ms_rest s = xs @ ys"
  shows "yields (Many True a) s (s\<lparr>ms_start := ms_start s \<and> xs = [], ms_rest := ys\<rparr>)"
  using assms(2,4)
proof (induction xs arbitrary: s)
  case Nil
  then have "s\<lparr>ms_rest := ys\<rparr> = s" by (cases s) simp
  moreover have "yields (Many True a) s s" by (rule yields_none, rule assms(3)) (use Nil in simp)
  ultimately show ?case by simp
next
  case (Cons x xs)
  let ?t = "s\<lparr>ms_start := False, ms_rest := xs @ ys\<rparr>"
  have "yields a s ?t" by (rule assms(1) [of s x]) (use Cons.prems in simp_all)
  moreover have "yields (Many True a) ?t (?t\<lparr>ms_start := ms_start ?t \<and> xs = [], ms_rest := ys\<rparr>)"
    by (rule Cons.IH) (use Cons.prems in simp_all)
  ultimately show ?case using Cons.prems(2) by (intro yields_more [of a s ?t]) simp_all
qed

lemma yields_class_run:
  assumes "\<forall>c \<in> set xs. P c" and "ys = [] \<or> \<not> P (hd ys)" and "ms_rest s = xs @ ys"
  shows "yields (Many True (Class P)) s (s\<lparr>ms_start := ms_start s \<and> xs = [], ms_rest := ys\<rparr>)"
  using assms by (intro yields_run [where P = P]) (auto simp: yields_def split: list.splits)


section \<open>Well-formed files\<close>

text \<open>Keys hold neither white space nor separators.\<close>

definition key_char :: "char \<Rightarrow> bool" where
  "key_char c \<longleftrightarrow> \<not> is_space c \<and> lower_char c \<notin> {CHR ''='', CHR '':''}"

text \<open>A key with its value, which is written with or without double quotes.\<close>

record entry =
  et_key :: string
  et_quoted :: bool
  et_value :: string

definition wf_entry :: "entry \<Rightarrow> bool" where
  "wf_entry e \<longleftrightarrow>
     et_key e \<noteq> [] \<and> list_all key_char (et_key e) \<and> list_all (\<lambda>c. \<not> is_newline c) (et_value e) \<and>
     (if et_quoted e then CHR 0x22 \<notin> set (et_value e) \<and> backslash \<notin> set (et_value e)
      else et_value e \<noteq> [] \<and> CHR ''#'' \<notin> set (et_value e) \<and> \<not> is_space (hd (et_value e)) \<and>
           hd (et_value e) \<notin> {CHR 0x27, CHR 0x22, CHR 0x60})"

definition print_value :: "entry \<Rightarrow> string" where
  "print_value e = (if et_quoted e then [CHR 0x22] @ et_value e @ [CHR 0x22] else et_value e)"

definition print_entry :: "entry \<Rightarrow> string" where
  "print_entry e = et_key e @ ''='' @ print_value e"

definition print_release :: "entry list \<Rightarrow> string" where
  "print_release es = join [CHR 0x0A] (map print_entry es)"

definition named :: "string \<Rightarrow> entry \<Rightarrow> bool" where
  "named key e \<longleftrightarrow> toLowerCase (et_key e) = toLowerCase key"

lemma named_length: "length (et_key e) \<noteq> length key \<Longrightarrow> \<not> named key e"
  by (metis length_toLowerCase named_def)

lemma strip_print: "wf_entry e \<Longrightarrow> strip_quotes (print_value e) = et_value e"
  by (auto simp: strip_quotes_def print_value_def wf_entry_def)

lemma lower_separators [simp]: "lower_char (CHR ''='') = CHR ''=''" "lower_char (CHR '':'') = CHR '':''"
  by (simp_all add: lower_char_def is_upper_def code_def)

lemma key_char_simps:
  assumes "key_char c"
  shows "\<not> is_space c" "\<not> is_newline c" "c \<noteq> CHR ''=''" "c \<noteq> CHR '':''" "lower_char c \<noteq> CHR ''=''"
  using assms by (auto simp: key_char_def is_space_def is_newline_def)

text \<open>An entry whose key is another one does not match.\<close>

lemma separator_fails: "key_char c \<Longrightarrow> ms_rest s = c # cs \<Longrightarrow> matches separator_re s = []"
  by (simp add: separator_re_def key_char_simps)

lemma word_fails:
  assumes "list_all key_char k" and "list_all key_char key" and "map lower_char k \<noteq> map lower_char key"
    and "ms_rest s = k @ CHR ''='' # cs"
  shows "matches (word_re key (Seq separator_re r)) s = []"
  using assms
proof (induction key arbitrary: k s)
  case Nil
  then obtain c k' where "k = c # k'" by (cases k) auto
  with Nil separator_fails [of c s] show ?case by simp
next
  case (Cons d key)
  show ?case
  proof (cases k)
    case Nil
    then show ?thesis using Cons.prems key_char_simps(5) [of d] by simp
  next
    case k: (Cons c k')
    show ?thesis
    proof (cases "lower_char c = lower_char d")
      case True
      have "matches (word_re key (Seq separator_re r)) (s\<lparr>ms_start := False, ms_rest := k' @ CHR ''='' # cs\<rparr>) = []"
        by (rule Cons.IH [of k']) (use Cons.prems k True in simp_all)
      with True Cons.prems(4) k show ?thesis by simp
    qed (use Cons.prems(4) k in simp)
  qed
qed

lemma word_yields:
  assumes "map lower_char k = map lower_char key" and "ms_rest s = k @ cs" and "k \<noteq> []"
    and "\<And>t. t = s\<lparr>ms_start := False, ms_rest := cs\<rparr> \<Longrightarrow> yields r t u"
  shows "yields (word_re key r) s u"
  using assms
proof (induction key arbitrary: k s)
  case (Cons d key)
  then obtain c k' where k: "k = c # k'" "lower_char c = lower_char d" "map lower_char k' = map lower_char key"
    by (cases k) auto
  let ?t = "s\<lparr>ms_start := False, ms_rest := k' @ cs\<rparr>"
  have "yields (word_re key r) ?t u"
  proof (cases "k' = []")
    case True
    with k(3) have "key = []" by simp
    then show ?thesis using Cons.prems(4) [of ?t] True by simp
  next
    case False
    show ?thesis by (rule Cons.IH [OF k(3) _ False]) (use Cons.prems(4) in simp_all)
  qed
  moreover have "yields (Class (\<lambda>e. lower_char e = lower_char d)) s ?t"
    by (rule yields_Class [where c = c]) (use Cons.prems(2) k in simp_all)
  ultimately show ?case by (simp add: yields_Seq)
qed simp

text \<open>The value of an entry, which ends at the end of the line.\<close>

lemma quoted_fails:
  assumes "ms_rest s = c # cs" and "\<not> is_space c" and "c \<noteq> q"
  shows "matches (quoted_re q) s = []"
  using assms by (simp add: quoted_re_def)

lemma quoted_yields:
  assumes "ms_rest s = q # v @ q # cs" and "\<not> is_space q" and "q \<notin> set v" and "backslash \<notin> set v" and "q \<noteq> backslash"
  shows "yields (quoted_re q) s (s\<lparr>ms_start := False, ms_rest := cs\<rparr>)"
proof -
  let ?a = "Alt (Seq (Class (\<lambda>c. c = backslash)) (Class (\<lambda>c. c = q))) (Class (\<lambda>c. c \<noteq> q))"
  let ?s1 = "s\<lparr>ms_start := False, ms_rest := v @ q # cs\<rparr>"
  have "yields (Many True ?a) ?s1 (?s1\<lparr>ms_start := ms_start ?s1 \<and> v = [], ms_rest := q # cs\<rparr>)"
    by (rule yields_run [where P = "\<lambda>c. c \<noteq> q \<and> c \<noteq> backslash"]) (use assms in \<open>auto simp: yields_def\<close>)
  then have run: "yields (Many True ?a) ?s1 (?s1\<lparr>ms_rest := q # cs\<rparr>)" by simp
  have "yields (Class (\<lambda>c. c = q)) (?s1\<lparr>ms_rest := q # cs\<rparr>) (s\<lparr>ms_start := False, ms_rest := cs\<rparr>)"
    by (simp add: yields_def)
  from yields_Seq [OF run this]
  have "yields (Seq (Class (\<lambda>c. c = q)) (Seq (Many True ?a) (Class (\<lambda>c. c = q)))) s (s\<lparr>ms_start := False, ms_rest := cs\<rparr>)"
    by (intro yields_Seq [of _ s ?s1]) (use assms(1) in \<open>simp_all add: yields_def\<close>)
  moreover have "yields (Many True (Class is_space)) s s"
    by (rule yields_none) (use assms(1,2) in simp)
  ultimately show ?thesis unfolding quoted_re_def by (rule yields_Seq [rotated])
qed

lemma not_space_marks [simp]:
  "\<not> is_space (CHR 0x27)" "\<not> is_space (CHR 0x22)" "\<not> is_space (CHR 0x60)" "\<not> is_space (CHR ''='')"
  "CHR 0x22 \<noteq> backslash"
  by (simp_all add: is_space_def code_def backslash_def)

lemma value_yields:
  assumes "wf_entry e" and "ms_rest s = print_value e @ tail" and "tail = [] \<or> is_newline (hd tail)"
  shows "yields value_re s (s\<lparr>ms_start := False, ms_rest := tail\<rparr>)"
proof (cases "et_quoted e")
  case True
  then have r: "ms_rest s = CHR 0x22 # et_value e @ CHR 0x22 # tail" using assms(2) by (simp add: print_value_def)
  have "yields (quoted_re (CHR 0x22)) s (s\<lparr>ms_start := False, ms_rest := tail\<rparr>)"
    by (rule quoted_yields [OF r]) (use assms(1) True in \<open>simp_all add: wf_entry_def\<close>)
  moreover have "matches (quoted_re (CHR 0x27)) s = []" by (rule quoted_fails [OF r]) simp_all
  ultimately show ?thesis unfolding value_re_def by (intro yields_Alt2 yields_Alt1)
next
  case False
  with assms(1) obtain c v where v: "et_value e = c # v" "\<not> is_space c" "c \<notin> {CHR 0x27, CHR 0x22, CHR 0x60}"
    "\<forall>d \<in> set (c # v). plain_char d"
    by (cases "et_value e") (auto simp: wf_entry_def list_all_iff)
  have r: "ms_rest s = c # v @ tail" using assms(2) False v by (simp add: print_value_def)
  let ?s1 = "s\<lparr>ms_start := False, ms_rest := v @ tail\<rparr>"
  have "yields (Many True (Class plain_char)) ?s1 (?s1\<lparr>ms_start := ms_start ?s1 \<and> v = [], ms_rest := tail\<rparr>)"
    by (rule yields_class_run) (use v assms(3) in auto)
  moreover have "yields (Class plain_char) s ?s1" by (rule yields_Class [OF r]) (use v in simp)
  ultimately have "yields (Seq (Class plain_char) (Many True (Class plain_char))) s (s\<lparr>ms_start := False, ms_rest := tail\<rparr>)"
    by (intro yields_Seq) simp_all
  moreover have "matches (quoted_re q) s = []" if "q \<in> {CHR 0x27, CHR 0x22, CHR 0x60}" for q
    by (rule quoted_fails [OF r]) (use v that in auto)
  ultimately show ?thesis unfolding value_re_def by (intro yields_Alt2) simp_all
qed


section \<open>Finding an entry\<close>

abbreviation body_re :: "string \<Rightarrow> re" where
  "body_re key \<equiv> word_re key (Seq separator_re (Opt (Capture value_re)))"

lemma entry_yields:
  assumes "wf_entry e" and "named key e" and "ms_rest s = print_entry e @ tail" and "tail = [] \<or> is_newline (hd tail)"
  shows "\<exists>t. yields (body_re key) s t \<and> ms_group t = Some (print_value e)"
proof -
  define s1 where "s1 = s\<lparr>ms_start := False, ms_rest := ''='' @ print_value e @ tail\<rparr>"
  define s2 where "s2 = s1\<lparr>ms_rest := print_value e @ tail\<rparr>"
  have "yields (Many True (Class is_space)) s1 s1" by (rule yields_none) (simp add: s1_def)
  moreover have "yields (Class (\<lambda>c. c = CHR ''='')) s1 s2" by (simp add: yields_def s1_def s2_def)
  ultimately have sep: "yields separator_re s1 s2"
    unfolding separator_re_def by (intro yields_Alt1 yields_Seq [of _ s1 s1] yields_Seq [of _ s1 s2] yields_lazy)
  have "yields value_re s2 (s2\<lparr>ms_start := False, ms_rest := tail\<rparr>)"
    by (rule value_yields [OF assms(1) _ assms(4)]) (simp add: s2_def)
  from yields_Opt [OF yields_Capture [OF this]] obtain t
    where "yields (Opt (Capture value_re)) s2 t" and g: "ms_group t = Some (print_value e)"
    by (auto simp: s2_def)
  from yields_Seq [OF sep this(1)] have "yields (Seq separator_re (Opt (Capture value_re))) s1 t" .
  then have "yields (body_re key) s t"
    by (intro word_yields [of "et_key e" key s "''='' @ print_value e @ tail"])
      (use assms(1-3) in \<open>auto simp: named_def toLowerCase_def print_entry_def wf_entry_def s1_def\<close>)
  with g show ?thesis by blast
qed

lemma entry_fails:
  assumes "wf_entry e" and "\<not> named key e" and "list_all key_char key" and "ms_rest s = print_entry e @ tail"
  shows "matches (body_re key) s = []"
  using assms by (intro word_fails [of "et_key e"]) (simp_all add: wf_entry_def named_def toLowerCase_def print_entry_def)

lemma no_text_fails: "ms_rest s = [] \<Longrightarrow> matches (body_re key) s = []"
  by (cases key) (simp_all add: separator_re_def)

text \<open>Where the expression can begin to match.\<close>

lemma begins_at_start:
  assumes "ms_start s" and "ms_rest s = [] \<or> \<not> is_newline (hd (ms_rest s))"
  shows "matches (entry_re key) s = matches (body_re key) s"
  using assms by (cases "ms_rest s") (simp_all add: entry_re_def)

lemma begins_at_newline:
  assumes "\<not> ms_start s" and "ms_rest s = c # cs" and "is_newline c" and "cs = [] \<or> \<not> is_newline (hd cs)"
  shows "matches (entry_re key) s = matches (body_re key) (s\<lparr>ms_rest := cs\<rparr>)"
  using assms by (cases s; cases cs) (simp_all add: entry_re_def)

lemma begins_nowhere_else:
  assumes "\<not> ms_start s" and "ms_rest s = [] \<or> \<not> is_newline (hd (ms_rest s))"
  shows "matches (entry_re key) s = []"
  using assms by (cases "ms_rest s") (simp_all add: entry_re_def)

declare search.simps [simp del]

lemma search_skip:
  "list_all (\<lambda>c. \<not> is_newline c) xs \<Longrightarrow> search (entry_re key) False (xs @ ys) = search (entry_re key) False ys"
proof (induction xs)
  case (Cons x xs)
  have "matches (entry_re key) \<lparr>ms_start = False, ms_rest = x # xs @ ys, ms_group = None\<rparr> = []"
    by (rule begins_nowhere_else) (use Cons.prems in simp_all)
  with Cons show ?case by (simp add: search.simps [of _ _ "x # xs @ ys"])
qed simp

lemma print_entry_line: "wf_entry e \<Longrightarrow> list_all (\<lambda>c. \<not> is_newline c) (print_entry e)"
  using key_char_simps(2)
  by (auto simp: wf_entry_def print_entry_def print_value_def list_all_iff is_newline_def code_def)

lemma print_entry_begins: "wf_entry e \<Longrightarrow> \<exists>c cs. print_entry e = c # cs \<and> \<not> is_newline c"
proof (cases "print_entry e")
  case Nil
  then show ?thesis by (simp add: print_entry_def)
next
  case (Cons c cs)
  moreover assume "wf_entry e"
  ultimately show ?thesis using print_entry_line [of e] by simp
qed

definition lines_after :: "entry list \<Rightarrow> string" where
  "lines_after es = concat (map (\<lambda>e. CHR 0x0A # print_entry e) es)"

lemma lines_after_begins: "lines_after es = [] \<or> is_newline (hd (lines_after es))"
  by (cases es) (simp_all add: lines_after_def is_newline_def code_def)

lemma print_release_Cons: "print_release (e # es) = print_entry e @ lines_after es"
proof (induction es arbitrary: e)
  case (Cons f fs)
  then show ?case by (simp add: print_release_def lines_after_def join_Cons)
qed (simp add: print_release_def lines_after_def)

lemma search_entry:
  assumes "wf_entry e" and "list_all key_char key"
    and "matches (entry_re key) s0 = matches (body_re key) s" and "ms_rest s = print_entry e @ lines_after es"
  shows "case matches (entry_re key) s0 of
      t # _ \<Rightarrow> named key e \<and> ms_group t = Some (print_value e) | [] \<Rightarrow> \<not> named key e"
  using entry_yields [OF assms(1) _ assms(4) lines_after_begins, of key] entry_fails [OF assms(1) _ assms(2) assms(4)] assms(3)
  by (cases "named key e") (auto simp: yields_def)

lemma search_lines:
  assumes "\<forall>e \<in> set es. wf_entry e" and "list_all key_char key"
  shows "map_option ms_group (search (entry_re key) False (lines_after es)) =
    map_option (\<lambda>e. Some (print_value e)) (find (named key) es)"
  using assms(1)
proof (induction es)
  case Nil
  have "matches (entry_re key) \<lparr>ms_start = False, ms_rest = [], ms_group = None\<rparr> = []"
    by (rule begins_nowhere_else) simp_all
  then show ?case by (simp add: lines_after_def search.simps)
next
  case (Cons e es)
  let ?t = "print_entry e @ lines_after es"
  let ?s0 = "\<lparr>ms_start = False, ms_rest = CHR 0x0A # ?t, ms_group = None\<rparr>"
  have wf: "wf_entry e" using Cons.prems by simp
  have "matches (entry_re key) ?s0 = matches (body_re key) (?s0\<lparr>ms_rest := ?t\<rparr>)"
    by (rule begins_at_newline [of _ "CHR 0x0A"])
      (use print_entry_begins [OF wf] in \<open>auto simp: is_newline_def code_def\<close>)
  from search_entry [OF wf assms(2) this, of es]
  have hit: "case matches (entry_re key) ?s0 of t # _ \<Rightarrow> named key e \<and> ms_group t = Some (print_value e) | [] \<Rightarrow> \<not> named key e"
    by simp
  have "lines_after (e # es) = CHR 0x0A # ?t" by (simp add: lines_after_def)
  with hit Cons search_skip [OF print_entry_line [OF wf], of key "lines_after es"] show ?case
    by (simp add: search.simps [of _ _ "CHR 0x0A # ?t"] split: list.splits)
qed

lemma search_release:
  assumes "\<forall>e \<in> set es. wf_entry e" and "list_all key_char key"
  shows "map_option ms_group (search (entry_re key) True (print_release es)) =
    map_option (\<lambda>e. Some (print_value e)) (find (named key) es)"
proof (cases es)
  case Nil
  have "matches (entry_re key) \<lparr>ms_start = True, ms_rest = [], ms_group = None\<rparr> = []"
    by (subst begins_at_start) (simp_all add: no_text_fails)
  then show ?thesis using Nil by (simp add: print_release_def search.simps)
next
  case (Cons e fs)
  let ?t = "print_entry e @ lines_after fs"
  let ?s0 = "\<lparr>ms_start = True, ms_rest = ?t, ms_group = None\<rparr>"
  have wf: "wf_entry e" and rest: "\<forall>e \<in> set fs. wf_entry e" using assms(1) Cons by simp_all
  obtain c cs where c: "print_entry e = c # cs" "\<not> is_newline c" using print_entry_begins [OF wf] by blast
  have "matches (entry_re key) ?s0 = matches (body_re key) ?s0" by (rule begins_at_start) (use c in simp_all)
  from search_entry [OF wf assms(2) this, of fs]
  have hit: "case matches (entry_re key) ?s0 of t # _ \<Rightarrow> named key e \<and> ms_group t = Some (print_value e) | [] \<Rightarrow> \<not> named key e"
    by simp
  have "list_all (\<lambda>c. \<not> is_newline c) cs" using print_entry_line [OF wf] c by simp
  from search_skip [OF this, of key "lines_after fs"] hit search_lines [OF rest assms(2)] c(1) show ?thesis
    unfolding Cons print_release_Cons by (simp add: search.simps [of _ True] split: list.splits)
qed

lemma release_values:
  assumes "\<forall>e \<in> set es. wf_entry e" and "list_all key_char key"
  shows "extractValue (print_release es) key = Inr (map_option et_value (find (named key) es))"
proof (cases "find (named key) es")
  case None
  with search_release [OF assms] have "search (entry_re key) True (print_release es) = None" by simp
  with None show ?thesis by (simp add: extractValue_def)
next
  case (Some e)
  with search_release [OF assms] obtain t where "search (entry_re key) True (print_release es) = Some t"
    "ms_group t = Some (print_value e)" by auto
  moreover have "wf_entry e" using Some assms(1) by (auto dest: find_Some_in)
  ultimately show ?thesis using Some by (simp add: extractValue_def strip_print)
qed

text \<open>
  C35. What \<open>extractValue\<close> reads is what the file says: for every file of well-formed lines, quoted or not, and
  every key, the result is the value of the first entry with this key, up to the case of letters, without
  its quotes, and nothing if there is none; keys that only begin or end like the one wanted are not confused
  with it.
\<close>

theorem release_roundtrip:
  assumes "\<forall>e \<in> set es. wf_entry e" and "list_all key_char key"
  shows "extractValue (print_release es) key = Inr (map_option et_value (find (named key) es))"
  by (rule release_values [OF assms])

definition sample_release :: "entry list" where
  "sample_release =
     [\<lparr>et_key = ''NAME'', et_quoted = True, et_value = ''Arch''\<rparr>,
      \<lparr>et_key = ''PRETTY_NAME'', et_quoted = True, et_value = ''A B''\<rparr>,
      \<lparr>et_key = ''ID'', et_quoted = False, et_value = ''a''\<rparr>]"

lemma key_charI: "is_alpha c \<or> is_digit c \<or> c = CHR ''_'' \<Longrightarrow> key_char c"
proof -
  assume "is_alpha c \<or> is_digit c \<or> c = CHR ''_''"
  moreover have "code (CHR ''_'') = 95" by (simp add: code_def)
  ultimately have c: "code c \<in> {48..57} \<union> {65..90} \<union> {95} \<union> {97..122}"
    by (auto simp: is_alpha_def is_upper_def is_lower_def is_digit_def)
  have marks: "code (CHR ''='') = 61" "code (CHR '':'') = 58" by (simp_all add: code_def)
  have "code (lower_char c) = (if is_upper c then code c + 32 else code c)"
    using c by (auto simp: lower_char_def is_upper_def code_char_of)
  then have "code (lower_char c) \<noteq> 61" "code (lower_char c) \<noteq> 58" using c by (auto simp: is_upper_def)
  with marks have "lower_char c \<noteq> CHR ''=''" "lower_char c \<noteq> CHR '':''" by metis+
  moreover have "\<not> is_space c" using c by (auto simp: is_space_def)
  ultimately show ?thesis by (simp add: key_char_def)
qed

lemma wf_sample_release: "\<forall>e \<in> set sample_release. wf_entry e"
  by (simp add: sample_release_def wf_entry_def key_charI backslash_def char_class_defs)

theorem release_roundtrip_witness:
  "extractValue (print_release sample_release) ''ID'' = Inr (Some ''a'') \<and>
   extractValue (print_release sample_release) ''VERSION'' = Inr None"
proof -
  have keys: "list_all key_char ''ID''" "list_all key_char ''VERSION''" by (simp_all add: key_charI char_class_defs)
  have "find (named ''ID'') sample_release = Some (sample_release ! 2)" "find (named ''VERSION'') sample_release = None"
    by (simp_all add: sample_release_def named_length) (simp add: named_def)
  with release_roundtrip [OF wf_sample_release keys(1)] release_roundtrip [OF wf_sample_release keys(2)] show ?thesis
    by (simp add: sample_release_def)
qed

end
