(* ===== verification/Runtime.thy ===== *)
theory Runtime
  imports Repeater_Command Os_Release Config
begin

text \<open>
  What surrounds a running repeater: its installation as a service (\<open>DefaultStartupManager\<close>,
  \<open>ServerRepeaterLauncher.install\<close>), the description of its environment (\<open>DefaultRuntimeDetector\<close>), the options of its
  socket (\<open>DefaultRepeaterServer.connect\<close>), the patched proxy agent and the stream that repairs raw deflate data.
  The service manager of the system and the output of system commands are parameters.
\<close>

section \<open>Services of the system\<close>

record startup_options =
  su_name :: string
  su_displayName :: "string option"
  su_command :: string
  su_args :: "string list"

datatype service_call =
  Service_Add string "string option" string "string list" | Service_Enable string | Service_Disable string |
  Service_Remove string | Service_Run | Service_Stop nat | Dispose

text \<open>An operation returns its result and the calls it made; \<open>perform\<close> answers each call.\<close>

definition call_service :: "(service_call \<Rightarrow> unit js_result) \<Rightarrow> service_call \<Rightarrow> (service_call, unit) io" where
  "call_service perform c = (perform c, [c])"

definition install_service :: "(service_call \<Rightarrow> unit js_result) \<Rightarrow> startup_options \<Rightarrow> (service_call, unit) io" where
  "install_service perform opts =
     io_bind (call_service perform (Service_Add (su_name opts) (su_displayName opts) (su_command opts) (su_args opts)))
       (\<lambda>_. call_service perform (Service_Enable (su_name opts)))"

text \<open>Both failures are ignored: there is no way to ask whether the service exists.\<close>

definition uninstall_service :: "(service_call \<Rightarrow> unit js_result) \<Rightarrow> string \<Rightarrow> (service_call, unit) io" where
  "uninstall_service perform name = (Inr (), [Service_Disable name, Service_Remove name])"

definition exit_service :: "(service_call \<Rightarrow> unit js_result) \<Rightarrow> nat \<Rightarrow> bool \<Rightarrow> (service_call, unit) io" where
  "exit_service perform exitCode disposes =
     io_bind (if disposes then call_service perform Dispose else (Inr (), []))
       (\<lambda>_. call_service perform (Service_Stop exitCode))"

definition SERVICE_NAME :: string where
  "SERVICE_NAME = ''bright-repeater''"

definition daemon_options :: "(string \<Rightarrow> string) \<Rightarrow> process_env \<Rightarrow> startup_options" where
  "daemon_options norm_path env =
     (let c = getExecArgs norm_path env
                \<lparr>eo_exclude = Some [''--daemon'', ''-d''], eo_include = Some [''--run''], eo_excludeAll = None,
                 eo_escape = Some False, eo_spawn = None\<rparr>
      in \<lparr>su_name = SERVICE_NAME, su_displayName = Some ''Bright Repeater'', su_command = cmd_command c,
          su_args = cmd_args c\<rparr>)"

definition install_daemon ::
  "(service_call \<Rightarrow> unit js_result) \<Rightarrow> (string \<Rightarrow> string) \<Rightarrow> process_env \<Rightarrow> (service_call, string) io"
where
  "install_daemon perform norm_path env =
     io_bind (install_service perform (daemon_options norm_path env))
       (\<lambda>_. (Inr (''A Repeater daemon process was initiated successfully (SERVICE: '' @ SERVICE_NAME @ '')''), []))"

definition uninstall_daemon :: "(service_call \<Rightarrow> unit js_result) \<Rightarrow> (service_call, string) io" where
  "uninstall_daemon perform =
     io_bind (uninstall_service perform SERVICE_NAME)
       (\<lambda>_. (Inr (''The Repeater daemon process (SERVICE: '' @ SERVICE_NAME @ '') was stopped and deleted successfully''), []))"


section \<open>The environment\<close>

record host =
  ho_platform :: string
  ho_release :: string
  ho_arch :: string
  ho_env :: "string \<Rightarrow> string option"
  ho_version :: string
  ho_exec :: "string \<Rightarrow> string js_result"
  ho_archOf :: "string js_result"
  ho_ciName :: "string option"

definition fallback_os :: "host \<Rightarrow> string" where
  "fallback_os h = ho_platform h @ '' ('' @ ho_release h @ '')''"

definition or_fallback :: "host \<Rightarrow> string option js_result \<Rightarrow> string" where
  "or_fallback h res = (case res of Inr (Some t) \<Rightarrow> t | _ \<Rightarrow> fallback_os h)"

definition exec_trim :: "host \<Rightarrow> string \<Rightarrow> string js_result" where
  "exec_trim h command = map_sum id trim (ho_exec h command)"

definition detectMacosVersion :: "host \<Rightarrow> string" where
  "detectMacosVersion h =
     or_fallback h
       (bind_res (exec_trim h ''sw_vers -productName'') (\<lambda>name.
        bind_res (exec_trim h ''sw_vers -productVersion'') (\<lambda>version.
        bind_res (exec_trim h ''sw_vers -buildVersion'') (\<lambda>build.
          Inr (if name \<noteq> [] \<and> version \<noteq> [] \<and> build \<noteq> []
               then Some (name @ '' '' @ version @ '' ('' @ build @ '')'') else None)))))"

text \<open>\<open>a || b\<close> on extracted values, and \<open>length\<close> of a value that may be missing.\<close>

definition or_extract :: "string option js_result \<Rightarrow> string option js_result \<Rightarrow> string option js_result" where
  "or_extract a b = bind_res a (\<lambda>x. if truthy x then Inr x else b)"

definition length_of :: "string option \<Rightarrow> nat js_result" where
  "length_of x = (case x of None \<Rightarrow> Inl (type_error ''Cannot read properties of undefined'') | Some t \<Rightarrow> Inr (length t))"

definition detectLinuxVersion :: "host \<Rightarrow> string" where
  "detectLinuxVersion h =
     or_fallback h
       (bind_res (exec_trim h ''cat /etc/os-release'') (\<lambda>osRelease.
        bind_res (or_extract (extractValue osRelease ''NAME'') (extractValue osRelease ''ID'')) (\<lambda>name.
        bind_res (or_extract (extractValue osRelease ''VERSION'') (extractValue osRelease ''VERSION_ID'')) (\<lambda>version.
        bind_res (extractValue osRelease ''PRETTY_NAME'') (\<lambda>prettyName.
        bind_res (length_of name) (\<lambda>n.
        bind_res (if n = 0 then Inr 0 else length_of version) (\<lambda>v.
          if v \<noteq> 0 then Inr (Some (the name @ '' '' @ the version))
          else bind_res (length_of prettyName) (\<lambda>p. Inr (if p \<noteq> 0 then prettyName else None)))))))))"

definition detectWindowsVersion :: "host \<Rightarrow> string" where
  "detectWindowsVersion h =
     or_fallback h (bind_res (exec_trim h ''ver'') (\<lambda>version. Inr (if version \<noteq> [] then Some version else None)))"

definition detect_os :: "host \<Rightarrow> string" where
  "detect_os h =
     (if ho_platform h = ''darwin'' then detectMacosVersion h
      else if ho_platform h = ''linux'' then detectLinuxVersion h
      else if ho_platform h = ''win32'' then detectWindowsVersion h
      else fallback_os h)"

definition detect_arch :: "host \<Rightarrow> string" where
  "detect_arch h = (case ho_archOf h of Inr a \<Rightarrow> a | Inl _ \<Rightarrow> ho_arch h)"

definition isInsideDocker :: "host \<Rightarrow> bool" where
  "isInsideDocker h = truthy (ho_env h ''BRIGHT_CLI_DOCKER'')"

definition detect_runtime :: "cli_info \<Rightarrow> host \<Rightarrow> runtime" where
  "detect_runtime info h =
     \<lparr>rt_version = (case ci_version info of None \<Rightarrow> [] | Some v \<Rightarrow> v), rt_scriptsLoaded = False, rt_localScriptsLoaded = False,
      rt_ci = ho_ciName h, rt_os = detect_os h, rt_arch = detect_arch h, rt_docker = isInsideDocker h,
      rt_distribution = ci_distribution info, rt_nodeVersion = ho_version h\<rparr>"


section \<open>The socket\<close>

record socket_options =
  sk_path :: string
  sk_transports :: "string list"
  sk_reconnectionDelayMax :: nat
  sk_reconnectionDelay :: nat
  sk_timeout :: "nat option"
  sk_rejectUnauthorized :: bool
  sk_agent :: "agent option"
  sk_token :: string
  sk_domain :: string

definition socket_options_of :: "url_parser \<Rightarrow> server_options \<Rightarrow> string \<Rightarrow> socket_options js_result" where
  "socket_options_of parse opts hostname =
     bind_res
       (if truthy (so_proxyUrl opts)
        then map_sum id Some (createProxyForClient parse (so_uri opts) (the (so_proxyUrl opts)) (\<not> so_insecure opts))
        else Inr None)
       (\<lambda>agent. Inr
         \<lparr>sk_path = ''/api/ws/v1'', sk_transports = [''websocket''], sk_reconnectionDelayMax = 1000,
          sk_reconnectionDelay = 5000, sk_timeout = so_connectTimeout opts,
          sk_rejectUnauthorized = (\<not> so_insecure opts), sk_agent = agent,
          sk_token = so_token opts, sk_domain = hostname\<rparr>)"

text \<open>\<open>PatchedHttpsProxyAgent.connect\<close>: the options of the agent, overridden by those of the connection.\<close>

definition patched_connect :: "(string, 'v) store \<Rightarrow> (string, 'v) store \<Rightarrow> (string, 'v) store" where
  "patched_connect tlsUpgradeOptions opts = spread tlsUpgradeOptions opts"


section \<open>Raw deflate data\<close>

definition zlib_header :: string where
  "zlib_header = [CHR 0x78, CHR 0x9C]"

text \<open>The state is \<open>hasCheckedHead\<close>; the result the chunks pushed.\<close>

definition zlib_transform :: "string \<Rightarrow> bool \<Rightarrow> bool \<times> string list" where
  "zlib_transform chunk hasCheckedHead =
     (if \<not> hasCheckedHead \<and> chunk \<noteq> []
      then (True, (if hd chunk \<noteq> hd zlib_header then [zlib_header] else []) @ [chunk])
      else (hasCheckedHead, [chunk]))"

fun zlib_stream :: "string list \<Rightarrow> bool \<Rightarrow> string list" where
  "zlib_stream [] checked = []"
| "zlib_stream (c # cs) checked = (let (checked', out) = zlib_transform c checked in out @ zlib_stream cs checked')"


section \<open>Properties\<close>

lemma zlib_checked: "concat (zlib_stream cs True) = concat cs"
  by (induction cs) (simp_all add: zlib_transform_def)

text \<open>
  The repaired stream does not depend on how the data was cut into chunks: it is the data with the header of
  a zlib stream in front, unless the data is empty or begins with the first byte of that header.
\<close>

theorem zlib_stream_chunks:
  "concat (zlib_stream cs False) =
     (case concat cs of [] \<Rightarrow> [] | c # rest \<Rightarrow> (if c = CHR 0x78 then [] else [CHR 0x78, CHR 0x9C]) @ c # rest)"
proof (induction cs)
  case (Cons c cs)
  then show ?case
    by (cases c) (simp_all add: zlib_transform_def zlib_header_def zlib_checked)
qed simp

text \<open>
  The installed service runs the command with which it was installed, plus \<open>--run\<close>, without the flags that would
  install it again.
\<close>

lemma daemon_arguments:
  assumes "pe_pkg_entrypoint env = None"
  shows "su_args (daemon_options norm_path env) =
    pe_execArgv env @ filter (\<lambda>x. x \<notin> {''--daemon'', ''-d''}) (drop 1 (pe_argv env) @ [''--run''])"
  using assms by (simp add: daemon_options_def getExecArgs_def Let_def)

text \<open>
  The flag is only recognised as a word of its own: given as \<open>--daemon=true\<close> it stays among the arguments of the
  service, which will then install itself again instead of running.
\<close>

theorem daemon_flag_with_value_kept:
  assumes "''--daemon=true'' \<in> set (drop 1 (pe_argv env))" and "pe_pkg_entrypoint env = None"
  shows "''--daemon=true'' \<in> set (su_args (daemon_options norm_path env))"
  using assms by (simp add: daemon_arguments)

text \<open>Removing never fails and makes both calls, whatever the system answers; adding enables only what was added.\<close>

lemma install_calls:
  "snd (install_service perform opts) =
     Service_Add (su_name opts) (su_displayName opts) (su_command opts) (su_args opts) #
     (if isl (perform (Service_Add (su_name opts) (su_displayName opts) (su_command opts) (su_args opts))) then []
      else [Service_Enable (su_name opts)])"
  by (auto simp: install_service_def io_bind_def call_service_def isl_def split: sum.splits)

text \<open>What a well-formed description of a Linux system says, and what is made of it.\<close>

abbreviation says :: "entry list \<Rightarrow> string \<Rightarrow> string option" where
  "says es key \<equiv> map_option et_value (find (named key) es)"

abbreviation first_said :: "entry list \<Rightarrow> string \<Rightarrow> string \<Rightarrow> string option" where
  "first_said es a b \<equiv> if truthy (says es a) then says es a else says es b"

lemma extract_said:
  assumes "\<forall>e \<in> set es. wf_entry e"
  shows "extractValue (print_release es) ''NAME'' = Inr (says es ''NAME'')"
    "extractValue (print_release es) ''ID'' = Inr (says es ''ID'')"
    "extractValue (print_release es) ''VERSION'' = Inr (says es ''VERSION'')"
    "extractValue (print_release es) ''VERSION_ID'' = Inr (says es ''VERSION_ID'')"
    "extractValue (print_release es) ''PRETTY_NAME'' = Inr (says es ''PRETTY_NAME'')"
  by (rule release_values [OF assms], simp add: key_charI char_class_defs)+

text \<open>
  C36. On Linux the name of the system is its name, or else its identifier, followed by its version, or else
  the identifier of its version, if both are given and not empty.  The pretty name is used only if both are
  given and one of them is empty.  In every other case, so on a system without any version, a pretty name
  notwithstanding, the platform and the release of the kernel stand in.
\<close>

theorem linux_version_detected:
  assumes "ho_exec h ''cat /etc/os-release'' = Inr text" and "trim text = print_release es"
    and "\<forall>e \<in> set es. wf_entry e"
  shows "detectLinuxVersion h =
    (case (first_said es ''NAME'' ''ID'', first_said es ''VERSION'' ''VERSION_ID'') of
       (Some name, Some version) \<Rightarrow>
         if name \<noteq> [] \<and> version \<noteq> [] then name @ '' '' @ version
         else if truthy (says es ''PRETTY_NAME'') then the (says es ''PRETTY_NAME'') else fallback_os h
     | (Some name, None) \<Rightarrow>
         if name = [] \<and> truthy (says es ''PRETTY_NAME'') then the (says es ''PRETTY_NAME'') else fallback_os h
     | _ \<Rightarrow> fallback_os h)"
  using assms
  by (auto simp: detectLinuxVersion_def exec_trim_def or_extract_def or_fallback_def length_of_def extract_said Let_def
      truthy_iff split: option.splits)

definition sample_host :: host where
  "sample_host = \<lparr>ho_platform = ''linux'', ho_release = ''6.1'', ho_arch = ''x64'', ho_env = (\<lambda>_. None),
     ho_version = ''v20'', ho_exec = (\<lambda>_. Inr (print_release sample_release)), ho_archOf = Inr ''x64'', ho_ciName = None\<rparr>"

lemma trim_sample: "trim (print_release sample_release) = print_release sample_release"
  by (simp add: sample_release_def print_release_def print_entry_def print_value_def trim_def is_space_def code_def)

theorem linux_version_detected_witness:
  "truthy (says sample_release ''PRETTY_NAME'') \<and> detectLinuxVersion sample_host = ''linux (6.1)''"
proof -
  have e: "ho_exec sample_host ''cat /etc/os-release'' = Inr (print_release sample_release)"
    by (simp add: sample_host_def)
  have "find (named ''VERSION'') sample_release = None" "find (named ''VERSION_ID'') sample_release = None"
    "find (named ''NAME'') sample_release = Some (sample_release ! 0)"
    "find (named ''PRETTY_NAME'') sample_release = Some (sample_release ! 1)"
    by (simp_all add: sample_release_def named_length) (simp_all add: named_def)
  with linux_version_detected [OF e trim_sample wf_sample_release] show ?thesis
    by (simp add: sample_release_def fallback_os_def sample_host_def)
qed

end
