(* ===== verification/Service.thy ===== *)
theory Service
  imports Repeater Ws_Executor
begin

text \<open>
  The repeater at work: the launcher, the command hub, both executors, the cache of certificates and the
  registry of scripts as one system that serves the requests of the cloud side by side.  A request is a
  task with one attempt for each certificate tried, or a single one.  Transfers and exchanges proceed in
  any order, interleaved with each other and with all other events of the repeater; what an executor
  reads from the shared options and scripts is read at the moment it uses them.
\<close>

section \<open>Tasks and attempts\<close>

datatype progress = Transferring curl | Exchanging ws_client | Over "response js_result"

record attempt =
  at_cert :: "cert option"
  at_request :: http_request
  at_progress :: progress

record task =
  tk_protocol :: protocol
  tk_request :: http_request
  tk_attempts :: "attempt list"
  tk_answer :: "response option"

record service =
  sv_repeater :: repeater
  sv_cache :: cert_cache
  sv_http :: executor
  sv_ws :: ws_executor
  sv_tasks :: "task list"

record service_env =
  se_http :: exec_env
  se_ws :: ws_env
  se_run :: script_runner
  se_version :: string
  se_compile :: compiler

definition se_parse :: "service_env \<Rightarrow> protocol \<Rightarrow> url_parser" where
  "se_parse env p = (case p of HTTP \<Rightarrow> en_url (se_http env) | WS \<Rightarrow> ne_parse (se_ws env))"

fun over :: "progress \<Rightarrow> bool" where
  "over (Over res) = True"
| "over _ = False"

text \<open>The executors hold the same options object as the launcher, which changes it.\<close>

definition http_now :: "service \<Rightarrow> executor" where
  "http_now s = (sv_http s)\<lparr>ex_options := rp_options (sv_repeater s)\<rparr>"

definition ws_now :: "service \<Rightarrow> ws_executor" where
  "ws_now s = (sv_ws s)\<lparr>wx_options := rp_options (sv_repeater s)\<rparr>"


section \<open>The beginning of a task\<close>

definition failure :: "protocol \<Rightarrow> js_error \<Rightarrow> response" where
  "failure p e = (case p of HTTP \<Rightarrow> error_response e | WS \<Rightarrow> ws_error_response e)"

definition failed_task :: "protocol \<Rightarrow> http_request \<Rightarrow> js_error \<Rightarrow> task" where
  "failed_task p r e = \<lparr>tk_protocol = p, tk_request = r, tk_attempts = [], tk_answer = Some (failure p e)\<rparr>"

definition send_http :: "exec_env \<Rightarrow> executor \<Rightarrow> cert option \<Rightarrow> http_request \<Rightarrow> attempt" where
  "send_http env x c r = \<lparr>at_cert = c, at_request = r, at_progress = Transferring (configureCurl env x r)\<rparr>"

definition send_ws :: "ws_env \<Rightarrow> ws_executor \<Rightarrow> cert option \<Rightarrow> http_request \<Rightarrow> attempt" where
  "send_ws env x c r =
     \<lparr>at_cert = c, at_request = r,
      at_progress = (case ne_connect env (rq_url r) (ws_options_of x r) of
          Inl e \<Rightarrow> Over (Inl e) | Inr _ \<Rightarrow> Exchanging new_client_ws)\<rparr>"

text \<open>Each certificate is loaded into the one request object and the request is sent.\<close>

fun send_each ::
  "(cert \<Rightarrow> http_request \<Rightarrow> http_request) \<Rightarrow> (cert option \<Rightarrow> http_request \<Rightarrow> attempt) \<Rightarrow> cert list \<Rightarrow> http_request \<Rightarrow>
     attempt list"
where
  "send_each load issue [] r = []"
| "send_each load issue (c # cs) r = issue (Some c) (load c r) # send_each load issue cs (load c r)"

definition target_certs :: "url_parser \<Rightarrow> executor_options \<Rightarrow> cert_cache \<Rightarrow> http_request \<Rightarrow> cert list js_result" where
  "target_certs parse opts cache r =
     (case xo_certs opts of None \<Rightarrow> Inr [] | Some registered \<Rightarrow> resolve_certs parse cache r registered)"

text \<open>When an attempt ends, the task is answered by the first success, or by the failure of the last attempt.\<close>

definition conclude :: "response js_result \<Rightarrow> task \<Rightarrow> task" where
  "conclude res t =
     (if tk_answer t \<noteq> None then t
      else case res of
        Inr resp \<Rightarrow> t\<lparr>tk_answer := Some resp\<rparr>
      | Inl e \<Rightarrow>
          if list_all (\<lambda>a. over (at_progress a)) (tk_attempts t)
          then t\<lparr>tk_answer := Some (failure (tk_protocol t)
                  (if list_all (\<lambda>a. at_cert a = None) (tk_attempts t) then e else aggregate_error))\<rparr>
          else t)"

definition start_http :: "service_env \<Rightarrow> (cert list \<Rightarrow> cert list) \<Rightarrow> service \<Rightarrow> http_request \<Rightarrow> task" where
  "start_http env loads s r =
     (let x = http_now s; he = se_http env;
          r1 = (case xo_headers (ex_options x) of None \<Rightarrow> r | Some h \<Rightarrow> setHeaders h r) in
      case transformScript he (se_run env) (rp_scripts (sv_repeater s)) r1 of
        Inl e \<Rightarrow> failed_task HTTP r1 e
      | Inr r2 \<Rightarrow>
          (case target_certs (en_url he) (ex_options x) (sv_cache s) r2 of
             Inl e \<Rightarrow> failed_task HTTP r2 e
           | Inr cs \<Rightarrow>
               \<lparr>tk_protocol = HTTP, tk_request = r2,
                tk_attempts = (if cs = [] then [send_http he x None r2]
                  else send_each (\<lambda>c q. fst (loadCert (en_read he) (en_passphrase he) c q)) (send_http he x) (loads cs) r2),
                tk_answer = None\<rparr>))"

definition start_ws :: "service_env \<Rightarrow> (cert list \<Rightarrow> cert list) \<Rightarrow> service \<Rightarrow> http_request \<Rightarrow> task" where
  "start_ws env loads s r =
     (let x = ws_now s; we = se_ws env in
      case target_certs (ne_parse we) (wx_options x) (sv_cache s) r of
        Inl e \<Rightarrow> failed_task WS r e
      | Inr cs \<Rightarrow>
          (let t = \<lparr>tk_protocol = WS, tk_request = r,
                    tk_attempts = (if cs = [] then [send_ws we x None r]
                      else send_each (\<lambda>c q. fst (loadCert (ne_read we) (ne_passphrase we) c q)) (send_ws we x) (loads cs) r),
                    tk_answer = None\<rparr>
           in case at_progress (hd (tk_attempts t)) of Over res \<Rightarrow> conclude res t | _ \<Rightarrow> t))"

definition receive :: "service_env \<Rightarrow> (cert list \<Rightarrow> cert list) \<Rightarrow> request_event \<Rightarrow> service \<Rightarrow> service" where
  "receive env loads event s =
     (if \<not> rp_listening (sv_repeater s) then s
      else case acceptRequest (en_url (se_http env)) (en_regexp (se_http env))
                  [(HTTP, start_http env loads s), (WS, start_ws env loads s)] event of
        Inl e \<Rightarrow> s\<lparr>sv_repeater := logs (err_message e) (sv_repeater s)\<rparr>
      | Inr t \<Rightarrow> s\<lparr>sv_tasks := sv_tasks s @ [t]\<rparr>)"


section \<open>The end of an attempt\<close>

text \<open>What \<open>executeRequest\<close> does with the outcome of the transfer.\<close>

definition process_transfer ::
  "exec_env \<Rightarrow> script_runner \<Rightarrow> executor \<Rightarrow> scripts \<Rightarrow> http_request \<Rightarrow> curl_result js_result \<Rightarrow> response js_result"
where
  "process_transfer env runner x st r outcome = executeRequest env runner (\<lambda>_. outcome) x st r"

text \<open>A success with a certificate is offered to the cache.\<close>

definition offer ::
  "url_parser \<Rightarrow> http_request \<Rightarrow> cert option \<Rightarrow> response js_result \<Rightarrow> cert_cache \<Rightarrow> response js_result \<times> cert_cache"
where
  "offer parse r c res cache =
     (case (c, res) of
        (Some d, Inr resp) \<Rightarrow>
          (case cache_add parse r d cache of Inl e \<Rightarrow> (Inl e, cache) | Inr cache' \<Rightarrow> (Inr resp, cache'))
      | _ \<Rightarrow> (res, cache))"

definition finish_attempt :: "service_env \<Rightarrow> nat \<Rightarrow> nat \<Rightarrow> response js_result \<Rightarrow> service \<Rightarrow> service" where
  "finish_attempt env i j res s =
     (let t = sv_tasks s ! i;
          a = tk_attempts t ! j;
          (res', cache') = offer (se_parse env (tk_protocol t)) (tk_request t) (at_cert a) res (sv_cache s);
          t1 = t\<lparr>tk_attempts := (tk_attempts t)[j := a\<lparr>at_progress := Over res'\<rparr>]\<rparr>
      in s\<lparr>sv_cache := cache', sv_tasks := (sv_tasks s)[i := conclude res' t1]\<rparr>)"

definition transfer_ends :: "service_env \<Rightarrow> nat \<Rightarrow> nat \<Rightarrow> curl_result js_result \<Rightarrow> service \<Rightarrow> service" where
  "transfer_ends env i j outcome s =
     finish_attempt env i j
       (process_transfer (se_http env) (se_run env) (http_now s) (rp_scripts (sv_repeater s))
          (at_request (tk_attempts (sv_tasks s ! i) ! j)) outcome) s"

definition exchange_event :: "service_env \<Rightarrow> nat \<Rightarrow> nat \<Rightarrow> ws_client \<Rightarrow> ws_event \<Rightarrow> service \<Rightarrow> service" where
  "exchange_event env i j c ev s =
     (let t = sv_tasks s ! i; a = tk_attempts t ! j;
          c' = ws_on (ne_regexp (se_ws env)) (at_request a) ev c
      in case settled_with (wc_phase c') of
           Some res \<Rightarrow> finish_attempt env i j res s
         | None \<Rightarrow>
             s\<lparr>sv_tasks := (sv_tasks s)[i := t\<lparr>tk_attempts := (tk_attempts t)[j := a\<lparr>at_progress := Exchanging c'\<rparr>]\<rparr>]\<rparr>)"

text \<open>
  Steps: a request arrives, with the files of its certificates read in some order; a transfer ends with any
  outcome; anything happens to a web socket; or the repeater makes a step of its own.
\<close>

inductive service_step :: "service_env \<Rightarrow> service \<Rightarrow> service \<Rightarrow> bool" for env where
  request_arrives: "rp_socket (sv_repeater s) \<Longrightarrow> (\<forall>cs. mset (loads cs) = mset cs) \<Longrightarrow>
     service_step env s (receive env loads event s)"
| transfer_over: "i < length (sv_tasks s) \<Longrightarrow> j < length (tk_attempts (sv_tasks s ! i)) \<Longrightarrow>
     at_progress (tk_attempts (sv_tasks s ! i) ! j) = Transferring c \<Longrightarrow>
     service_step env s (transfer_ends env i j outcome s)"
| ws_happens: "i < length (sv_tasks s) \<Longrightarrow> j < length (tk_attempts (sv_tasks s ! i)) \<Longrightarrow>
     at_progress (tk_attempts (sv_tasks s ! i) ! j) = Exchanging c \<Longrightarrow>
     service_step env s (exchange_event env i j c ev s)"
| repeater_moves: "repeater_step (se_version env) (se_compile env) (sv_repeater s) rp \<Longrightarrow>
     service_step env s (s\<lparr>sv_repeater := rp\<rparr>)"

abbreviation service_reach :: "service_env \<Rightarrow> service \<Rightarrow> service \<Rightarrow> bool" where
  "service_reach env s t \<equiv> (service_step env)\<^sup>*\<^sup>* s t"


section \<open>Invariant\<close>

definition succeeded :: "attempt \<Rightarrow> bool" where
  "succeeded a \<longleftrightarrow> (\<exists>resp. at_progress a = Over (Inr resp))"

text \<open>
  A task is unanswered exactly while an attempt is under way and none has succeeded; an answer is the response of
  a successful attempt or, when all have failed, the failure; certificates serve the host.
\<close>

definition answer_ok :: "task \<Rightarrow> bool" where
  "answer_ok t \<longleftrightarrow>
     (tk_answer t = None \<longleftrightarrow>
        (\<exists>a \<in> set (tk_attempts t). \<not> over (at_progress a)) \<and> \<not> (\<exists>a \<in> set (tk_attempts t). succeeded a)) \<and>
     (\<forall>resp. tk_answer t = Some resp \<longrightarrow>
        (\<exists>a \<in> set (tk_attempts t). at_progress a = Over (Inr resp)) \<or>
        (\<not> (\<exists>a \<in> set (tk_attempts t). \<not> over (at_progress a)) \<and> \<not> (\<exists>a \<in> set (tk_attempts t). succeeded a) \<and>
         (\<exists>e. resp = failure (tk_protocol t) e)))"

definition certs_ok :: "service_env \<Rightarrow> task \<Rightarrow> bool" where
  "certs_ok env t \<longleftrightarrow>
     (\<forall>a \<in> set (tk_attempts t). \<forall>c. at_cert a = Some c \<longrightarrow>
        (\<exists>u. se_parse env (tk_protocol t) (rq_url (tk_request t)) = Some u \<and>
             serves c (url_hostname u) (portFromURL u)))"

definition open_ok :: "task \<Rightarrow> bool" where
  "open_ok t \<longleftrightarrow>
     (\<forall>a \<in> set (tk_attempts t). \<forall>c. at_progress a = Exchanging c \<longrightarrow> settled_with (wc_phase c) = None)"

definition task_ok :: "service_env \<Rightarrow> task \<Rightarrow> bool" where
  "task_ok env t \<longleftrightarrow> answer_ok t \<and> certs_ok env t \<and> open_ok t"

definition service_inv :: "service_env \<Rightarrow> service \<Rightarrow> bool" where
  "service_inv env s \<longleftrightarrow>
     repeater_inv (sv_repeater s) \<and> cache_inv (sv_cache s) \<and> (\<forall>t \<in> set (sv_tasks s). task_ok env t)"

lemma bex_set_nth:
  "j < length xs \<Longrightarrow> (\<exists>x \<in> set xs. P x) \<longleftrightarrow> P (xs ! j) \<or> (\<exists>k < length xs. k \<noteq> j \<and> P (xs ! k))"
  by (metis in_set_conv_nth)

lemma bex_set_update:
  "j < length xs \<Longrightarrow> (\<exists>x \<in> set (xs[j := y]). P x) \<longleftrightarrow> P y \<or> (\<exists>k < length xs. k \<noteq> j \<and> P (xs ! k))"
  by (subst bex_set_nth [of j]) auto

lemma list_all_not_bex: "list_all P xs \<longleftrightarrow> \<not> (\<exists>x \<in> set xs. \<not> P x)"
  by (auto simp: list_all_iff)

lemma conclude_sel [simp]:
  "tk_protocol (conclude res t) = tk_protocol t" "tk_request (conclude res t) = tk_request t"
  "tk_attempts (conclude res t) = tk_attempts t"
  by (auto simp: conclude_def split: sum.splits)

lemma conclude_answered: "tk_answer t = Some resp \<Longrightarrow> tk_answer (conclude res t) = Some resp"
  by (simp add: conclude_def)

lemma answer_ok_conclude:
  assumes "answer_ok t" and "j < length (tk_attempts t)" and "\<not> over (at_progress (tk_attempts t ! j))"
  shows "answer_ok (conclude res (t\<lparr>tk_attempts := (tk_attempts t)[j := (tk_attempts t ! j)\<lparr>at_progress := Over res\<rparr>]\<rparr>))"
proof -
  let ?as = "tk_attempts t" and ?a = "tk_attempts t ! j"
  have ns: "\<not> succeeded ?a" "\<And>r. at_progress ?a \<noteq> Over r" using assms(3) by (auto simp: succeeded_def)
  note up = bex_set_update [OF assms(2)] and old = bex_set_nth [OF assms(2), of "\<lambda>a. \<not> over (at_progress a)"]
    bex_set_nth [OF assms(2), of succeeded] bex_set_nth [OF assms(2), of "\<lambda>a. at_progress a = Over (Inr resp)" for resp]
  show ?thesis
    using assms(1,3) ns unfolding answer_ok_def conclude_sel task.simps up old
    by (cases "tk_answer t"; cases res)
      (auto simp: conclude_def list_all_not_bex up succeeded_def)
qed


lemma answer_ok_exchange:
  assumes "answer_ok t" and "j < length (tk_attempts t)"
    and "\<not> over (at_progress (tk_attempts t ! j))" and "\<not> over p"
  shows "answer_ok (t\<lparr>tk_attempts := (tk_attempts t)[j := (tk_attempts t ! j)\<lparr>at_progress := p\<rparr>]\<rparr>)"
proof -
  have ns: "\<not> succeeded (tk_attempts t ! j)" "\<And>r. at_progress (tk_attempts t ! j) \<noteq> Over r" "\<And>r. p \<noteq> Over r"
    using assms(3,4) by (auto simp: succeeded_def)
  note up = bex_set_update [OF assms(2)] and old = bex_set_nth [OF assms(2), of "\<lambda>a. \<not> over (at_progress a)"]
    bex_set_nth [OF assms(2), of succeeded] bex_set_nth [OF assms(2), of "\<lambda>a. at_progress a = Over (Inr resp)" for resp]
  show ?thesis
    using assms ns unfolding answer_ok_def old by (auto simp: up succeeded_def)
qed

lemma certs_ok_update:
  assumes "certs_ok env t" and "j < length (tk_attempts t)"
  shows "certs_ok env (t\<lparr>tk_attempts := (tk_attempts t)[j := (tk_attempts t ! j)\<lparr>at_progress := p\<rparr>]\<rparr>)"
proof -
  have "at_cert a \<in> at_cert ` set (tk_attempts t)"
    if "a \<in> set ((tk_attempts t)[j := (tk_attempts t ! j)\<lparr>at_progress := p\<rparr>])" for a
    using set_update_subset_insert that assms(2) by (fastforce simp: image_iff dest: nth_mem)
  then show ?thesis using assms(1) unfolding certs_ok_def by fastforce
qed

lemma open_ok_update:
  assumes "open_ok t" and "\<forall>c. p = Exchanging c \<longrightarrow> settled_with (wc_phase c) = None"
  shows "open_ok (t\<lparr>tk_attempts := (tk_attempts t)[j := a\<lparr>at_progress := p\<rparr>]\<rparr>)"
  using assms set_update_subset_insert unfolding open_ok_def by fastforce

lemma certs_ok_conclude [simp]: "certs_ok env (conclude res t) = certs_ok env t"
  and open_ok_conclude [simp]: "open_ok (conclude res t) = open_ok t"
  by (simp_all add: certs_ok_def open_ok_def)

lemma task_ok_finished:
  assumes "task_ok env t" and "j < length (tk_attempts t)" and "\<not> over (at_progress (tk_attempts t ! j))"
  shows "task_ok env (conclude res (t\<lparr>tk_attempts := (tk_attempts t)[j := (tk_attempts t ! j)\<lparr>at_progress := Over res\<rparr>]\<rparr>))"
  using assms by (simp add: task_ok_def answer_ok_conclude certs_ok_update open_ok_update)

lemma cache_inv_offer:
  assumes "cache_inv cache" and "offer parse r c res cache = (res', cache')"
    and "\<And>d. c = Some d \<Longrightarrow> \<exists>u. parse (rq_url r) = Some u \<and> serves d (url_hostname u) (portFromURL u)"
    and "\<And>x u. parse x = Some u \<Longrightarrow> CHR ''_'' \<notin> set (url_port u)"
  shows "cache_inv cache'"
proof (cases c)
  case (Some d)
  with assms(3) obtain u where u: "parse (rq_url r) = Some u" "serves d (url_hostname u) (portFromURL u)" by blast
  have "cache_inv (sset (url_key u) d cache)"
    using cache_inv_put [OF assms(1) u(2) portFromURL_plain [OF assms(4) [OF u(1)]]] .
  with assms(1,2) Some show ?thesis
    by (cases res) (auto simp: offer_def cache_add_key [of parse, OF u(1)] simp del: append_Cons append_assoc split: if_splits)
qed (use assms in \<open>simp add: offer_def\<close>)

text \<open>What is relied on of the URL parser: a port is a number.\<close>

definition plain_ports :: "service_env \<Rightarrow> bool" where
  "plain_ports env \<longleftrightarrow> (\<forall>p x u. se_parse env p x = Some u \<longrightarrow> CHR ''_'' \<notin> set (url_port u))"

lemma inv_finish_attempt:
  assumes "service_inv env s" and "plain_ports env" and "i < length (sv_tasks s)"
    and "j < length (tk_attempts (sv_tasks s ! i))" and "\<not> over (at_progress (tk_attempts (sv_tasks s ! i) ! j))"
  shows "service_inv env (finish_attempt env i j res s)"
proof -
  let ?t = "sv_tasks s ! i"
  let ?a = "tk_attempts ?t ! j"
  obtain res' cache' where o: "offer (se_parse env (tk_protocol ?t)) (tk_request ?t) (at_cert ?a) res (sv_cache s) = (res', cache')"
    by fastforce
  have t: "task_ok env ?t" using assms(1,3) by (simp add: service_inv_def)
  have "cache_inv cache'"
  proof (rule cache_inv_offer [OF _ o])
    show "cache_inv (sv_cache s)" using assms(1) by (simp add: service_inv_def)
    show "\<exists>u. se_parse env (tk_protocol ?t) (rq_url (tk_request ?t)) = Some u \<and>
        serves d (url_hostname u) (portFromURL u)" if "at_cert ?a = Some d" for d
      using t assms(4) that by (auto simp: task_ok_def certs_ok_def)
  qed (use assms(2) in \<open>auto simp: plain_ports_def\<close>)
  with task_ok_finished [OF t assms(4,5), of res'] assms(1) o show ?thesis
    using set_update_subset_insert by (fastforce simp: service_inv_def finish_attempt_def Let_def)
qed

lemma inv_exchange_event:
  assumes "service_inv env s" and "plain_ports env" and "i < length (sv_tasks s)"
    and "j < length (tk_attempts (sv_tasks s ! i))" and "at_progress (tk_attempts (sv_tasks s ! i) ! j) = Exchanging c"
  shows "service_inv env (exchange_event env i j c ev s)"
proof -
  let ?t = "sv_tasks s ! i"
  let ?a = "tk_attempts ?t ! j"
  let ?c = "ws_on (ne_regexp (se_ws env)) (at_request ?a) ev c"
  have n: "\<not> over (at_progress ?a)" using assms(5) by simp
  have t: "task_ok env ?t" using assms(1,3) by (simp add: service_inv_def)
  show ?thesis
  proof (cases "settled_with (wc_phase ?c)")
    case None
    let ?u = "?t\<lparr>tk_attempts := (tk_attempts ?t)[j := ?a\<lparr>at_progress := Exchanging ?c\<rparr>]\<rparr>"
    have "task_ok env ?u"
      using t assms(4) n None by (simp add: task_ok_def answer_ok_exchange certs_ok_update open_ok_update)
    with assms(1) None show ?thesis
      using set_update_subset_insert by (fastforce simp: service_inv_def exchange_event_def Let_def)
  next
    case (Some res)
    then show ?thesis using inv_finish_attempt [OF assms(1-4) n] by (simp add: exchange_event_def Let_def)
  qed
qed

lemma send_each_in: "a \<in> set (send_each load issue cs r) \<Longrightarrow> \<exists>c q. c \<in> set cs \<and> a = issue (Some c) q"
  by (induction cs arbitrary: r) (auto, blast)

lemma send_each_Nil [simp]: "send_each load issue cs r = [] \<longleftrightarrow> cs = []"
  by (cases cs) auto

lemma task_ok_failed: "task_ok env (failed_task p r e)"
  by (auto simp: task_ok_def answer_ok_def certs_ok_def open_ok_def failed_task_def)

lemma target_certs_serve:
  assumes "cache_inv cache" and "target_certs parse opts cache r = Inr cs" and "c \<in> set cs"
    and "\<And>x u. parse x = Some u \<Longrightarrow> CHR ''_'' \<notin> set (url_port u)"
  shows "\<exists>u. parse (rq_url r) = Some u \<and> serves c (url_hostname u) (portFromURL u)"
proof -
  from assms(2,3) obtain registered where r: "resolve_certs parse cache r registered = Inr cs"
    by (cases "xo_certs opts") (auto simp: target_certs_def)
  then obtain u where u: "parse (rq_url r) = Some u"
    by (cases "parse (rq_url r)") (auto simp: resolve_certs_def cache_get_def cert_key_def)
  from certs_served [of cache parse, OF assms(1) u assms(4) [OF u], of registered] r u assms(3)
  show ?thesis by auto
qed

text \<open>The attempts a task starts with.\<close>

lemma first_attempts:
  assumes "cache_inv cache" and "target_certs parse opts cache r = Inr cs" and "mset (loads cs) = mset cs"
    and "\<And>x u. parse x = Some u \<Longrightarrow> CHR ''_'' \<notin> set (url_port u)"
    and "as = (if cs = [] then [issue None r] else send_each load issue (loads cs) r)"
    and "\<And>c q. at_cert (issue c q) = c"
  shows "as \<noteq> [] \<and> (\<forall>a \<in> set as. (\<exists>c q. a = issue c q) \<and>
    (\<forall>c. at_cert a = Some c \<longrightarrow> (\<exists>u. parse (rq_url r) = Some u \<and> serves c (url_hostname u) (portFromURL u))))"
proof (cases "cs = []")
  case False
  have l: "set (loads cs) = set cs" using assms(3) by (metis set_mset_mset)
  with False have "loads cs \<noteq> []" by auto
  with False assms(5) have "as \<noteq> []" by simp
  moreover have "\<exists>c q. c \<in> set cs \<and> a = issue (Some c) q" if "a \<in> set as" for a
    using send_each_in that False assms(5) l by fastforce
  moreover have "\<exists>u. parse (rq_url r) = Some u \<and> serves d (url_hostname u) (portFromURL u)"
    if "at_cert (issue (Some c) q) = Some d" "c \<in> set cs" for c d q
    using that target_certs_serve [OF assms(1,2) _ assms(4)] assms(6) by simp
  ultimately show ?thesis by blast
qed (use assms(5,6) in auto)

lemma task_ok_start_http:
  assumes "cache_inv (sv_cache s)" and "plain_ports env" and "\<forall>cs. mset (loads cs) = mset cs"
  shows "task_ok env (start_http env loads s r)"
proof -
  let ?x = "http_now s" and ?he = "se_http env"
  define r1 where "r1 = (case xo_headers (ex_options ?x) of None \<Rightarrow> r | Some h \<Rightarrow> setHeaders h r)"
  have ports: "\<And>x u. en_url ?he x = Some u \<Longrightarrow> CHR ''_'' \<notin> set (url_port u)"
    using assms(2) by (auto simp: plain_ports_def se_parse_def split: protocol.splits)
  show ?thesis
  proof (cases "transformScript ?he (se_run env) (rp_scripts (sv_repeater s)) r1")
    case (Inl e)
    then show ?thesis by (simp add: start_http_def Let_def r1_def [symmetric] task_ok_failed)
  next
    case r2: (Inr r2)
    show ?thesis
    proof (cases "target_certs (en_url ?he) (ex_options ?x) (sv_cache s) r2")
      case (Inl e)
      with r2 show ?thesis by (simp add: start_http_def Let_def r1_def [symmetric] task_ok_failed)
    next
      case (Inr cs)
      define as where "as = (if cs = [] then [send_http ?he ?x None r2]
        else send_each (\<lambda>c q. fst (loadCert (en_read ?he) (en_passphrase ?he) c q)) (send_http ?he ?x) (loads cs) r2)"
      have t: "start_http env loads s r = \<lparr>tk_protocol = HTTP, tk_request = r2, tk_attempts = as, tk_answer = None\<rparr>"
        using r2 Inr by (simp add: start_http_def Let_def r1_def [symmetric] as_def)
      have "as \<noteq> [] \<and> (\<forall>a \<in> set as. (\<exists>c q. a = send_http ?he ?x c q) \<and>
        (\<forall>c. at_cert a = Some c \<longrightarrow> (\<exists>u. en_url ?he (rq_url r2) = Some u \<and> serves c (url_hostname u) (portFromURL u))))"
        by (rule first_attempts [where issue = "send_http ?he ?x" and loads = loads, OF assms(1) Inr _ ports as_def])
          (use assms(3) in \<open>simp_all add: send_http_def\<close>)
      moreover have "at_progress (send_http ?he ?x c q) = Transferring (configureCurl ?he ?x q)" for c q
        by (simp add: send_http_def)
      ultimately have "as \<noteq> []" "\<forall>a \<in> set as. \<exists>c. at_progress a = Transferring c"
        "certs_ok env (start_http env loads s r)"
        by (auto simp: t certs_ok_def se_parse_def)
      moreover from this have "\<exists>a \<in> set as. \<not> over (at_progress a)" by (cases as) auto
      ultimately show ?thesis
        by (auto simp: t task_ok_def answer_ok_def open_ok_def succeeded_def)
    qed
  qed
qed

lemma answer_ok_first:
  assumes "tk_attempts t \<noteq> []" and "tk_answer t = None" and "\<forall>a \<in> set (tk_attempts t). \<not> succeeded a"
  shows "answer_ok (case at_progress (hd (tk_attempts t)) of Over res \<Rightarrow> conclude res t | _ \<Rightarrow> t)"
proof (cases "at_progress (hd (tk_attempts t))")
  case (Over res)
  moreover have "hd (tk_attempts t) \<in> set (tk_attempts t)" using assms(1) by simp
  ultimately obtain e where "res = Inl e" using assms(3) by (cases res) (auto simp: succeeded_def)
  with Over assms show ?thesis
    by (auto simp: answer_ok_def conclude_def list_all_iff)
next
  case (Transferring c)
  then show ?thesis using assms by (auto simp: answer_ok_def intro!: bexI [of _ "hd (tk_attempts t)"])
next
  case (Exchanging c)
  then show ?thesis using assms by (auto simp: answer_ok_def intro!: bexI [of _ "hd (tk_attempts t)"])
qed

lemma task_ok_start_ws:
  assumes "cache_inv (sv_cache s)" and "plain_ports env" and "\<forall>cs. mset (loads cs) = mset cs"
  shows "task_ok env (start_ws env loads s r)"
proof (cases "target_certs (ne_parse (se_ws env)) (wx_options (ws_now s)) (sv_cache s) r")
  case (Inl e)
  then show ?thesis by (simp add: start_ws_def Let_def task_ok_failed)
next
  case (Inr cs)
  let ?x = "ws_now s" and ?we = "se_ws env"
  have ports: "\<And>x u. ne_parse ?we x = Some u \<Longrightarrow> CHR ''_'' \<notin> set (url_port u)"
    using assms(2) by (auto simp: plain_ports_def se_parse_def split: protocol.splits)
  define as where "as = (if cs = [] then [send_ws ?we ?x None r]
    else send_each (\<lambda>c q. fst (loadCert (ne_read ?we) (ne_passphrase ?we) c q)) (send_ws ?we ?x) (loads cs) r)"
  define t where "t = \<lparr>tk_protocol = WS, tk_request = r, tk_attempts = as, tk_answer = None\<rparr>"
  have st: "start_ws env loads s r = (case at_progress (hd (tk_attempts t)) of Over res \<Rightarrow> conclude res t | _ \<Rightarrow> t)"
    by (simp only: start_ws_def Let_def Inr sum.case as_def t_def task.simps)
  have f: "as \<noteq> [] \<and> (\<forall>a \<in> set as. (\<exists>c q. a = send_ws ?we ?x c q) \<and>
      (\<forall>c. at_cert a = Some c \<longrightarrow> (\<exists>u. ne_parse ?we (rq_url r) = Some u \<and> serves c (url_hostname u) (portFromURL u))))"
    by (rule first_attempts [where issue = "send_ws ?we ?x" and loads = loads, OF assms(1) Inr _ ports as_def])
      (use assms(3) in \<open>simp_all add: send_ws_def\<close>)
  have p: "\<not> succeeded (send_ws ?we ?x c q)"
    "at_progress (send_ws ?we ?x c q) = Exchanging cl \<Longrightarrow> settled_with (wc_phase cl) = None" for c q cl
    by (auto simp: send_ws_def succeeded_def new_client_ws_def split: sum.splits)
  have "answer_ok (start_ws env loads s r)"
    unfolding st by (rule answer_ok_first) (use f p(1) in \<open>auto simp: t_def\<close>)
  moreover have "certs_ok env t" "open_ok t"
    using f p(2) by (fastforce simp: certs_ok_def open_ok_def t_def se_parse_def)+
  ultimately show ?thesis by (simp add: task_ok_def st split: progress.splits)
qed

lemma inv_receive:
  assumes "service_inv env s" and "plain_ports env" and "\<forall>cs. mset (loads cs) = mset cs"
  shows "service_inv env (receive env loads event s)"
proof -
  have c: "cache_inv (sv_cache s)" using assms(1) by (simp add: service_inv_def)
  have "task_ok env t" if "sendRequest [(HTTP, start_http env loads s), (WS, start_ws env loads s)] q = Inr t" for q t
    using that task_ok_start_http [OF c assms(2,3)] task_ok_start_ws [OF c assms(2,3)]
    by (auto simp: sendRequest_def split: if_splits)
  then show ?thesis
    using assms(1) by (auto simp: receive_def acceptRequest_def service_inv_def inv_logs split: sum.splits)
qed

lemma inv_service_step:
  assumes "plain_ports env" and "service_inv env s" and "service_step env s t"
  shows "service_inv env t"
  using assms(3)
proof cases
  case request_arrives
  then show ?thesis using inv_receive [OF assms(2,1)] by blast
next
  case transfer_over
  then show ?thesis using inv_finish_attempt [OF assms(2,1)] by (simp add: transfer_ends_def)
next
  case ws_happens
  then show ?thesis using inv_exchange_event [OF assms(2,1)] by blast
next
  case repeater_moves
  then show ?thesis using assms(2) inv_step by (auto simp: service_inv_def)
qed

interpretation service_sys: step_system "service_step env" "\<lambda>s. service_inv env s \<and> plain_ports env" for env
  by unfold_locales (use inv_service_step in blast)


section \<open>Answers\<close>

definition started :: "service_env \<Rightarrow> service \<Rightarrow> bool" where
  "started env s \<longleftrightarrow>
     (\<exists>i daemon s0. idle s0 \<and> sv_repeater s = run (se_version env) i daemon s0) \<and> sv_cache s = [] \<and> sv_tasks s = []"

lemma inv_started: "started env s \<Longrightarrow> service_inv env s"
  by (auto simp: started_def service_inv_def cache_inv_def intro: inv_run)

text \<open>What a step leaves of a task: its request, and its answer if it has one.\<close>

definition later :: "task \<Rightarrow> task \<Rightarrow> bool" where
  "later t u \<longleftrightarrow> tk_protocol u = tk_protocol t \<and> tk_request u = tk_request t \<and>
     length (tk_attempts u) = length (tk_attempts t) \<and>
     (\<forall>resp. tk_answer t = Some resp \<longrightarrow> tk_answer u = Some resp)"

lemma later_refl [simp]: "later t t"
  by (simp add: later_def)

lemma later_trans: "later t u \<Longrightarrow> later u v \<Longrightarrow> later t v"
  by (simp add: later_def)

lemma later_attempts: "length as = length (tk_attempts t) \<Longrightarrow> later t (t\<lparr>tk_attempts := as\<rparr>)"
  and later_conclude: "later t u \<Longrightarrow> later t (conclude res u)"
  by (simp_all add: later_def conclude_answered)

lemma finish_attempt_tasks:
  "\<exists>u. later (sv_tasks s ! i) u \<and> sv_tasks (finish_attempt env i j res s) = (sv_tasks s)[i := u]"
proof -
  let ?t = "sv_tasks s ! i"
  let ?o = "offer (se_parse env (tk_protocol ?t)) (tk_request ?t) (at_cert (tk_attempts ?t ! j)) res (sv_cache s)"
  let ?u = "conclude (fst ?o) (?t\<lparr>tk_attempts := (tk_attempts ?t)[j := (tk_attempts ?t ! j)\<lparr>at_progress := Over (fst ?o)\<rparr>]\<rparr>)"
  have "sv_tasks (finish_attempt env i j res s) = (sv_tasks s)[i := ?u]"
    by (simp add: finish_attempt_def Let_def split_def)
  moreover have "later ?t ?u" by (intro later_conclude later_attempts) simp
  ultimately show ?thesis by blast
qed

lemma exchange_event_tasks:
  "\<exists>u. later (sv_tasks s ! i) u \<and> sv_tasks (exchange_event env i j c ev s) = (sv_tasks s)[i := u]"
proof (cases "settled_with (wc_phase (ws_on (ne_regexp (se_ws env)) (at_request (tk_attempts (sv_tasks s ! i) ! j)) ev c))")
  case None
  show ?thesis
    by (rule exI, rule conjI [OF later_attempts])
      (simp_all add: exchange_event_def Let_def None)
next
  case (Some res)
  then show ?thesis using finish_attempt_tasks [of s i env j res] by (simp add: exchange_event_def Let_def)
qed

lemma later_update:
  "i < length ts \<Longrightarrow> \<exists>u. later (ts ! i) u \<and> us = ts[i := u] \<Longrightarrow> k < length ts \<Longrightarrow>
     k < length us \<and> later (ts ! k) (us ! k)"
  by (cases "i = k") auto

lemma step_later:
  assumes "service_step env s t" and "k < length (sv_tasks s)"
  shows "k < length (sv_tasks t) \<and> later (sv_tasks s ! k) (sv_tasks t ! k)"
  using assms(1)
proof cases
  case (request_arrives loads event)
  then show ?thesis using assms(2) by (auto simp: receive_def nth_append split: sum.splits)
next
  case (transfer_over i j c outcome)
  show ?thesis unfolding transfer_over(1) transfer_ends_def
    by (rule later_update [OF transfer_over(2) finish_attempt_tasks assms(2)])
next
  case (ws_happens i j c ev)
  show ?thesis unfolding ws_happens(1)
    by (rule later_update [OF ws_happens(2) exchange_event_tasks assms(2)])
qed (use assms(2) in auto)

lemma reach_later:
  assumes "service_reach env s t" and "k < length (sv_tasks s)"
  shows "k < length (sv_tasks t) \<and> later (sv_tasks s ! k) (sv_tasks t ! k)"
  using assms(1)
proof (induction rule: rtranclp_induct)
  case (step t u)
  then show ?case using step_later later_trans by blast
qed (use assms(2) in simp)

text \<open>
  C5. However requests, transfers, web sockets and the other events of the repeater interleave, a
  request once accepted stays and is answered at most once: its answer never changes.  It is unanswered
  exactly while an attempt is under way and none has succeeded; its answer is the response of one of its
  successful attempts or, if all have failed, an error response.  The cache of certificates that all
  requests share holds only certificates that serve the host and port they are filed under.
\<close>

theorem requests_answered:
  assumes "plain_ports env" and "started env s0" and "service_reach env s0 s" and "service_reach env s t"
    and "i < length (sv_tasks s)"
  shows "let a = sv_tasks s ! i; b = sv_tasks t ! i in
    i < length (sv_tasks t) \<and> tk_request b = tk_request a \<and>
    (\<forall>resp. tk_answer a = Some resp \<longrightarrow> tk_answer b = Some resp) \<and>
    (tk_answer a = None \<longleftrightarrow>
       (\<exists>x \<in> set (tk_attempts a). \<not> over (at_progress x)) \<and> \<not> (\<exists>x \<in> set (tk_attempts a). succeeded x)) \<and>
    (\<forall>resp. tk_answer a = Some resp \<longrightarrow>
       (\<exists>x \<in> set (tk_attempts a). at_progress x = Over (Inr resp)) \<or>
       (\<not> (\<exists>x \<in> set (tk_attempts a). succeeded x) \<and> (\<exists>e. resp = failure (tk_protocol a) e))) \<and>
    cache_inv (sv_cache s)"
proof -
  have "service_inv env s"
    using service_sys.steps_inv [OF assms(3)] inv_started [OF assms(2)] assms(1) by blast
  then have "answer_ok (sv_tasks s ! i)" "cache_inv (sv_cache s)"
    using assms(5) by (auto simp: service_inv_def task_ok_def)
  moreover have "i < length (sv_tasks t)" "later (sv_tasks s ! i) (sv_tasks t ! i)"
    using reach_later [OF assms(4,5)] by auto
  ultimately show ?thesis unfolding Let_def answer_ok_def later_def by blast
qed


section \<open>A request on its own\<close>

text \<open>The transfers of task \<open>i\<close> end in the order \<open>js\<close>, with the outcomes \<open>perform\<close> gives.\<close>

fun transfers_end ::
  "service_env \<Rightarrow> (curl \<Rightarrow> curl_result js_result) \<Rightarrow> nat \<Rightarrow> nat list \<Rightarrow> service \<Rightarrow> service"
where
  "transfers_end env perform i [] s = s"
| "transfers_end env perform i (j # js) s =
     transfers_end env perform i js
       (case at_progress (tk_attempts (sv_tasks s ! i) ! j) of
          Transferring c \<Rightarrow> transfer_ends env i j (perform c) s | _ \<Rightarrow> s)"

lemma process_transfer_sent:
  "process_transfer env runner x st r (perform (configureCurl env x r)) = executeRequest env runner perform x st r"
  by (simp add: process_transfer_def executeRequest_def)

lemma transfer_ends_task:
  assumes "i < length (sv_tasks s)"
  shows "sv_repeater (transfer_ends env i j outcome s) = sv_repeater s \<and>
    length (sv_tasks (transfer_ends env i j outcome s)) = length (sv_tasks s) \<and>
    length (tk_attempts (sv_tasks (transfer_ends env i j outcome s) ! i)) = length (tk_attempts (sv_tasks s ! i))"
  using assms finish_attempt_tasks [of s i env j]
  by (auto simp: transfer_ends_def finish_attempt_def Let_def split: prod.splits)

lemma transfers_reach:
  "i < length (sv_tasks s) \<Longrightarrow> \<forall>j \<in> set js. j < length (tk_attempts (sv_tasks s ! i)) \<Longrightarrow>
   service_reach env s (transfers_end env perform i js s)"
proof (induction js arbitrary: s)
  case (Cons j js)
  let ?p = "at_progress (tk_attempts (sv_tasks s ! i) ! j)"
  show ?case
  proof (cases ?p)
    case (Transferring c)
    let ?s = "transfer_ends env i j (perform c) s"
    have "service_reach env ?s (transfers_end env perform i js ?s)"
      using Cons transfer_ends_task [OF Cons.prems(1)] by simp
    moreover have "service_step env s ?s"
      by (rule transfer_over [OF Cons.prems(1) _ Transferring]) (use Cons.prems(2) in simp)
    ultimately show ?thesis using Transferring by (simp add: converse_rtranclp_into_rtranclp)
  qed (use Cons in simp_all)
qed simp

text \<open>Attempts with certificates settle as \<open>Promise.any\<close> has it.\<close>

lemma transfers_end_settle:
  assumes "x = http_now s" and "st = rp_scripts (sv_repeater s)" and "t = sv_tasks s ! i"
    and "i < length (sv_tasks s)" and "tk_protocol t = HTTP" and "distinct js"
    and "\<forall>j \<in> set js. j < length (tk_attempts t) \<and> at_cert (tk_attempts t ! j) \<noteq> None \<and>
      at_progress (tk_attempts t ! j) = Transferring (configureCurl (se_http env) x (at_request (tk_attempts t ! j)))"
    and "\<forall>k < length (tk_attempts t). k \<notin> set js \<longrightarrow> over (at_progress (tk_attempts t ! k))"
  shows "let s' = transfers_end env perform i js s;
      w = settle (en_url (se_http env)) (tk_request t) (map (\<lambda>j. (the (at_cert (tk_attempts t ! j)),
            executeRequest (se_http env) (se_run env) perform x st (at_request (tk_attempts t ! j)))) js) (sv_cache s)
    in sv_cache s' = snd w \<and>
       tk_answer (sv_tasks s' ! i) = (case tk_answer t of Some a \<Rightarrow> Some a | None \<Rightarrow>
         (case fst w of Some resp \<Rightarrow> Some resp
          | None \<Rightarrow> if js = [] then None else Some (error_response aggregate_error)))"
  using assms
proof (induction js arbitrary: s t)
  case Nil
  then show ?case by (simp split: option.splits)
next
  case (Cons j js)
  let ?he = "se_http env" and ?a = "tk_attempts t ! j"
  have j: "j < length (tk_attempts t)" and p: "at_progress ?a = Transferring (configureCurl ?he x (at_request ?a))"
    and "at_cert ?a \<noteq> None" using Cons.prems(7) by auto
  then obtain d where d: "at_cert ?a = Some d" by auto
  define res where "res = executeRequest ?he (se_run env) perform x st (at_request ?a)"
  obtain res' cache' where o: "offer (en_url ?he) (tk_request t) (Some d) res (sv_cache s) = (res', cache')" by fastforce
  define s1 where "s1 = transfer_ends env i j (perform (configureCurl ?he x (at_request ?a))) s"
  define as where "as = (tk_attempts t)[j := ?a\<lparr>at_progress := Over res'\<rparr>]"
  define t1 where "t1 = conclude res' (t\<lparr>tk_attempts := as\<rparr>)"
  have s1: "s1 = s\<lparr>sv_cache := cache', sv_tasks := (sv_tasks s)[i := t1]\<rparr>"
    using o d Cons.prems(5) unfolding s1_def transfer_ends_def as_def t1_def
      Cons.prems(1) [symmetric] Cons.prems(2) [symmetric] Cons.prems(3) [symmetric]
    by (simp add: finish_attempt_def Let_def se_parse_def process_transfer_sent res_def flip: Cons.prems(3))
  have at: "as ! k = (if k = j then ?a\<lparr>at_progress := Over res'\<rparr> else tk_attempts t ! k)"
    "length as = length (tk_attempts t)" for k
    using j by (auto simp: as_def)
  have t1: "tk_attempts t1 = as" "tk_request t1 = tk_request t" "tk_protocol t1 = HTTP"
    using Cons.prems(5) by (simp_all add: t1_def)
  have ends: "transfers_end env perform i (j # js) s = transfers_end env perform i js s1"
    using p by (simp add: s1_def flip: Cons.prems(3))
  have nj: "j \<notin> set js" using Cons.prems(6) by simp
  let ?as = "map (\<lambda>j. (the (at_cert (tk_attempts t ! j)),
      executeRequest ?he (se_run env) perform x st (at_request (tk_attempts t ! j)))) js"
  have same: "map (\<lambda>j. (the (at_cert (as ! j)), executeRequest ?he (se_run env) perform x st (at_request (as ! j)))) js = ?as"
    using nj by (auto simp: at)
  have now: "x = http_now s1" "st = rp_scripts (sv_repeater s1)" "t1 = sv_tasks s1 ! i" "i < length (sv_tasks s1)"
    "sv_cache s1 = cache'"
    using Cons.prems(1,2,4) by (simp_all add: s1 http_now_def)
  have rest: "\<forall>k \<in> set js. k < length (tk_attempts t1) \<and> at_cert (tk_attempts t1 ! k) \<noteq> None \<and>
      at_progress (tk_attempts t1 ! k) = Transferring (configureCurl ?he x (at_request (tk_attempts t1 ! k)))"
    "\<forall>k < length (tk_attempts t1). k \<notin> set js \<longrightarrow> over (at_progress (tk_attempts t1 ! k))"
    using Cons.prems(7,8) nj unfolding t1 at by auto
  have "distinct js" using Cons.prems(6) by simp
  note IH = Cons.IH [OF now(1-4) t1(3) this rest, unfolded t1 same now(5) Let_def]
  have all: "list_all (\<lambda>a. over (at_progress a)) as \<longleftrightarrow> js = []"
  proof (cases js)
    case Nil
    then show ?thesis using Cons.prems(8) at by (auto simp: list_all_length)
  next
    case (Cons k ks)
    then have "k < length as" "\<not> over (at_progress (as ! k))"
      using Cons.prems(7) nj at by auto
    then show ?thesis using Cons by (auto simp: list_all_length)
  qed
  have ans: "tk_answer t1 = (case tk_answer t of Some a \<Rightarrow> Some a | None \<Rightarrow>
      (case res' of Inr resp \<Rightarrow> Some resp | Inl e \<Rightarrow> if js = [] then Some (error_response aggregate_error) else None))"
  proof -
    have "as ! j \<in> set as" using j by (simp add: as_def set_update_memI)
    moreover have "at_cert (as ! j) \<noteq> None" using d at by simp
    ultimately have "\<not> list_all (\<lambda>a. at_cert a = None) as" by (auto simp: list_all_iff)
    then show ?thesis
      using all Cons.prems(5) by (cases "tk_answer t"; cases res') (simp_all add: t1_def conclude_def failure_def)
  qed
  show ?case
  proof (cases "\<exists>resp c. res = Inr resp \<and> cache_add (en_url ?he) (tk_request t) d (sv_cache s) = Inr c")
    case True
    then obtain resp c where r: "res = Inr resp" "cache_add (en_url ?he) (tk_request t) d (sv_cache s) = Inr c" by blast
    with o have "res' = Inr resp" "cache' = c" by (simp_all add: offer_def)
    with IH ans r show ?thesis
      unfolding ends Let_def list.map d option.sel res_def [symmetric] by (simp split: option.splits)
  next
    case False
    then obtain e where e: "res' = Inl e" "cache' = sv_cache s"
      using o by (cases res; cases "cache_add (en_url ?he) (tk_request t) d (sv_cache s)") (auto simp: offer_def)
    have "settle (en_url ?he) (tk_request t) ((d, res) # ?as) (sv_cache s) =
        settle (en_url ?he) (tk_request t) ?as (sv_cache s)"
      using False by (cases res; cases "cache_add (en_url ?he) (tk_request t) d (sv_cache s)") auto
    with IH ans e show ?thesis
      unfolding ends Let_def list.map d option.sel res_def [symmetric] by (cases js) (simp_all split: option.splits)
  qed
qed


lemma send_with_certs_each:
  "send_with_certs env runner perform x st cs r =
     map (\<lambda>a. (the (at_cert a), executeRequest env runner perform x st (at_request a)))
       (send_each (\<lambda>c q. fst (loadCert (en_read env) (en_passphrase env) c q)) (send_http env x) cs r)"
  by (induction cs arbitrary: r) (simp_all add: send_http_def Let_def)

lemma send_each_http:
  "a \<in> set (send_each load (send_http env x) cs r) \<Longrightarrow>
     at_cert a \<noteq> None \<and> at_progress a = Transferring (configureCurl env x (at_request a))"
  by (induction cs arbitrary: r) (auto simp: send_http_def)

lemma transfers_end_single:
  assumes "i < length (sv_tasks s)" and "sv_tasks s ! i = \<lparr>tk_protocol = HTTP, tk_request = r,
    tk_attempts = [send_http (se_http env) (http_now s) None r], tk_answer = None\<rparr>"
  shows "tk_answer (sv_tasks (transfers_end env perform i [0] s) ! i) =
      Some (case executeRequest (se_http env) (se_run env) perform (http_now s) (rp_scripts (sv_repeater s)) r of
        Inl e \<Rightarrow> error_response e | Inr resp \<Rightarrow> resp) \<and>
    sv_cache (transfers_end env perform i [0] s) = sv_cache s"
  using assms
  by (cases "executeRequest (se_http env) (se_run env) perform (http_now s) (rp_scripts (sv_repeater s)) r")
    (simp_all add: send_http_def transfer_ends_def process_transfer_sent finish_attempt_def offer_def conclude_def
      failure_def)

lemma receive_http:
  assumes "rp_listening (sv_repeater s)" and "new_request (en_url (se_http env)) (en_regexp (se_http env)) (event_options event) = Inr r"
    and "rq_protocol r = HTTP"
  shows "receive env loads event s = s\<lparr>sv_tasks := sv_tasks s @ [start_http env loads s r]\<rparr>"
  using assms by (simp add: receive_def acceptRequest_def sendRequest_def)

text \<open>How a task begins, beside what \<open>execute\<close> does in the same case.\<close>

lemma start_http_cases:
  fixes env s r loads perform finishes
  defines "E \<equiv> execute_http (se_http env) (se_run env) perform (http_now s) (rp_scripts (sv_repeater s)) loads finishes r (sv_cache s)"
    and "issue \<equiv> send_http (se_http env) (http_now s)"
  obtains (failed) q e where "start_http env loads s r = failed_task HTTP q e" and "E = (error_response e, sv_cache s)"
  | (single) q where "start_http env loads s r =
        \<lparr>tk_protocol = HTTP, tk_request = q, tk_attempts = [issue None q], tk_answer = None\<rparr>"
      and "E = (case executeRequest (se_http env) (se_run env) perform (http_now s) (rp_scripts (sv_repeater s)) q of
           Inl e \<Rightarrow> (error_response e, sv_cache s) | Inr resp \<Rightarrow> (resp, sv_cache s))"
  | (certs) q cs where "cs \<noteq> []" and "start_http env loads s r = \<lparr>tk_protocol = HTTP, tk_request = q,
        tk_attempts = send_each (\<lambda>c q. fst (loadCert (en_read (se_http env)) (en_passphrase (se_http env)) c q)) issue (loads cs) q,
        tk_answer = None\<rparr>"
      and "E = (case tryRequestWithCertificates (se_http env) (se_run env) perform (http_now s) (rp_scripts (sv_repeater s))
           finishes q (loads cs) (sv_cache s) of (Inl e, c) \<Rightarrow> (error_response e, c) | (Inr resp, c) \<Rightarrow> (resp, c))"
proof -
  define q where "q = (case xo_headers (ex_options (http_now s)) of None \<Rightarrow> r | Some h \<Rightarrow> setHeaders h r)"
  note defs = start_http_def E_def execute_http_def Let_def q_def [symmetric] target_certs_def issue_def
  show thesis
  proof (cases "transformScript (se_http env) (se_run env) (rp_scripts (sv_repeater s)) q")
    case (Inl e)
    then show ?thesis by (intro failed) (simp_all add: defs)
  next
    case q2: (Inr q2)
    show ?thesis
    proof (cases "target_certs (en_url (se_http env)) (ex_options (http_now s)) (sv_cache s) q2")
      case (Inl e)
      with q2 show ?thesis by (intro failed) (simp_all add: defs)
    next
      case (Inr cs)
      with q2 show ?thesis
      proof (cases cs)
        case Nil
        with q2 Inr show ?thesis by (intro single) (simp_all add: defs)
      next
        case (Cons c ds)
        with q2 Inr show ?thesis by (intro certs [of cs]) (simp_all add: defs)
      qed
    qed
  qed
qed

lemma transfers_end_certs:
  assumes "i < length (sv_tasks s)" and "cs \<noteq> []"
    and "sv_tasks s ! i = \<lparr>tk_protocol = HTTP, tk_request = q,
      tk_attempts = send_each (\<lambda>c q. fst (loadCert (en_read (se_http env)) (en_passphrase (se_http env)) c q))
        (send_http (se_http env) (http_now s)) cs q, tk_answer = None\<rparr>"
    and "set js = {0 ..< length (tk_attempts (sv_tasks s ! i))}" and "distinct js"
  shows "let s' = transfers_end env perform i js s;
      (res, cache) = tryRequestWithCertificates (se_http env) (se_run env) perform (http_now s)
        (rp_scripts (sv_repeater s)) (\<lambda>as. map (\<lambda>j. as ! j) js) q cs (sv_cache s)
    in tk_answer (sv_tasks s' ! i) = Some (case res of Inl e \<Rightarrow> error_response e | Inr resp \<Rightarrow> resp) \<and> sv_cache s' = cache"
proof -
  let ?he = "se_http env" and ?x = "http_now s" and ?st = "rp_scripts (sv_repeater s)" and ?t = "sv_tasks s ! i"
  have "js \<noteq> []" using assms(2-4) by auto
  have h: "\<forall>j \<in> set js. j < length (tk_attempts ?t) \<and> at_cert (tk_attempts ?t ! j) \<noteq> None \<and>
      at_progress (tk_attempts ?t ! j) = Transferring (configureCurl ?he ?x (at_request (tk_attempts ?t ! j)))"
    "\<forall>k < length (tk_attempts ?t). k \<notin> set js \<longrightarrow> over (at_progress (tk_attempts ?t ! k))"
    using assms(4) send_each_http [OF nth_mem] by (auto simp: assms(3))
  have sent: "map (\<lambda>j. (the (at_cert (tk_attempts ?t ! j)),
        executeRequest ?he (se_run env) perform ?x ?st (at_request (tk_attempts ?t ! j)))) js =
      map (\<lambda>j. send_with_certs ?he (se_run env) perform ?x ?st cs q ! j) js"
    using assms(4) by (simp add: send_with_certs_each assms(3))
  have p: "tk_protocol ?t = HTTP" "tk_request ?t = q" "tk_answer ?t = None" using assms(3) by simp_all
  from transfers_end_settle [where perform = perform, OF refl refl refl assms(1) p(1) assms(5) h, unfolded sent p Let_def]
  show ?thesis
    using \<open>js \<noteq> []\<close> by (auto simp: tryRequestWithCertificates_def Let_def split_def split: option.splits)
qed

text \<open>
  C6. If nothing else happens, serving an HTTP request step by step gives what the executor's \<open>execute\<close>
  gives as one function: for every order \<open>js\<close> in which the transfers end, the answer and the cache
  afterwards are those of \<open>execute_http\<close>, and the steps are steps of the system.
\<close>

theorem http_service_refines:
  assumes "rp_listening (sv_repeater s)" and "rp_socket (sv_repeater s)" and "\<forall>cs. mset (loads cs) = mset cs"
    and "new_request (en_url (se_http env)) (en_regexp (se_http env)) (event_options event) = Inr r" and "rq_protocol r = HTTP"
    and "s1 = receive env loads event s" and "i = length (sv_tasks s)"
    and "mset js = mset [0 ..< length (tk_attempts (sv_tasks s1 ! i))]"
  shows "let s2 = transfers_end env perform i js s1;
      (answer, cache) = execute_http (se_http env) (se_run env) perform (http_now s) (rp_scripts (sv_repeater s))
        loads (\<lambda>as. map (\<lambda>j. as ! j) js) r (sv_cache s)
    in service_reach env s s2 \<and> tk_answer (sv_tasks s2 ! i) = Some answer \<and> sv_cache s2 = cache"
proof -
  let ?t = "start_http env loads s r"
  let ?E = "execute_http (se_http env) (se_run env) perform (http_now s) (rp_scripts (sv_repeater s))
        loads (\<lambda>as. map (\<lambda>j. as ! j) js) r (sv_cache s)"
  let ?s2 = "transfers_end env perform i js s1"
  have s1: "s1 = s\<lparr>sv_tasks := sv_tasks s @ [?t]\<rparr>" unfolding assms(6) by (rule receive_http [OF assms(1,4,5)])
  have sel: "sv_tasks s1 ! i = ?t" "i < length (sv_tasks s1)" "http_now s1 = http_now s"
    "sv_repeater s1 = sv_repeater s" "sv_cache s1 = sv_cache s"
    using assms(7) by (simp_all add: s1 http_now_def)
  have js: "set js = {0 ..< length (tk_attempts (sv_tasks s1 ! i))}" "distinct js"
    using mset_eq_setD [OF assms(8)] mset_eq_imp_distinct_iff [OF assms(8)] by simp_all
  have "service_step env s s1" unfolding assms(6) by (rule request_arrives [OF assms(2,3)])
  moreover have "service_reach env s1 ?s2" by (rule transfers_reach [OF sel(2)]) (simp add: js)
  ultimately have reach: "service_reach env s ?s2" by (rule converse_rtranclp_into_rtranclp)
  have "tk_answer (sv_tasks ?s2 ! i) = Some (fst ?E) \<and> sv_cache ?s2 = snd ?E"
  proof (cases rule: start_http_cases [of env loads s r perform "\<lambda>as. map (\<lambda>j. as ! j) js"])
    case (failed q e)
    with js sel show ?thesis by (simp add: failed_task_def failure_def)
  next
    case (single q)
    then have "js = [0]" using js sel by (cases js; cases "tl js") (auto simp: insert_eq_iff)
    with transfers_end_single [of i s1 q env perform] single sel show ?thesis by (simp split: sum.splits)
  next
    case (certs q cs)
    have "loads cs \<noteq> []" using certs(1) assms(3) by (metis mset_zero_iff_right mset.simps(1))
    with transfers_end_certs [of i s1 "loads cs" q env js perform] certs sel js show ?thesis
      by (auto simp: split_def Let_def split: sum.splits)
  qed
  then show ?thesis using reach by (simp add: Let_def split_def)
qed


section \<open>No request is stuck\<close>

lemma exchange_can_settle: "settled_with (wc_phase c) = None \<Longrightarrow> \<exists>ev. settled_with (wc_phase (ws_on re r ev c)) \<noteq> None"
proof (cases "wc_phase c")
  case (Connecting opened upgraded)
  then show ?thesis by (intro exI [of _ "Error (mk_error [])"]) (simp add: on_error_ws_def finish_def Let_def)
next
  case (Sending up)
  then show ?thesis by (intro exI [of _ "Sent (Some (mk_error []))"]) (simp add: finish_def Let_def)
next
  case (Waiting up)
  then show ?thesis by (intro exI [of _ "Error (mk_error [])"]) (simp add: on_error_ws_def finish_def Let_def)
qed simp

definition under_way :: "task \<Rightarrow> nat" where
  "under_way t = length (filter (\<lambda>a. \<not> over (at_progress a)) (tk_attempts t))"

lemma under_way_update:
  assumes "j < length xs" and "P (xs ! j)" and "\<not> P y"
  shows "length (filter P (xs[j := y])) < length (filter P xs)"
proof -
  have "xs = take j xs @ xs ! j # drop (Suc j) xs" using assms(1) by (simp add: id_take_nth_drop)
  then have "length (filter P xs) = length (filter P (take j xs)) + Suc (length (filter P (drop (Suc j) xs)))"
    using assms(2) by (metis filter.simps(2) filter_append length_Cons length_append)
  moreover have "xs[j := y] = take j xs @ y # drop (Suc j) xs" using assms(1) by (rule upd_conv_take_nth_drop)
  ultimately show ?thesis using assms(3) by simp
qed

lemma finish_attempt_under_way:
  assumes "i < length (sv_tasks s)" and "j < length (tk_attempts (sv_tasks s ! i))"
    and "\<not> over (at_progress (tk_attempts (sv_tasks s ! i) ! j))"
  shows "under_way (sv_tasks (finish_attempt env i j res s) ! i) < under_way (sv_tasks s ! i)"
  using assms
  by (auto simp: finish_attempt_def Let_def under_way_def split_def intro!: under_way_update)



section \<open>A sample run\<close>

definition sample_service_env :: service_env where
  "sample_service_env = \<lparr>se_http = sample_env,
     se_ws = \<lparr>ne_parse = any_url, ne_regexp = (\<lambda>_ _. True), ne_connect = (\<lambda>_ _. Inr []), ne_read = (\<lambda>_. None),
              ne_passphrase = (\<lambda>_ _. True)\<rparr>,
     se_run = (\<lambda>_. Inl (mk_error ''none'')), se_version = ''1'', se_compile = (\<lambda>_. None)\<rparr>"

definition sample_service :: service where
  "sample_service = \<lparr>sv_repeater = run ''1'' ''id'' False sample_repeater, sv_cache = [],
     sv_http = \<lparr>ex_options = rp_options sample_repeater, ex_proxyDomains = None, ex_proxyDomainsBypass = None,
                ex_kerberosDomains = None, ex_limitedMulti = False\<rparr>,
     sv_ws = \<lparr>wx_options = rp_options sample_repeater, wx_agents = None\<rparr>, sv_tasks = []\<rparr>"

definition sample_received :: service where
  "sample_received = receive sample_service_env id sample_event sample_service"

lemma sample_started: "started sample_service_env sample_service"
  using idle_sample by (auto simp: started_def sample_service_env_def sample_service_def)

lemma sample_ports: "plain_ports sample_service_env"
  by (auto simp: plain_ports_def se_parse_def sample_service_env_def sample_env_def any_url_def split: protocol.splits)

lemma sample_listens:
  "rp_listening (sv_repeater sample_service)" "rp_socket (sv_repeater sample_service)"
  "rp_scripts (sv_repeater sample_service) = []" "xo_certs (rp_options (sv_repeater sample_service)) = None"
  "sv_tasks sample_service = []"
  by (simp_all add: sample_service_def run_def Let_def sample_repeater_def)

lemma sample_accepted:
  obtains r where "new_request (en_url (se_http sample_service_env)) (en_regexp (se_http sample_service_env))
      (event_options sample_event) = Inr r"
    and "rq_protocol r = HTTP"
  by (rule sample_event_request) (simp add: sample_service_env_def sample_env_def)

lemma sample_one_attempt: "\<exists>a. length (sv_tasks sample_received) = 1 \<and> tk_attempts (sv_tasks sample_received ! 0) = [a]"
proof -
  obtain r where r: "new_request (en_url (se_http sample_service_env)) (en_regexp (se_http sample_service_env))
      (event_options sample_event) = Inr r" "rq_protocol r = HTTP" by (rule sample_accepted)
  have e: "sample_received = sample_service\<lparr>sv_tasks := [start_http sample_service_env id sample_service r]\<rparr>"
    unfolding sample_received_def receive_http [OF sample_listens(1) r] by (simp add: sample_listens)
  have "\<exists>a. tk_attempts (start_http sample_service_env id sample_service r) = [a]"
    by (simp add: start_http_def Let_def transformScript_def hostname_of_def sample_service_env_def sample_env_def
        any_url_def sample_listens find_script_def target_certs_def http_now_def)
  then show ?thesis unfolding e by simp
qed

lemma sample_arrives: "service_reach sample_service_env sample_service sample_received"
  unfolding sample_received_def by (rule r_into_rtranclp, rule request_arrives) (simp_all add: sample_listens)

theorem requests_answered_witness:
  "length (sv_tasks sample_received) = 1 \<and> cache_inv (sv_cache sample_received) \<and>
   (tk_answer (sv_tasks sample_received ! 0) = None \<longleftrightarrow>
      (\<exists>x \<in> set (tk_attempts (sv_tasks sample_received ! 0)). \<not> over (at_progress x)) \<and>
      \<not> (\<exists>x \<in> set (tk_attempts (sv_tasks sample_received ! 0)). succeeded x))"
proof -
  have n: "length (sv_tasks sample_received) = 1" using sample_one_attempt by blast
  then have "0 < length (sv_tasks sample_received)" by simp
  from requests_answered [OF sample_ports sample_started sample_arrives start_reached this] n
  show ?thesis unfolding Let_def by blast
qed


theorem http_service_refines_witness:
  "\<exists>s answer. service_reach sample_service_env sample_service s \<and> tk_answer (sv_tasks s ! 0) = Some answer"
proof -
  obtain r where r: "new_request (en_url (se_http sample_service_env)) (en_regexp (se_http sample_service_env))
      (event_options sample_event) = Inr r" "rq_protocol r = HTTP" by (rule sample_accepted)
  have "mset [0] = mset [0 ..< length (tk_attempts (sv_tasks sample_received ! 0))]"
    using sample_one_attempt by auto
  moreover have "0 = length (sv_tasks sample_service)" by (simp add: sample_listens)
  ultimately show ?thesis
    using http_service_refines [OF sample_listens(1,2) _ r sample_received_def, of 0 "[0]" "\<lambda>_. Inl (mk_error ''reset'')"]
    by (auto simp: Let_def split_def)
qed

end
