(* ===== verification/Server_Events.thy ===== *)
theory Server_Events
  imports Repeater
begin

text \<open>
  The event emitter inside \<open>DefaultRepeaterServer\<close> (\<open>on\<close>, \<open>off\<close>, \<open>wrapEventListener\<close> and the listeners on the
  socket), the subscriptions of \<open>ServerRepeaterLauncher\<close>, and the proof that \<open>on_event\<close>, which calls the
  launcher's handlers directly, does what the emitter with these subscriptions does.
\<close>

section \<open>The emitter\<close>

datatype server_event =
  DEPLOYED | DEPLOY | CONNECTED | DISCONNECTED | REQUEST | TEST_NETWORK | UPDATE_AVAILABLE | LIMITS | SCRIPTS_UPDATED |
  RECONNECTION_FAILED | RECONNECT_ATTEMPT | RECONNECTION_SUCCEEDED | ERROR | PING

text \<open>
  Each call of \<open>on\<close> creates a new wrapper, here a number, that remembers its event and its handler;
  \<open>handlerMap\<close> holds the last wrapper of a handler.
\<close>

record 'h emitter =
  em_listeners :: "(server_event \<times> nat \<times> 'h) list"
  em_handlerMap :: "('h, nat) store"
  em_next :: nat

definition no_listeners :: "'h emitter" where
  "no_listeners = \<lparr>em_listeners = [], em_handlerMap = [], em_next = 0\<rparr>"

definition on_server :: "server_event \<Rightarrow> 'h \<Rightarrow> 'h emitter \<Rightarrow> 'h emitter" where
  "on_server event handler em =
     em\<lparr>em_handlerMap := sset handler (em_next em) (em_handlerMap em),
        em_listeners := em_listeners em @ [(event, em_next em, handler)],
        em_next := Suc (em_next em)\<rparr>"

definition off_server :: "server_event \<Rightarrow> 'h \<Rightarrow> 'h emitter \<Rightarrow> 'h emitter" where
  "off_server event handler em =
     (case sget (em_handlerMap em) handler of
        None \<Rightarrow> em
      | Some wrapped \<Rightarrow>
          em\<lparr>em_listeners := filter (\<lambda>(e, w, h). \<not> (e = event \<and> w = wrapped)) (em_listeners em),
             em_handlerMap := sdel handler (em_handlerMap em)\<rparr>)"

definition removeAllListeners :: "'h emitter \<Rightarrow> 'h emitter" where
  "removeAllListeners em = em\<lparr>em_listeners := []\<rparr>"

definition handlers :: "'h emitter \<Rightarrow> server_event \<Rightarrow> 'h list" where
  "handlers em event = map (\<lambda>(e, w, h). h) (filter (\<lambda>(e, w, h). e = event) (em_listeners em))"

text \<open>
  The arguments of a handler: \<open>pop\<close> on no arguments gives \<open>undefined\<close>, which is pushed back.
\<close>

datatype 'a argument = Undefined | Payload 'a | Callback

definition extractLastArgument :: "'a argument list \<Rightarrow> bool \<times> 'a argument list" where
  "extractLastArgument args =
     (let lastArg = (if args = [] then Undefined else last args); rest = butlast args
      in if lastArg = Callback then (True, rest) else (False, rest @ [lastArg]))"

text \<open>The answer given to the callback, and what is logged when the handler fails.\<close>

definition wrap :: "('a argument list \<Rightarrow> 'r js_result) \<Rightarrow> 'a argument list \<Rightarrow> 'r option \<times> string list" where
  "wrap handler args =
     (let (has_callback, args') = extractLastArgument args in wrapEventListener has_callback (handler args'))"


section \<open>The launcher's subscriptions\<close>

datatype handler =
  DeployRepeater | HandleError | ReconnectionFailed | RequestReceived | LimitsReceived | TestingNetwork |
  CompileScripts | WarnUpdate | WarnAttempt | LogConnected

definition subscribeToEvents :: "handler emitter \<Rightarrow> handler emitter" where
  "subscribeToEvents em =
     on_server RECONNECTION_SUCCEEDED LogConnected (on_server RECONNECT_ATTEMPT WarnAttempt
     (on_server UPDATE_AVAILABLE WarnUpdate (on_server SCRIPTS_UPDATED CompileScripts
     (on_server TEST_NETWORK TestingNetwork (on_server LIMITS LimitsReceived (on_server REQUEST RequestReceived
     (on_server RECONNECTION_FAILED ReconnectionFailed (on_server ERROR HandleError
     (on_server CONNECTED DeployRepeater em)))))))))"

datatype message =
  Nothing | Err error_event | Failed_With "js_error option" | Attempt nat | Version string | Script script_input |
  MaxBodySize int

text \<open>Requests and network tests do not change the launcher; their answers are the subject of \<open>requestReceived\<close> and \<open>testingNetwork\<close>.\<close>

definition call :: "string \<Rightarrow> compiler \<Rightarrow> message \<Rightarrow> handler \<Rightarrow> repeater \<Rightarrow> repeater" where
  "call version compile m h s =
     (case h of
        DeployRepeater \<Rightarrow> deployRepeater s
      | HandleError \<Rightarrow> (case m of Err e \<Rightarrow> handle_error e s | _ \<Rightarrow> s)
      | ReconnectionFailed \<Rightarrow> (case m of Failed_With e \<Rightarrow> reconnectionFailed e s | _ \<Rightarrow> s)
      | RequestReceived \<Rightarrow> s
      | LimitsReceived \<Rightarrow> (case m of MaxBodySize n \<Rightarrow> limitsReceived n s | _ \<Rightarrow> s)
      | TestingNetwork \<Rightarrow> s
      | CompileScripts \<Rightarrow>
          (case m of
             Script inp \<Rightarrow>
               (let (r, st, ws) = compileScripts compile inp (rp_scripts s)
                in fold logs (ws @ (case r of Inl e \<Rightarrow> [err_message e] | Inr _ \<Rightarrow> [])) (s\<lparr>rp_scripts := st\<rparr>))
           | _ \<Rightarrow> s)
      | WarnUpdate \<Rightarrow>
          (case m of
             Version v \<Rightarrow>
               logs (''(!) IMPORTANT: A new Repeater version ('' @ v @ '') is available, for update instruction visit https://docs.brightsec.com/docs/cli-installation-guide'') s
           | _ \<Rightarrow> s)
      | WarnAttempt \<Rightarrow>
          (case m of
             Attempt n \<Rightarrow> logs (''Failed to connect to Bright cloud (attempt '' @ nat_str n @ '')'') s
           | _ \<Rightarrow> s)
      | LogConnected \<Rightarrow> logs (''The Repeater ('' @ version @ '') connected'') s)"

text \<open>The emitter of a launcher: subscribed while it listens, emptied by \<open>disconnect\<close>.\<close>

definition emitter_of :: "repeater \<Rightarrow> handler emitter" where
  "emitter_of s =
     (let em = subscribeToEvents no_listeners in if rp_listening s then em else removeAllListeners em)"

text \<open>\<open>emit\<close> calls the handlers registered at that moment, in order; an \<open>error\<close> nobody listens to is thrown.\<close>

definition emit :: "string \<Rightarrow> compiler \<Rightarrow> server_event \<Rightarrow> message \<Rightarrow> repeater \<Rightarrow> repeater" where
  "emit version compile event m s =
     (case handlers (emitter_of s) event of
        [] \<Rightarrow> (case (event, m) of
                (ERROR, Err e) \<Rightarrow> perform_effect (Uncaught (mk_error (''Unhandled error. '' @ ee_message e))) s
              | _ \<Rightarrow> s)
      | hs \<Rightarrow> fold (call version compile m) hs s)"


section \<open>The listeners on the socket\<close>

definition schedule_emitting :: "string \<Rightarrow> compiler \<Rightarrow> real \<Rightarrow> repeater \<Rightarrow> repeater" where
  "schedule_emitting version compile random s =
     (let delay = reconnection_delay (rp_attempts s) random;
          s1 = s\<lparr>rp_attempts := Suc (rp_attempts s)\<rparr>;
          s2 = emit version compile RECONNECT_ATTEMPT (Attempt (rp_attempts s1)) s1
      in s2\<lparr>rp_strays := (case rp_timer s2 of None \<Rightarrow> [] | Some d \<Rightarrow> [d]) @ rp_strays s2, rp_timer := Some delay\<rparr>)"

fun reserved_listener :: "string \<Rightarrow> compiler \<Rightarrow> real \<Rightarrow> socket_event \<Rightarrow> repeater \<Rightarrow> repeater" where
  "reserved_listener version compile random Connect s =
     emit version compile CONNECTED Nothing (s\<lparr>rp_attempts := 0, rp_timer := None\<rparr>)"
| "reserved_listener version compile random (Connect_Error m d) s =
     schedule_emitting version compile random
       (case d of
          None \<Rightarrow> s
        | Some x \<Rightarrow>
            if suppressConnectionError (ee_code x) then emit version compile ERROR (Err (x\<lparr>ee_message := m\<rparr>)) s else s)"
| "reserved_listener version compile random (Disconnect reason) s =
     (let s1 = (if reason \<noteq> ''io client disconnect'' then emit version compile DISCONNECTED Nothing s else s)
      in if reason = ''io server disconnect'' then with_socket (perform_effect Socket_Connect) s1 else s1)"
| "reserved_listener version compile random Reconnect s =
     emit version compile RECONNECTION_SUCCEEDED Nothing (s\<lparr>rp_latestError := None\<rparr>)"
| "reserved_listener version compile random (Reconnect_Error e) s = s\<lparr>rp_latestError := Some e\<rparr>"
| "reserved_listener version compile random Reconnect_Failed s =
     emit version compile RECONNECTION_FAILED (Failed_With (rp_latestError s)) s"
| "reserved_listener version compile random (Reconnect_Attempt n) s =
     emit version compile RECONNECT_ATTEMPT (Attempt n) s"
| "reserved_listener version compile random e s = s"

fun application_listener :: "string \<Rightarrow> compiler \<Rightarrow> socket_event \<Rightarrow> repeater \<Rightarrow> repeater" where
  "application_listener version compile (Deployed i) s = emit version compile DEPLOY Nothing s"
| "application_listener version compile (Server_Error e) s = emit version compile ERROR (Err e) s"
| "application_listener version compile (Update_Available v) s = emit version compile UPDATE_AVAILABLE (Version v) s"
| "application_listener version compile (Scripts_Updated inp) s = emit version compile SCRIPTS_UPDATED (Script inp) s"
| "application_listener version compile (Limits n) s = emit version compile LIMITS (MaxBodySize n) s"
| "application_listener version compile e s = s"

text \<open>The calls of \<open>deploy\<close> that wait for \<open>deployed\<close> also listen on the socket; \<open>error\<close> rejects them.\<close>

fun deploy_listener :: "string \<Rightarrow> socket_event \<Rightarrow> repeater \<Rightarrow> repeater" where
  "deploy_listener version (Deployed i) s =
     fold logs (replicate (rp_deploys s) (''The Repeater ('' @ version @ '') started'')) (s\<lparr>rp_deploys := 0\<rparr>)"
| "deploy_listener version (Server_Error e) s = s\<lparr>rp_deploys := 0\<rparr>"
| "deploy_listener version e s = s"

definition dispatch :: "string \<Rightarrow> compiler \<Rightarrow> real \<Rightarrow> socket_event \<Rightarrow> repeater \<Rightarrow> repeater" where
  "dispatch version compile random e s =
     deploy_listener version e (application_listener version compile e (reserved_listener version compile random e s))"


section \<open>Properties\<close>

lemma handlers_on [simp]:
  "handlers (on_server ev h em) event = handlers em event @ (if event = ev then [h] else [])"
  by (simp add: handlers_def on_server_def)

lemma handlers_none [simp]: "handlers no_listeners event = []" "handlers (removeAllListeners em) event = []"
  by (simp_all add: handlers_def no_listeners_def removeAllListeners_def)

lemma handlers_subscribed:
  "handlers (subscribeToEvents no_listeners) event =
     (case event of CONNECTED \<Rightarrow> [DeployRepeater] | ERROR \<Rightarrow> [HandleError] | RECONNECTION_FAILED \<Rightarrow> [ReconnectionFailed]
      | REQUEST \<Rightarrow> [RequestReceived] | LIMITS \<Rightarrow> [LimitsReceived] | TEST_NETWORK \<Rightarrow> [TestingNetwork]
      | SCRIPTS_UPDATED \<Rightarrow> [CompileScripts] | UPDATE_AVAILABLE \<Rightarrow> [WarnUpdate] | RECONNECT_ATTEMPT \<Rightarrow> [WarnAttempt]
      | RECONNECTION_SUCCEEDED \<Rightarrow> [LogConnected] | _ \<Rightarrow> [])"
  by (cases event) (simp_all add: subscribeToEvents_def)

lemma handlers_emitter_of:
  "handlers (emitter_of s) event =
     (if rp_listening s then handlers (subscribeToEvents no_listeners) event else [])"
  by (simp add: emitter_of_def Let_def)

lemmas emit_simps = emit_def call_def handlers_emitter_of handlers_subscribed notify_def

lemma schedule_emitting_eq: "schedule_emitting version compile random s = scheduleReconnection random s"
  by (simp add: schedule_emitting_def scheduleReconnection_def reconnect_attempt_def emit_simps Let_def)


text \<open>Wrappers are numbered freshly.\<close>

definition emitter_inv :: "'h emitter \<Rightarrow> bool" where
  "emitter_inv em \<longleftrightarrow>
     distinct (map (\<lambda>(e, w, h). w) (em_listeners em)) \<and>
     (\<forall>(e, w, h) \<in> set (em_listeners em). w < em_next em) \<and>
     (\<forall>(h, w) \<in> set (em_handlerMap em). w < em_next em) \<and> wf_store (em_handlerMap em)"


lemma emitter_inv_on: "emitter_inv em \<Longrightarrow> emitter_inv (on_server ev h em)"
  using set_sset [of h "em_next em" "em_handlerMap em"] by (fastforce simp: emitter_inv_def on_server_def)

lemma emitter_inv_off: "emitter_inv em \<Longrightarrow> emitter_inv (off_server ev h em)"
  by (auto simp: emitter_inv_def off_server_def sdel_filter distinct_map_filter split: option.splits)

lemma fresh_wrapper:
  "emitter_inv em \<Longrightarrow> filter (\<lambda>(e, w, h). \<not> (e = ev \<and> w = em_next em)) (em_listeners em) = em_listeners em"
  by (rule filter_True) (auto simp: emitter_inv_def)

text \<open>
  Unsubscribing undoes a subscription: the listeners, in their order, and the table of wrappers are
  those before it.
\<close>

theorem off_undoes_on:
  assumes "emitter_inv em" and "sget (em_handlerMap em) h = None"
  shows "em_listeners (off_server ev h (on_server ev h em)) = em_listeners em \<and>
    em_handlerMap (off_server ev h (on_server ev h em)) = em_handlerMap em"
proof -
  have "h \<notin> fst ` set (em_handlerMap em)" using assms(2) by (simp add: map_of_eq_None_iff)
  then have "sdel h (sset h w (em_handlerMap em)) = em_handlerMap em" for w by (simp add: delete_update_same)
  then show ?thesis
    using fresh_wrapper [OF assms(1), of ev] by (simp add: off_server_def on_server_def)
qed

text \<open>
  A handler subscribed twice cannot be unsubscribed twice: the table remembers the last wrapper only, so
  one subscription stays, whatever is unsubscribed afterwards.
\<close>

theorem second_subscription_stays:
  assumes "emitter_inv em" and "sget (em_handlerMap em) h = None"
  shows "let em' = off_server ev h (off_server ev h (on_server ev h (on_server ev h em)))
    in handlers em' ev = handlers em ev @ [h] \<and> off_server ev h em' = em'"
  using fresh_wrapper [OF assms(1), of ev] fresh_wrapper [OF emitter_inv_on [OF assms(1)], of ev ev h]
  by (simp add: Let_def off_server_def on_server_def handlers_def)

end
