(* ===== verification/Wiring.thy ===== *)
theory Wiring
  imports Requests
begin

text \<open>
  The wiring of the program: the registrations of the dependency container (\<open>src/container.ts\<close>), the parameters
  of the constructors it calls, and what each command registers and resolves.  The container itself is the
  package \<open>tsyringe\<close>; what is relied on is that a token resolves to its last registration, that
  \<open>injectAll\<close> gives all registrations of a token in their order, and that a singleton or a value is the same
  object wherever it is injected.
\<close>

datatype token =
  T_tsyringe | T_CliInfo | T_RequestExecutor | T_Certificates | T_CertificatesCache | T_CertificatesResolver |
  T_VirtualScripts | T_StartupManager | T_RuntimeDetector | T_RepeaterServer | T_RepeaterCommandHub | T_Tokens |
  T_Connectivity | T_BreakpointFactory | T_PollingFactory | T_DiscoveryPollingFactory |
  T_HostUpdateJobStatusPollingFactory | T_Scans | T_Discoveries | T_EntryPoints | T_Archives | T_ParserFactory |
  T_ScriptLoader | T_ConnectivityAnalyzer | T_Platform | T_ConfigReader | T_CliBuilder | T_ProxyFactory |
  T_RepeaterLauncher | T_RepeaterTools | T_RepeaterRunCommandOptions | T_RequestExecutorOptions |
  T_DefaultRepeaterServerOptions | T_RestScansOptions | T_RestDiscoveryOptions | T_RestProjectsOptions |
  T_RestArchivesOptions | T_Options | T_ConnectivityUrls

datatype injected =
  HttpRequestExecutor | WsRequestExecutor | CertificatesLoader | DefaultCertificatesCache |
  DefaultCertificatesResolver | DefaultVirtualScripts | DefaultStartupManager | DefaultRuntimeDetector |
  DefaultRepeaterServer | DefaultRepeaterCommandHub | FSTokens | HTTPConnectivity | TracerouteConnectivity |
  AuthConnectivity | DefaultBreakpointFactory | DefaultPollingFactory | DefaultDiscoveryPollingFactory |
  DefaultHostUpdateJobStatusPollingFactory | RestScans | RestDiscoveries | RestEntryPoints | RestArchives |
  HarValidator | OasValidator | PostmanValidator | DefaultParserFactory | FSScriptLoader |
  DefaultConnectivityAnalyzer | ReadlinePlatform | DefaultConfigReader | DefaultProxyFactory |
  ServerRepeaterLauncher | DefaultRepeaterTools | BrightMcpServer

datatype dep = Inject token | InjectAll token | Delayed token | Construct injected

datatype provider = Use_Value | Use_Class injected | Use_Factory "token list"

record registration =
  rg_token :: token
  rg_provider :: provider
  rg_singleton :: bool

definition value_reg :: "token \<Rightarrow> registration" where
  "value_reg t = \<lparr>rg_token = t, rg_provider = Use_Value, rg_singleton = False\<rparr>"

definition singleton :: "token \<Rightarrow> injected \<Rightarrow> registration" where
  "singleton t c = \<lparr>rg_token = t, rg_provider = Use_Class c, rg_singleton = True\<rparr>"

section \<open>The container\<close>

definition repeater_registrations :: "registration list" where
  "repeater_registrations =
     [value_reg T_tsyringe, value_reg T_CliInfo, singleton T_RequestExecutor HttpRequestExecutor,
      singleton T_Certificates CertificatesLoader, singleton T_CertificatesCache DefaultCertificatesCache,
      singleton T_CertificatesResolver DefaultCertificatesResolver, singleton T_RequestExecutor WsRequestExecutor,
      singleton T_VirtualScripts DefaultVirtualScripts, singleton T_StartupManager DefaultStartupManager,
      singleton T_RuntimeDetector DefaultRuntimeDetector, singleton T_RepeaterServer DefaultRepeaterServer,
      singleton T_RepeaterCommandHub DefaultRepeaterCommandHub, singleton T_Tokens FSTokens,
      singleton T_Connectivity HTTPConnectivity, singleton T_Connectivity TracerouteConnectivity,
      singleton T_Connectivity AuthConnectivity]"

definition command_registrations :: "registration list" where
  "command_registrations =
     [singleton T_BreakpointFactory DefaultBreakpointFactory, singleton T_PollingFactory DefaultPollingFactory,
      singleton T_DiscoveryPollingFactory DefaultDiscoveryPollingFactory,
      singleton T_HostUpdateJobStatusPollingFactory DefaultHostUpdateJobStatusPollingFactory,
      singleton T_Scans RestScans, singleton T_Discoveries RestDiscoveries, singleton T_EntryPoints RestEntryPoints,
      singleton T_Archives RestArchives, singleton T_ParserFactory DefaultParserFactory,
      singleton T_ScriptLoader FSScriptLoader, singleton T_ConnectivityAnalyzer DefaultConnectivityAnalyzer,
      singleton T_Platform ReadlinePlatform, singleton T_ConfigReader DefaultConfigReader,
      \<lparr>rg_token = T_CliBuilder, rg_provider = Use_Factory [T_CliInfo, T_ConfigReader], rg_singleton = False\<rparr>,
      \<lparr>rg_token = T_ProxyFactory, rg_provider = Use_Class DefaultProxyFactory, rg_singleton = False\<rparr>,
      singleton T_RepeaterLauncher ServerRepeaterLauncher, singleton T_RepeaterTools DefaultRepeaterTools,
      value_reg T_RepeaterRunCommandOptions]"

definition root_container :: "registration list" where
  "root_container = repeater_registrations @ command_registrations"

section \<open>The constructors\<close>

text \<open>The parameters of each constructor that has any.\<close>

definition HttpRequestExecutor_deps :: "dep list" where
  "HttpRequestExecutor_deps = [Inject T_VirtualScripts, Inject T_RequestExecutorOptions, Inject T_CertificatesCache,
     Inject T_CertificatesResolver]"

definition WsRequestExecutor_deps :: "dep list" where
  "WsRequestExecutor_deps = [Inject T_ProxyFactory, Inject T_RequestExecutorOptions, Inject T_CertificatesCache,
     Inject T_CertificatesResolver]"

definition DefaultCertificatesResolver_deps :: "dep list" where
  "DefaultCertificatesResolver_deps = [Inject T_CertificatesCache]"

definition DefaultRuntimeDetector_deps :: "dep list" where
  "DefaultRuntimeDetector_deps = [Delayed T_CliInfo]"

definition DefaultRepeaterServer_deps :: "dep list" where
  "DefaultRepeaterServer_deps = [Inject T_ProxyFactory, Inject T_DefaultRepeaterServerOptions]"

definition DefaultRepeaterCommandHub_deps :: "dep list" where
  "DefaultRepeaterCommandHub_deps = [Inject T_VirtualScripts, InjectAll T_RequestExecutor]"

definition AuthConnectivity_deps :: "dep list" where
  "AuthConnectivity_deps = [Inject T_Tokens]"

definition DefaultPollingFactory_deps :: "dep list" where
  "DefaultPollingFactory_deps = [Inject T_Scans, Inject T_BreakpointFactory]"

definition DefaultDiscoveryPollingFactory_deps :: "dep list" where
  "DefaultDiscoveryPollingFactory_deps = [Inject T_Discoveries]"

definition DefaultHostUpdateJobStatusPollingFactory_deps :: "dep list" where
  "DefaultHostUpdateJobStatusPollingFactory_deps = [Inject T_EntryPoints]"

definition RestScans_deps :: "dep list" where
  "RestScans_deps = [Delayed T_CliInfo, Inject T_ProxyFactory, Inject T_RestScansOptions]"

definition RestDiscoveries_deps :: "dep list" where
  "RestDiscoveries_deps = [Delayed T_CliInfo, Inject T_ProxyFactory, Inject T_RestDiscoveryOptions]"

definition RestEntryPoints_deps :: "dep list" where
  "RestEntryPoints_deps = [Inject T_ProxyFactory, Inject T_RestProjectsOptions]"

definition RestArchives_deps :: "dep list" where
  "RestArchives_deps = [Inject T_ProxyFactory, Inject T_RestArchivesOptions]"

definition DefaultParserFactory_deps :: "dep list" where
  "DefaultParserFactory_deps = [Construct HarValidator, Construct OasValidator, Construct PostmanValidator]"

definition FSScriptLoader_deps :: "dep list" where
  "FSScriptLoader_deps = [Inject T_VirtualScripts]"

definition DefaultConnectivityAnalyzer_deps :: "dep list" where
  "DefaultConnectivityAnalyzer_deps = [Inject T_ConnectivityUrls, Inject T_Options, InjectAll T_Connectivity]"

definition ReadlinePlatform_deps :: "dep list" where
  "ReadlinePlatform_deps = [Inject T_ConnectivityUrls, Inject T_Tokens, Inject T_ConnectivityAnalyzer]"

definition ServerRepeaterLauncher_deps :: "dep list" where
  "ServerRepeaterLauncher_deps = [Inject T_RuntimeDetector, Inject T_VirtualScripts, Inject T_RepeaterServer, Inject T_StartupManager,
     Inject T_RepeaterCommandHub, Inject T_Certificates, Inject T_ScriptLoader, Inject T_RequestExecutorOptions,
     Delayed T_CliInfo]"

definition DefaultRepeaterTools_deps :: "dep list" where
  "DefaultRepeaterTools_deps = [Inject T_RepeaterRunCommandOptions]"

definition BrightMcpServer_deps :: "dep list" where
  "BrightMcpServer_deps = [Delayed T_CliInfo, Inject T_RepeaterTools]"

definition constructor_deps :: "injected \<Rightarrow> dep list" where
  "constructor_deps c =
     (case c of
        HttpRequestExecutor \<Rightarrow> HttpRequestExecutor_deps
      | WsRequestExecutor \<Rightarrow> WsRequestExecutor_deps
      | DefaultCertificatesResolver \<Rightarrow> DefaultCertificatesResolver_deps
      | DefaultRuntimeDetector \<Rightarrow> DefaultRuntimeDetector_deps
      | DefaultRepeaterServer \<Rightarrow> DefaultRepeaterServer_deps
      | DefaultRepeaterCommandHub \<Rightarrow> DefaultRepeaterCommandHub_deps
      | AuthConnectivity \<Rightarrow> AuthConnectivity_deps
      | DefaultPollingFactory \<Rightarrow> DefaultPollingFactory_deps
      | DefaultDiscoveryPollingFactory \<Rightarrow> DefaultDiscoveryPollingFactory_deps
      | DefaultHostUpdateJobStatusPollingFactory \<Rightarrow> DefaultHostUpdateJobStatusPollingFactory_deps
      | RestScans \<Rightarrow> RestScans_deps
      | RestDiscoveries \<Rightarrow> RestDiscoveries_deps
      | RestEntryPoints \<Rightarrow> RestEntryPoints_deps
      | RestArchives \<Rightarrow> RestArchives_deps
      | DefaultParserFactory \<Rightarrow> DefaultParserFactory_deps
      | FSScriptLoader \<Rightarrow> FSScriptLoader_deps
      | DefaultConnectivityAnalyzer \<Rightarrow> DefaultConnectivityAnalyzer_deps
      | ReadlinePlatform \<Rightarrow> ReadlinePlatform_deps
      | ServerRepeaterLauncher \<Rightarrow> ServerRepeaterLauncher_deps
      | DefaultRepeaterTools \<Rightarrow> DefaultRepeaterTools_deps
      | BrightMcpServer \<Rightarrow> BrightMcpServer_deps
      | _ \<Rightarrow> [])"

section \<open>The commands\<close>

text \<open>What the middleware of a command registers and what its handler resolves.\<close>

definition RunRepeater_wiring :: "token list \<times> dep list" where
  "RunRepeater_wiring = ([T_RequestExecutorOptions, T_DefaultRepeaterServerOptions], [Inject T_RepeaterLauncher])"

definition PollingScanStatus_wiring :: "token list \<times> dep list" where
  "PollingScanStatus_wiring = ([T_RestScansOptions], [Inject T_PollingFactory])"

definition RunScan_wiring :: "token list \<times> dep list" where
  "RunScan_wiring = ([T_RestScansOptions], [Inject T_Scans])"

definition RetestScan_wiring :: "token list \<times> dep list" where
  "RetestScan_wiring = ([T_RestScansOptions], [Inject T_Scans])"

definition StopScan_wiring :: "token list \<times> dep list" where
  "StopScan_wiring = ([T_RestScansOptions], [Inject T_Scans])"

definition RunDiscovery_wiring :: "token list \<times> dep list" where
  "RunDiscovery_wiring = ([T_RestDiscoveryOptions], [Inject T_Discoveries])"

definition StopDiscovery_wiring :: "token list \<times> dep list" where
  "StopDiscovery_wiring = ([T_RestDiscoveryOptions], [Inject T_Discoveries])"

definition RerunDiscovery_wiring :: "token list \<times> dep list" where
  "RerunDiscovery_wiring = ([T_RestDiscoveryOptions], [Inject T_Discoveries])"

definition PollingDiscoveryStatus_wiring :: "token list \<times> dep list" where
  "PollingDiscoveryStatus_wiring = ([T_RestDiscoveryOptions], [Inject T_DiscoveryPollingFactory])"

definition PollingHostUpdateJobStatus_wiring :: "token list \<times> dep list" where
  "PollingHostUpdateJobStatus_wiring = ([T_RestProjectsOptions], [Inject T_HostUpdateJobStatusPollingFactory])"

definition UploadArchive_wiring :: "token list \<times> dep list" where
  "UploadArchive_wiring = ([T_RestArchivesOptions], [Inject T_ParserFactory, Inject T_Archives])"

definition Configure_wiring :: "token list \<times> dep list" where
  "Configure_wiring = ([T_Options, T_ConnectivityUrls], [Inject T_Platform])"

definition GetEntryPoints_wiring :: "token list \<times> dep list" where
  "GetEntryPoints_wiring = ([T_RestProjectsOptions], [Inject T_EntryPoints])"

definition EntryPointsUpdateHost_wiring :: "token list \<times> dep list" where
  "EntryPointsUpdateHost_wiring = ([T_RestProjectsOptions], [Inject T_EntryPoints])"

definition RunMcpServer_wiring :: "token list \<times> dep list" where
  "RunMcpServer_wiring = ([], [Construct BrightMcpServer])"

text \<open>In the order in which the entry point creates the commands; \<open>VersionCommand\<close> resolves nothing.\<close>

definition command_wirings :: "(token list \<times> dep list) list" where
  "command_wirings =
     [RunRepeater_wiring, PollingScanStatus_wiring, RunScan_wiring, RetestScan_wiring, StopScan_wiring,
      RunDiscovery_wiring, StopDiscovery_wiring, RerunDiscovery_wiring, PollingDiscoveryStatus_wiring,
      PollingHostUpdateJobStatus_wiring, UploadArchive_wiring, Configure_wiring, GetEntryPoints_wiring,
      EntryPointsUpdateHost_wiring, RunMcpServer_wiring]"


section \<open>What can be constructed\<close>

definition registrations_of :: "registration list \<Rightarrow> token \<Rightarrow> registration list" where
  "registrations_of regs t = filter (\<lambda>r. rg_token r = t) regs"

fun provider_deps :: "provider \<Rightarrow> dep list" where
  "provider_deps Use_Value = []"
| "provider_deps (Use_Class c) = constructor_deps c"
| "provider_deps (Use_Factory ts) = map Inject ts"

text \<open>The tokens a dependency names, and what has to be constructed for it.\<close>

fun token_of :: "dep \<Rightarrow> token list" where
  "token_of (Inject t) = [t]"
| "token_of (InjectAll t) = [t]"
| "token_of (Delayed t) = [t]"
| "token_of (Construct c) = []"

fun direct :: "registration list \<Rightarrow> dep \<Rightarrow> dep list" where
  "direct regs (Inject t) =
     (case rev (registrations_of regs t) of [] \<Rightarrow> [] | r # _ \<Rightarrow> provider_deps (rg_provider r))"
| "direct regs (InjectAll t) = concat (map (\<lambda>r. provider_deps (rg_provider r)) (registrations_of regs t))"
| "direct regs (Delayed t) = [Inject t]"
| "direct regs (Construct c) = constructor_deps c"

text \<open>
  A dependency can be constructed if its token is registered and what it depends on can be constructed; this is the
  least such relation, so nothing that depends on itself is in it.
\<close>

inductive constructible :: "registration list \<Rightarrow> dep \<Rightarrow> bool" for regs where
  constructible: "(\<forall>t \<in> set (token_of d). registrations_of regs t \<noteq> []) \<Longrightarrow>
     (\<forall>e \<in> set (direct regs d). constructible regs e) \<Longrightarrow> constructible regs d"

fun buildable :: "registration list \<Rightarrow> nat \<Rightarrow> dep \<Rightarrow> bool" where
  "buildable regs 0 d = False"
| "buildable regs (Suc n) d =
     (list_all (\<lambda>t. registrations_of regs t \<noteq> []) (token_of d) \<and> list_all (buildable regs n) (direct regs d))"

fun requires :: "registration list \<Rightarrow> nat \<Rightarrow> dep \<Rightarrow> token list" where
  "requires regs 0 d = []"
| "requires regs (Suc n) d = token_of d @ concat (map (requires regs n) (direct regs d))"

lemma buildable_constructible: "buildable regs n d \<Longrightarrow> constructible regs d"
  by (induction n arbitrary: d) (auto simp: list_all_iff intro: constructible)

lemma constructible_requires:
  "constructible regs d \<Longrightarrow> t \<in> set (requires regs n d) \<Longrightarrow> registrations_of regs t \<noteq> []"
proof (induction n arbitrary: d)
  case (Suc n)
  from Suc.prems(1) show ?case by cases (use Suc in auto)
qed simp

lemma not_constructible:
  "list_ex (\<lambda>t. registrations_of regs t = []) (requires regs n d) \<Longrightarrow> \<not> constructible regs d"
  using constructible_requires by (auto simp: list_ex_iff)

text \<open>The registrations in force when the handler of a command runs.\<close>

definition container_for :: "token list \<times> dep list \<Rightarrow> registration list" where
  "container_for w = root_container @ map value_reg (fst w)"

lemma wired_depth_6: "list_all (\<lambda>w. list_all (buildable (container_for w) 6) (snd w)) command_wirings"
  by code_simp

lemma unwired_depth_6:
  "list_all (\<lambda>w. list_ex (\<lambda>d. list_ex (\<lambda>t. registrations_of root_container t = []) (requires root_container 6 d)) (snd w))
     (butlast command_wirings)"
  by code_simp


section \<open>Properties\<close>


text \<open>The class of an executor and the protocol it is for.\<close>

fun executor_protocol :: "injected \<Rightarrow> protocol option" where
  "executor_protocol HttpRequestExecutor = Some HTTP"
| "executor_protocol WsRequestExecutor = Some WS"
| "executor_protocol c = None"

definition one_object :: "registration list \<Rightarrow> token \<Rightarrow> bool" where
  "one_object regs t = list_all (\<lambda>r. rg_singleton r \<or> rg_provider r = Use_Value) (registrations_of regs t)"

lemma launcher_objects:
  "filter (\<lambda>t. \<not> one_object (container_for RunRepeater_wiring) t)
     (uniq (requires (container_for RunRepeater_wiring) 6 (Inject T_RepeaterLauncher))) = [T_ProxyFactory]"
  by code_simp

lemma several_registrations:
  "filter (\<lambda>t. length (registrations_of root_container t) > 1) (uniq (map rg_token root_container)) =
     [T_RequestExecutor, T_Connectivity]"
  by code_simp

lemmas all_deps =
  HttpRequestExecutor_deps_def WsRequestExecutor_deps_def DefaultCertificatesResolver_deps_def DefaultRuntimeDetector_deps_def
  DefaultRepeaterServer_deps_def DefaultRepeaterCommandHub_deps_def AuthConnectivity_deps_def DefaultPollingFactory_deps_def
  DefaultDiscoveryPollingFactory_deps_def DefaultHostUpdateJobStatusPollingFactory_deps_def RestScans_deps_def RestDiscoveries_deps_def
  RestEntryPoints_deps_def RestArchives_deps_def DefaultParserFactory_deps_def FSScriptLoader_deps_def
  DefaultConnectivityAnalyzer_deps_def ReadlinePlatform_deps_def ServerRepeaterLauncher_deps_def DefaultRepeaterTools_deps_def
  BrightMcpServer_deps_def

lemma never_injected_alone: "Inject T_RequestExecutor \<notin> set (constructor_deps c)" "Inject T_Connectivity \<notin> set (constructor_deps c)"
  by (cases c; simp add: constructor_deps_def all_deps)+

lemma executors_in_order:
  "map (\<lambda>r. case rg_provider r of Use_Class c \<Rightarrow> executor_protocol c | _ \<Rightarrow> None)
     (registrations_of (container_for RunRepeater_wiring) T_RequestExecutor) = [Some HTTP, Some WS]"
  by code_simp

text \<open>
  Whatever the objects of a running repeater share is one object: of all that the launcher needs, only
  the factory of proxies, which has no state, is created anew for each use; so the cache of
  certificates, the registry of scripts and the options that the executors read are those that the launcher
  and the command hub change.  Only the executors and the connectivity tests are registered several
  times, and no constructor asks for a single one of them; the executors are those for HTTP and for
  web sockets, in this order.
\<close>

theorem repeater_objects_shared:
  "filter (\<lambda>t. \<not> one_object (container_for RunRepeater_wiring) t)
     (uniq (requires (container_for RunRepeater_wiring) 6 (Inject T_RepeaterLauncher))) = [T_ProxyFactory] \<and>
   filter (\<lambda>t. length (registrations_of root_container t) > 1) (uniq (map rg_token root_container)) =
     [T_RequestExecutor, T_Connectivity] \<and>
   (\<forall>c. Inject T_RequestExecutor \<notin> set (constructor_deps c) \<and> Inject T_Connectivity \<notin> set (constructor_deps c)) \<and>
   map (\<lambda>r. case rg_provider r of Use_Class c \<Rightarrow> executor_protocol c | _ \<Rightarrow> None)
     (registrations_of (container_for RunRepeater_wiring) T_RequestExecutor) = [Some HTTP, Some WS]"
  by (intro conjI allI launcher_objects several_registrations never_injected_alone executors_in_order)

end
