(* ===== verification/Mcp_Server.thy ===== *)
theory Mcp_Server
  imports Mcp Config "HOL-Library.Multiset"
begin

text \<open>
  The MCP server as a process: \<open>src/Mcp/McpServer.ts\<close> with its request handlers, and the command that runs it
  (\<open>src/Commands/RunMcpServer.ts\<close>) with its signal handlers.  A shutdown stops all repeaters and waits for
  them, while calls of tools still arrive; it ends by closing the transport, which belongs to a
  third-party package.
\<close>

section \<open>The server\<close>

text \<open>
  \<open>bs_closing\<close> holds, for each call of \<open>close\<close> under way, the calls of \<open>stop\<close> it waits for; they are among those
  of the tools.  \<open>bs_handled\<close> are the signals whose one-time handler is used up.
\<close>

record mcp_server =
  bs_name :: string
  bs_version :: "string option"
  bs_tools :: tools
  bs_connected :: bool
  bs_handled :: "string list"
  bs_closing :: "(nat \<times> stop_phase) list list"
  bs_closed :: bool
  bs_exitCode :: "nat option"
  bs_killed :: bool

definition new_server :: "cli_info \<Rightarrow> mcp_server" where
  "new_server info =
     \<lparr>bs_name = ''bright-cli'', bs_version = ci_version info, bs_tools = no_tools, bs_connected = False,
      bs_handled = [], bs_closing = [], bs_closed = False, bs_exitCode = None, bs_killed = False\<rparr>"

definition start_server :: "mcp_server \<Rightarrow> mcp_server" where
  "start_server s = s\<lparr>bs_connected := True\<rparr>"

text \<open>\<open>close\<close> up to its wait: the calls of \<open>stop\<close> that \<open>stopAll\<close> makes.\<close>

definition begin_close :: "string list \<Rightarrow> mcp_server \<Rightarrow> mcp_server" where
  "begin_close signals s =
     (let tools' = stopAll signals (bs_tools s)
      in s\<lparr>bs_tools := tools',
           bs_closing := bs_closing s @ [drop (length (tl_stopping (bs_tools s))) (tl_stopping tools')]\<rparr>)"

text \<open>The rest of \<open>close\<close> and of \<open>shutdown\<close>.\<close>

definition finish_close :: "mcp_server \<Rightarrow> mcp_server" where
  "finish_close s = s\<lparr>bs_closing := remove1 [] (bs_closing s), bs_closed := True, bs_exitCode := Some 0\<rparr>"

text \<open>A signal whose handler is used up has its default effect: the process ends.\<close>

definition on_signal :: "string list \<Rightarrow> string \<Rightarrow> mcp_server \<Rightarrow> mcp_server" where
  "on_signal signals sig s =
     (if sig \<in> set (bs_handled s) then s\<lparr>bs_killed := True\<rparr>
      else begin_close signals (s\<lparr>bs_handled := bs_handled s @ [sig]\<rparr>))"

definition mcp_handler :: "cli_info \<Rightarrow> logger \<Rightarrow> logger \<times> mcp_server" where
  "mcp_handler info g = (g\<lparr>lg_level := Some 0\<rparr>, start_server (new_server info))"

datatype mcp_request = List_Tools | Call_Tool "string option" tool_input

datatype mcp_reply = Tools "tool_spec list" | Result tool_result

text \<open>The handlers: the reply, if it is immediate, and the state.\<close>

definition handle_request ::
  "(process_status \<Rightarrow> string) \<Rightarrow> (string \<Rightarrow> string) \<Rightarrow> process_env \<Rightarrow> string option \<Rightarrow> spawner \<Rightarrow> string list \<Rightarrow> nat \<Rightarrow>
     mcp_request \<Rightarrow> mcp_server \<Rightarrow> mcp_reply option \<times> mcp_server"
where
  "handle_request stringify norm_path env BRIGHT_TOKEN spawn_child signals time req s =
     (case req of
        List_Tools \<Rightarrow> (Some (Tools createTools), s)
      | Call_Tool auth_token inp \<Rightarrow>
          (case executeTool stringify norm_path env BRIGHT_TOKEN spawn_child signals time auth_token inp (bs_tools s) of
             Waits t \<Rightarrow> (None, s\<lparr>bs_tools := t\<rparr>)
           | Answers res t \<Rightarrow> (Some (Result res), s\<lparr>bs_tools := t\<rparr>)))"

text \<open>A wait of \<open>close\<close> number \<open>k\<close> is over: it goes on to the second wait or is done.\<close>

definition close_timeout :: "nat \<Rightarrow> nat \<Rightarrow> stop_phase \<Rightarrow> mcp_server \<Rightarrow> mcp_server" where
  "close_timeout k r phase s =
     (let e = tl_entries (bs_tools s) ! r; ws = remove1 (r, phase) (bs_closing s ! k) in
      s\<lparr>bs_tools := stop_timeout r phase (bs_tools s),
        bs_closing := (bs_closing s)[k := (if phase = Terminating \<and> isRunning e then ws @ [(r, Killing)] else ws)]\<rparr>)"

text \<open>An exit ends all waits for the process.\<close>

definition exit_server :: "nat \<Rightarrow> nat option \<Rightarrow> string option \<Rightarrow> nat \<Rightarrow> mcp_server \<Rightarrow> mcp_server" where
  "exit_server r exitCode signal time s =
     s\<lparr>bs_tools := on_exit r exitCode signal time (bs_tools s),
       bs_closing := map (filter (\<lambda>(q, _). q \<noteq> r)) (bs_closing s)\<rparr>"

definition closing_waits :: "mcp_server \<Rightarrow> (nat \<times> stop_phase) multiset" where
  "closing_waits s = sum_list (map mset (bs_closing s))"

inductive server_step ::
  "(string \<Rightarrow> string) \<Rightarrow> process_env \<Rightarrow> string option \<Rightarrow> string list \<Rightarrow> mcp_server \<Rightarrow> mcp_server \<Rightarrow> bool"
  for norm_path env BRIGHT_TOKEN signals
where
  request: "bs_connected s \<Longrightarrow> \<not> bs_closed s \<Longrightarrow> \<not> bs_killed s \<Longrightarrow>
     handle_request stringify norm_path env BRIGHT_TOKEN spawn_child signals time req s = (reply, t) \<Longrightarrow>
     server_step norm_path env BRIGHT_TOKEN signals s t"
| child_error: "\<not> bs_killed s \<Longrightarrow> r < length (tl_entries (bs_tools s)) \<Longrightarrow>
     server_step norm_path env BRIGHT_TOKEN signals s (s\<lparr>bs_tools := on_error r message (bs_tools s)\<rparr>)"
| child_exit: "\<not> bs_killed s \<Longrightarrow> r < length (tl_entries (bs_tools s)) \<Longrightarrow> isRunning (tl_entries (bs_tools s) ! r) \<Longrightarrow>
     server_step norm_path env BRIGHT_TOKEN signals s (exit_server r exitCode signal time s)"
| grace: "\<not> bs_killed s \<Longrightarrow> r \<in> set (tl_starting (bs_tools s)) \<Longrightarrow>
     server_step norm_path env BRIGHT_TOKEN signals s (s\<lparr>bs_tools := grace_over r (bs_tools s)\<rparr>)"
| stop_wait_over: "\<not> bs_killed s \<Longrightarrow> (r, phase) \<in># mset (tl_stopping (bs_tools s)) - closing_waits s \<Longrightarrow>
     server_step norm_path env BRIGHT_TOKEN signals s (s\<lparr>bs_tools := stop_timeout r phase (bs_tools s)\<rparr>)"
| close_wait_over: "\<not> bs_killed s \<Longrightarrow> k < length (bs_closing s) \<Longrightarrow> (r, phase) \<in> set (bs_closing s ! k) \<Longrightarrow>
     server_step norm_path env BRIGHT_TOKEN signals s (close_timeout k r phase s)"
| signalled: "\<not> bs_killed s \<Longrightarrow> sig \<in> {''SIGINT'', ''SIGTERM''} \<Longrightarrow>
     server_step norm_path env BRIGHT_TOKEN signals s (on_signal signals sig s)"
| closes: "\<not> bs_killed s \<Longrightarrow> [] \<in> set (bs_closing s) \<Longrightarrow>
     server_step norm_path env BRIGHT_TOKEN signals s (finish_close s)"

abbreviation server_reach ::
  "(string \<Rightarrow> string) \<Rightarrow> process_env \<Rightarrow> string option \<Rightarrow> string list \<Rightarrow> mcp_server \<Rightarrow> mcp_server \<Rightarrow> bool"
where
  "server_reach norm_path env BRIGHT_TOKEN signals s t \<equiv>
     (server_step norm_path env BRIGHT_TOKEN signals)\<^sup>*\<^sup>* s t"


section \<open>What the tools do under the server\<close>

text \<open>Once exited, a process stays so; signals sent are not forgotten; the ids are not empty.\<close>

definition later_tools :: "tools \<Rightarrow> tools \<Rightarrow> bool" where
  "later_tools s t \<longleftrightarrow>
     length (tl_entries s) \<le> length (tl_entries t) \<and> set (tl_kills s) \<subseteq> set (tl_kills t) \<and>
     (\<forall>r < length (tl_entries s). en_id (tl_entries t ! r) = en_id (tl_entries s ! r) \<and>
        (\<not> isRunning (tl_entries s ! r) \<longrightarrow> \<not> isRunning (tl_entries t ! r))) \<and>
     (\<forall>r < length (tl_entries t). length (tl_entries s) \<le> r \<longrightarrow> en_id (tl_entries t ! r) \<noteq> [])"

lemma later_tools_refl [simp]: "later_tools s s"
  by (simp add: later_tools_def)

lemma later_tools_same: "tl_entries t = tl_entries s \<Longrightarrow> set (tl_kills s) \<subseteq> set (tl_kills t) \<Longrightarrow> later_tools s t"
  by (simp add: later_tools_def)

lemma fail_start_sel [simp]:
  "tl_entries (fail_start r err s) = tl_entries s" "tl_kills (fail_start r err s) = tl_kills s"
  "tl_stopping (fail_start r err s) = tl_stopping s"
  by (simp_all add: fail_start_def Let_def answers_def)

lemma grace_over_sel [simp]:
  "tl_entries (grace_over r s) = tl_entries s" "tl_kills (grace_over r s) = tl_kills s"
  "tl_stopping (grace_over r s) = tl_stopping s"
  by (simp_all add: grace_over_def answers_def)

lemma on_error_sel [simp]: "tl_kills (on_error r m s) = tl_kills s" "tl_stopping (on_error r m s) = tl_stopping s"
  by (simp_all add: on_error_def Let_def upd_entry_def)

lemma on_exit_sel [simp]:
  "tl_kills (on_exit r c g n s) = tl_kills s" "tl_stopping (on_exit r c g n s) = filter (\<lambda>(q, _). q \<noteq> r) (tl_stopping s)"
  by (simp_all add: on_exit_def Let_def upd_entry_def)

lemma on_exit_entries:
  "tl_entries (on_exit r c g n s) = (tl_entries s)[r := (tl_entries s ! r)\<lparr>en_exitedAt := Some n, en_exitCode := Some c\<rparr>]"
  by (simp add: on_exit_def Let_def upd_entry_def)

lemma stop_timeout_sel:
  "tl_entries (stop_timeout r phase s) = tl_entries s"
  "tl_kills (stop_timeout r phase s) =
     tl_kills s @ (if phase = Terminating \<and> isRunning (tl_entries s ! r) then [(r, ''SIGKILL'')] else [])"
  "tl_stopping (stop_timeout r phase s) =
     remove1 (r, phase) (tl_stopping s) @ (if phase = Terminating \<and> isRunning (tl_entries s ! r) then [(r, Killing)] else [])"
  by (simp_all add: stop_timeout_def Let_def answers_def)

lemma nth_update_at: "q < length xs \<Longrightarrow> xs[r := y] ! q = (if r = q then y else xs ! q)"
  by simp

lemma later_on_error: "later_tools s (on_error r m s)"
  by (auto simp: later_tools_def on_error_def Let_def upd_entry_def nth_update_at isRunning_def)

lemma later_on_exit: "later_tools s (on_exit r c g n s)"
  by (auto simp: later_tools_def on_exit_entries nth_update_at isRunning_def)

lemma later_stop_tool: "stop_tool signals inp s = Inr t \<Longrightarrow> later_tools s t"
  by (erule stop_tool_Inr) (auto intro!: later_tools_same simp: answers_def)

lemma later_tools_trans: "later_tools s t \<Longrightarrow> later_tools t u \<Longrightarrow> later_tools s u"
proof -
  assume a: "later_tools s t" and b: "later_tools t u"
  have "en_id (tl_entries u ! r) \<noteq> []" if "r < length (tl_entries u)" "length (tl_entries s) \<le> r" for r
    using a b that unfolding later_tools_def by (cases "r < length (tl_entries t)") auto
  with a b show ?thesis unfolding later_tools_def by fastforce
qed

text \<open>The calls \<open>stopAll\<close> makes.\<close>

definition running_refs :: "tools \<Rightarrow> string list \<Rightarrow> nat list" where
  "running_refs s keys = filter (\<lambda>r. isRunning (tl_entries s ! r)) (List.map_filter (sget (tl_processes s)) keys)"

lemma set_map_filter: "set (List.map_filter f xs) = {y. \<exists>x \<in> set xs. f x = Some y}"
  by (induction xs) (auto simp: map_filter_simps split: option.splits)

lemma stop_each_sel:
  assumes "''SIGTERM'' \<in> set signals" and "\<forall>i \<in> set keys. i \<noteq> []"
  shows "let t = foldl (\<lambda>t i. case stop_tool signals \<lparr>si_id = Some i, si_signal = None, si_timeoutMs = None\<rparr> t of
              Inl _ \<Rightarrow> t | Inr t' \<Rightarrow> t') s keys in
    tl_stopping t = tl_stopping s @ map (\<lambda>r. (r, Terminating)) (running_refs s keys) \<and>
    tl_kills t = tl_kills s @ map (\<lambda>r. (r, ''SIGTERM'')) (running_refs s keys)"
  using assms(2)
proof (induction keys arbitrary: s)
  case (Cons i keys)
  let ?t = "case stop_tool signals \<lparr>si_id = Some i, si_signal = None, si_timeoutMs = None\<rparr> s of Inl _ \<Rightarrow> s | Inr t' \<Rightarrow> t'"
  have frame: "tl_entries ?t = tl_entries s" "tl_processes ?t = tl_processes s"
    by (auto split: sum.splits dest: stop_tool_frame)
  have "tl_stopping ?t = tl_stopping s @ map (\<lambda>r. (r, Terminating)) (running_refs s [i]) \<and>
      tl_kills ?t = tl_kills s @ map (\<lambda>r. (r, ''SIGTERM'')) (running_refs s [i])"
    using Cons.prems assms(1)
    by (auto simp: stop_tool_def requireId_def requireEntry_def running_refs_def map_filter_simps answers_def Let_def
        split: option.splits)
  moreover have "running_refs ?t keys = running_refs s keys" by (simp only: running_refs_def frame)
  moreover have "running_refs s (i # keys) = running_refs s [i] @ running_refs s keys"
    by (simp add: running_refs_def map_filter_simps split: option.splits)
  ultimately show ?case using Cons.IH [of ?t] Cons.prems by (simp add: Let_def)
qed (simp add: running_refs_def map_filter_simps)

lemma stopAll_sel:
  assumes "''SIGTERM'' \<in> set signals" and "\<forall>i \<in> set (map fst (tl_processes s)). i \<noteq> []"
  shows "tl_stopping (stopAll signals s) =
      tl_stopping s @ map (\<lambda>r. (r, Terminating)) (running_refs s (map fst (tl_processes s)))"
    "tl_kills (stopAll signals s) = tl_kills s @ map (\<lambda>r. (r, ''SIGTERM'')) (running_refs s (map fst (tl_processes s)))"
  using stop_each_sel [OF assms, of s] by (simp_all add: stopAll_def Let_def)

lemma later_mcp_step:
  assumes "mcp_step norm_path env BRIGHT_TOKEN signals s t"
  shows "later_tools s t"
  using assms
proof cases
  case (run_called spawn_child time inp token)
  from run_called show ?thesis
    by (cases rule: run_tool_Inr) (auto simp: later_tools_def nth_append less_Suc_eq)
next
  case all_stopped
  have "later_tools s (foldl (\<lambda>t i. case stop_tool signals (f i) t of Inl _ \<Rightarrow> t | Inr t' \<Rightarrow> t') s keys)" for f keys
  proof (induction keys arbitrary: s)
    case (Cons i keys)
    have "later_tools s (case stop_tool signals (f i) s of Inl _ \<Rightarrow> s | Inr t' \<Rightarrow> t')"
      by (auto split: sum.splits intro: later_stop_tool)
    then show ?case using Cons.IH later_tools_trans by fastforce
  qed simp
  then show ?thesis by (simp add: all_stopped stopAll_def)
qed (auto intro: later_stop_tool later_on_error later_on_exit later_tools_same simp: stop_timeout_sel)

lemma handle_request_tools:
  assumes "handle_request stringify norm_path env BRIGHT_TOKEN spawn_child signals time req s = (reply, t)"
  shows "t = s \<or> (\<exists>u. t = s\<lparr>bs_tools := u\<rparr> \<and> mcp_step norm_path env BRIGHT_TOKEN signals (bs_tools s) u \<and>
    mset (tl_stopping (bs_tools s)) \<subseteq># mset (tl_stopping u))"
proof -
  have "mset (tl_stopping (bs_tools s)) \<subseteq># mset (tl_stopping u)"
    if "run_tool norm_path env BRIGHT_TOKEN spawn_child time inp token (bs_tools s) = Inr u" for inp token u
    using that by (cases rule: run_tool_Inr) simp
  moreover have "mset (tl_stopping (bs_tools s)) \<subseteq># mset (tl_stopping u)"
    if "stop_tool signals inp (bs_tools s) = Inr u" for inp u
    using that by (cases rule: stop_tool_Inr) (simp_all add: answers_def)
  ultimately show ?thesis
    using assms
    by (auto simp: handle_request_def executeTool_def intro: run_called stop_called
        split: mcp_request.splits tool_input.splits sum.splits tool_outcome.splits)
qed

text \<open>The invariant: the waits of \<open>close\<close> are waits of the tools; before a signal nothing closes.\<close>

definition server_inv :: "mcp_server \<Rightarrow> bool" where
  "server_inv s \<longleftrightarrow>
     mcp_inv (bs_tools s) \<and> (\<forall>e \<in> set (tl_entries (bs_tools s)). en_id e \<noteq> []) \<and>
     closing_waits s \<subseteq># mset (tl_stopping (bs_tools s)) \<and>
     (bs_handled s = [] \<longrightarrow> bs_closing s = [] \<and> \<not> bs_closed s) \<and>
     (bs_closed s \<longrightarrow> bs_exitCode s = Some 0)"

lemma server_inv_start: "server_inv (snd (mcp_handler info g))"
  by (simp add: server_inv_def mcp_handler_def start_server_def new_server_def closing_waits_def inv_no_tools)
    (simp add: no_tools_def)

lemma named_later:
  assumes "later_tools s t" and "\<forall>e \<in> set (tl_entries s). en_id e \<noteq> []"
  shows "\<forall>e \<in> set (tl_entries t). en_id e \<noteq> []"
proof
  fix e assume "e \<in> set (tl_entries t)"
  then obtain r where "r < length (tl_entries t)" "e = tl_entries t ! r" by (metis in_set_conv_nth)
  with assms show "en_id e \<noteq> []" unfolding later_tools_def by (cases "r < length (tl_entries s)") auto
qed

lemma sum_filter: "sum_list (map mset (map (filter P) ws)) = filter_mset P (sum_list (map mset ws))"
  by (induction ws) simp_all

lemma sum_update:
  "k < length ws \<Longrightarrow> sum_list (map mset (ws[k := w])) + mset (ws ! k) = sum_list (map mset ws) + mset w"
  for ws :: "'a list list"
  by (induction ws arbitrary: k) (auto split: nat.splits)

lemma sum_remove_Nil: "sum_list (map mset (remove1 [] ws)) = sum_list (map mset ws)"
  by (induction ws) simp_all

lemma closing_member: "k < length (bs_closing s) \<Longrightarrow> x \<in> set (bs_closing s ! k) \<Longrightarrow> x \<in># closing_waits s"
  by (force simp: closing_waits_def in_set_conv_nth simp flip: sum_mset_sum_list)

text \<open>A step of the server is a step of the tools, or leaves them alone.\<close>

lemma server_step_tools:
  assumes "server_step norm_path env BRIGHT_TOKEN signals s t" and "server_inv s"
  shows "bs_tools t = bs_tools s \<or> mcp_step norm_path env BRIGHT_TOKEN signals (bs_tools s) (bs_tools t)"
  using assms(1)
proof cases
  case request
  then show ?thesis using handle_request_tools by fastforce
next
  case (stop_wait_over r phase)
  then show ?thesis using in_diffD by (fastforce intro: wait_over)
next
  case (close_wait_over k r phase)
  then have "(r, phase) \<in> set (tl_stopping (bs_tools s))"
    using closing_member [of k s] assms(2) mset_subset_eqD unfolding server_inv_def by fastforce
  then show ?thesis unfolding close_wait_over(1) by (simp add: close_timeout_def Let_def wait_over)
next
  case (signalled sig)
  then show ?thesis by (auto simp: on_signal_def begin_close_def Let_def intro: all_stopped)
qed (auto simp: exit_server_def finish_close_def intro: mcp_step.child_error mcp_step.child_exit mcp_step.grace)

lemma swap_waits:
  fixes A :: "'a multiset"
  assumes "A + B = C + (B - X + Y)" and "X \<subseteq># B" and "X \<subseteq># C"
  shows "A = C - X + Y"
proof (rule multiset_eqI)
  fix a
  have "count A a + count B a = count C a + (count B a - count X a + count Y a)"
    using arg_cong [where f = "\<lambda>m. count m a", OF assms(1)] by simp
  moreover have "count X a \<le> count B a" "count X a \<le> count C a" using assms(2,3) by (simp_all add: subseteq_mset_def)
  ultimately show "count A a = count (C - X + Y) a" by simp
qed

lemma sum_close_timeout:
  assumes "k < length (bs_closing s)" and "(r, phase) \<in> set (bs_closing s ! k)"
  shows "closing_waits (close_timeout k r phase s) =
    closing_waits s - {#(r, phase)#} +
      (if phase = Terminating \<and> isRunning (tl_entries (bs_tools s) ! r) then {#(r, Killing)#} else {#})"
proof (rule swap_waits)
  show "closing_waits (close_timeout k r phase s) + mset (bs_closing s ! k) =
      closing_waits s + (mset (bs_closing s ! k) - {#(r, phase)#} +
        (if phase = Terminating \<and> isRunning (tl_entries (bs_tools s) ! r) then {#(r, Killing)#} else {#}))"
    using sum_update [OF assms(1)] by (simp add: closing_waits_def close_timeout_def Let_def)
qed (use assms closing_member [OF assms] in simp_all)

lemma spare_wait: "x \<in># M - C \<Longrightarrow> C \<subseteq># M \<Longrightarrow> C \<subseteq># M - {#x#}" for M :: "'a multiset"
  by (auto simp: subseteq_mset_def in_diff_count)

lemma drop_wait: "C \<subseteq># M \<Longrightarrow> C - X + Y \<subseteq># M - X + Y" for M :: "'a multiset"
  by (simp add: subseteq_mset_def diff_le_mono)

lemma stopAll_appends: "\<exists>xs. tl_stopping (stopAll signals s) = tl_stopping s @ xs"
proof -
  have "\<exists>xs. tl_stopping (foldl (\<lambda>t i. case stop_tool signals (f i) t of Inl _ \<Rightarrow> t | Inr t' \<Rightarrow> t') s keys) = tl_stopping s @ xs"
    for f and keys :: "string list"
  proof (induction keys arbitrary: s)
    case (Cons i keys)
    have "\<exists>xs. tl_stopping (case stop_tool signals (f i) s of Inl _ \<Rightarrow> s | Inr t' \<Rightarrow> t') = tl_stopping s @ xs"
      by (auto simp: answers_def split: sum.splits elim!: stop_tool_Inr)
    then show ?case using Cons.IH [of "case stop_tool signals (f i) s of Inl _ \<Rightarrow> s | Inr t' \<Rightarrow> t'"] by auto
  qed simp
  then show ?thesis by (simp add: stopAll_def)
qed

lemma waits_step:
  assumes "server_step norm_path env BRIGHT_TOKEN signals s t" and "closing_waits s \<subseteq># mset (tl_stopping (bs_tools s))"
  shows "closing_waits t \<subseteq># mset (tl_stopping (bs_tools t))"
  using assms(1)
proof cases
  case request
  then show ?thesis
    using handle_request_tools [OF request(4)] assms(2) subset_mset.order_trans
    by (fastforce simp: closing_waits_def)
next
  case (child_exit r)
  have "closing_waits t = filter_mset (\<lambda>(q, _). q \<noteq> r) (closing_waits s)"
    by (simp add: child_exit(1) closing_waits_def exit_server_def sum_filter del: map_map)
  then show ?thesis using multiset_filter_mono [OF assms(2)] by (simp add: child_exit(1) exit_server_def)
next
  case (stop_wait_over r phase)
  have "closing_waits s \<subseteq># mset (tl_stopping (bs_tools s)) - {#(r, phase)#}"
    using spare_wait [OF stop_wait_over(3) assms(2)] .
  then show ?thesis
    unfolding stop_wait_over(1) by (auto simp: closing_waits_def stop_timeout_sel intro: subset_mset.order_trans)
next
  case (close_wait_over k r phase)
  show ?thesis
    unfolding close_wait_over(1) sum_close_timeout [OF close_wait_over(3,4)] 
    using drop_wait [OF assms(2), of "{#(r, phase)#}"] drop_wait [OF assms(2), of "{#(r, phase)#}" "{#}"]
    by (auto simp: close_timeout_def Let_def stop_timeout_sel)
next
  case (signalled sig)
  obtain xs where xs: "tl_stopping (stopAll signals (bs_tools s)) = tl_stopping (bs_tools s) @ xs"
    using stopAll_appends by blast
  then show ?thesis
    using assms(2) unfolding signalled(1)
    by (simp add: on_signal_def begin_close_def closing_waits_def Let_def)
qed (use assms(2) in \<open>simp_all add: closing_waits_def finish_close_def sum_remove_Nil\<close>)

lemma server_inv_step:
  assumes "server_inv s" and "server_step norm_path env BRIGHT_TOKEN signals s t"
  shows "server_inv t"
proof -
  have inv: "mcp_inv (bs_tools s)" "\<forall>e \<in> set (tl_entries (bs_tools s)). en_id e \<noteq> []"
    "closing_waits s \<subseteq># mset (tl_stopping (bs_tools s))"
    using assms(1) by (auto simp: server_inv_def)
  have "mcp_inv (bs_tools t)" "later_tools (bs_tools s) (bs_tools t)"
    using server_step_tools [OF assms(2,1)] inv(1) inv_mcp_step later_mcp_step by auto
  moreover have "(bs_handled t = [] \<longrightarrow> bs_closing t = [] \<and> \<not> bs_closed t) \<and> (bs_closed t \<longrightarrow> bs_exitCode t = Some 0)"
    using assms(2)
  proof cases
    case request
    then show ?thesis using handle_request_tools [OF request(4)] assms(1) by (auto simp: server_inv_def)
  next
    case close_wait_over
    then show ?thesis using assms(1) by (auto simp: server_inv_def close_timeout_def Let_def)
  next
    case closes
    then show ?thesis using assms(1) by (auto simp: server_inv_def finish_close_def)
  qed (use assms(1) in \<open>auto simp: server_inv_def exit_server_def on_signal_def begin_close_def Let_def\<close>)
  ultimately show ?thesis
    using named_later [OF _ inv(2)] waits_step [OF assms(2) inv(3)] by (simp add: server_inv_def)
qed

interpretation server_sys: step_system "server_step norm_path env BRIGHT_TOKEN signals" server_inv
  for norm_path env BRIGHT_TOKEN signals
  by unfold_locales (rule server_inv_step)


section \<open>Shutdown\<close>

text \<open>A process that has exited or was sent the signal it cannot ignore.\<close>

definition ended :: "tools \<Rightarrow> nat \<Rightarrow> bool" where
  "ended s r \<longleftrightarrow> \<not> isRunning (tl_entries s ! r) \<or> (r, ''SIGKILL'') \<in> set (tl_kills s)"

text \<open>Of the processes \<open>R\<close>, a \<open>close\<close> waits for those that have not ended; a closed server has none left.\<close>

definition awaits :: "nat set \<Rightarrow> tools \<Rightarrow> (nat \<times> stop_phase) list \<Rightarrow> bool" where
  "awaits R s ws \<longleftrightarrow>
     (\<forall>r \<in> R. ended s r \<or> r \<in> fst ` set ws) \<and>
     (\<forall>r. (r, Killing) \<in> set ws \<longrightarrow> (r, ''SIGKILL'') \<in> set (tl_kills s))"

definition waited :: "nat set \<Rightarrow> mcp_server \<Rightarrow> bool" where
  "waited R s \<longleftrightarrow>
     R \<subseteq> {..<length (tl_entries (bs_tools s))} \<and> (\<forall>ws \<in> set (bs_closing s). awaits R (bs_tools s) ws) \<and>
     (bs_closed s \<longrightarrow> (\<forall>r \<in> R. ended (bs_tools s) r))"

lemma ended_later: "later_tools s t \<Longrightarrow> r < length (tl_entries s) \<Longrightarrow> ended s r \<Longrightarrow> ended t r"
  by (auto simp: later_tools_def ended_def)

lemma awaits_later:
  "later_tools s t \<Longrightarrow> R \<subseteq> {..<length (tl_entries s)} \<Longrightarrow> awaits R s ws \<Longrightarrow> awaits R t ws"
  using ended_later by (auto simp: awaits_def later_tools_def subset_iff)

lemma awaits_drop: "awaits R s ws \<Longrightarrow> ended s r \<Longrightarrow> awaits R s (filter (\<lambda>(q, _). q \<noteq> r) ws)"
  unfolding awaits_def by fastforce

lemma remove1_others: "q \<noteq> r \<Longrightarrow> q \<in> fst ` set (remove1 (r, p) ws) \<longleftrightarrow> q \<in> fst ` set ws"
  by (auto simp: image_iff)

lemma awaits_remove1: "awaits R s ws \<Longrightarrow> ended s r \<Longrightarrow> awaits R s (remove1 (r, p) ws)"
  unfolding awaits_def using remove1_others notin_set_remove1 by metis

lemma awaits_Killing:
  "awaits R s ws \<Longrightarrow> (r, ''SIGKILL'') \<in> set (tl_kills s) \<Longrightarrow> awaits R s (ws @ [(r, Killing)])"
  by (auto simp: awaits_def)

lemma waited_later:
  assumes "waited R s" and "later_tools (bs_tools s) (bs_tools t)" and "bs_closed t = bs_closed s"
    and "\<And>ws. ws \<in> set (bs_closing t) \<Longrightarrow> awaits R (bs_tools t) ws"
  shows "waited R t"
  using assms ended_later [OF assms(2)] unfolding waited_def
  by (auto simp: later_tools_def subset_iff)

lemma table_named: "server_inv s \<Longrightarrow> \<forall>i \<in> set (map fst (tl_processes (bs_tools s))). i \<noteq> []"
proof
  fix i assume a: "server_inv s" and "i \<in> set (map fst (tl_processes (bs_tools s)))"
  then obtain r where "sget (tl_processes (bs_tools s)) i = Some r" by (metis list.set_map map_of_eq_None_iff not_None_eq)
  with a have "r < length (tl_entries (bs_tools s))" "en_id (tl_entries (bs_tools s) ! r) = i"
    by (auto simp: server_inv_def mcp_inv_def)
  with a show "i \<noteq> []" unfolding server_inv_def by (metis nth_mem)
qed

lemma stopAll_new:
  assumes "server_inv s" and "''SIGTERM'' \<in> set signals"
  shows "(r, Killing) \<notin> set (drop (length (tl_stopping (bs_tools s))) (tl_stopping (stopAll signals (bs_tools s))))"
  using stopAll_sel [OF assms(2) table_named [OF assms(1)]] by auto

lemma stopAll_running:
  assumes "server_inv s" and "''SIGTERM'' \<in> set signals" and "r < length (tl_entries (bs_tools s))"
    and "isRunning (tl_entries (bs_tools s) ! r)"
  shows "(r, Terminating) \<in> set (drop (length (tl_stopping (bs_tools s))) (tl_stopping (stopAll signals (bs_tools s)))) \<and>
    (r, ''SIGTERM'') \<in> set (tl_kills (stopAll signals (bs_tools s)))"
proof -
  let ?u = "bs_tools s"
  have inv: "mcp_inv ?u" using assms(1) by (simp add: server_inv_def)
  let ?k = "en_id (tl_entries ?u ! r)"
  have "sget (tl_processes ?u) ?k = Some r" using inv assms(3,4) by (simp add: mcp_inv_def)
  moreover from this have "?k \<in> set (map fst (tl_processes ?u))" by (metis list.set_map map_of_eq_None_iff option.distinct(1))
  ultimately have "r \<in> set (running_refs ?u (map fst (tl_processes ?u)))"
    using assms(4) unfolding running_refs_def set_filter set_map_filter by blast
  then show ?thesis using stopAll_sel [OF assms(2) table_named [OF assms(1)]] by simp
qed

lemma waited_step:
  assumes "server_inv s" and "waited R s" and "server_step norm_path env BRIGHT_TOKEN signals s t"
    and "''SIGTERM'' \<in> set signals"
  shows "waited R t"
proof -
  have later: "later_tools (bs_tools s) (bs_tools t)"
    using server_step_tools [OF assms(3,1)] later_mcp_step by auto
  have R: "R \<subseteq> {..<length (tl_entries (bs_tools s))}" using assms(2) by (simp add: waited_def)
  have old: "awaits R (bs_tools t) ws" if "ws \<in> set (bs_closing s)" for ws
    using awaits_later [OF later R] assms(2) that by (simp add: waited_def)
  note keep = waited_later [OF assms(2) later]
  show ?thesis
    using assms(3)
  proof cases
    case request
    then show ?thesis using keep old handle_request_tools [OF request(4)] by auto
  next
    case (child_exit r)
    have "ended (bs_tools t) r"
      using child_exit(3) by (simp add: child_exit(1) exit_server_def ended_def on_exit_entries isRunning_def)
    then have "awaits R (bs_tools t) ws" if "ws \<in> set (bs_closing t)" for ws
      using that old awaits_drop unfolding child_exit(1) exit_server_def by fastforce
    from keep [OF _ this] show ?thesis by (simp add: child_exit(1) exit_server_def)
  next
    case (close_wait_over k r phase)
    let ?ws = "bs_closing s ! k"
    have ws: "?ws \<in> set (bs_closing s)" using close_wait_over(3) by simp
    then have "phase = Terminating \<or> (r, ''SIGKILL'') \<in> set (tl_kills (bs_tools s))"
      using assms(2) close_wait_over(4) unfolding waited_def awaits_def by (cases phase) auto
    then have "ended (bs_tools t) r" "isRunning (tl_entries (bs_tools s) ! r) \<Longrightarrow> (r, ''SIGKILL'') \<in> set (tl_kills (bs_tools t))"
      by (auto simp: close_wait_over(1) close_timeout_def Let_def stop_timeout_sel ended_def)
    then have "awaits R (bs_tools t) (if phase = Terminating \<and> isRunning (tl_entries (bs_tools s) ! r)
        then remove1 (r, phase) ?ws @ [(r, Killing)] else remove1 (r, phase) ?ws)"
      using awaits_remove1 [OF old [OF ws]] awaits_Killing by simp
    then have "awaits R (bs_tools t) ws" if "ws \<in> set (bs_closing t)" for ws
      using that old set_update_subset_insert [of "bs_closing s" k] unfolding close_wait_over(1) close_timeout_def Let_def
      by (auto dest!: subsetD [OF set_update_subset_insert])
    from keep [OF _ this] show ?thesis by (simp add: close_wait_over(1) close_timeout_def Let_def)
  next
    case (signalled sig)
    show ?thesis
    proof (cases "sig \<in> set (bs_handled s)")
      case False
      let ?new = "drop (length (tl_stopping (bs_tools s))) (tl_stopping (stopAll signals (bs_tools s)))"
      have t: "bs_tools t = stopAll signals (bs_tools s)" "bs_closing t = bs_closing s @ [?new]" "bs_closed t = bs_closed s"
        using False by (simp_all add: signalled(1) on_signal_def begin_close_def Let_def)
      have "r \<in> fst ` set ?new" if "r \<in> R" "\<not> ended (bs_tools t) r" for r
      proof -
        have "isRunning (tl_entries (bs_tools s) ! r)" "r < length (tl_entries (bs_tools s))"
          using that R by (auto simp: t(1) ended_def stopAll_frame)
        then have "(r, Terminating) \<in> set ?new" using stopAll_running [OF assms(1,4)] by blast
        then show ?thesis by force
      qed
      then have "awaits R (bs_tools t) ?new" using stopAll_new [OF assms(1,4)] by (auto simp: awaits_def)
      then show ?thesis using keep old t(2,3) by auto
    qed (use keep old signalled in \<open>simp add: on_signal_def\<close>)
  next
    case closes
    then have "awaits R (bs_tools s) []" using assms(2) by (simp add: waited_def)
    then have "\<forall>r \<in> R. ended (bs_tools s) r" by (simp add: awaits_def)
    moreover have "\<forall>ws \<in> set (remove1 [] (bs_closing s)). awaits R (bs_tools s) ws"
      using assms(2) set_remove1_subset [of "[]" "bs_closing s"] unfolding waited_def by (meson subsetD)
    ultimately show ?thesis using R unfolding closes(1) by (simp add: waited_def finish_close_def)
  qed (use keep old in simp_all)
qed

text \<open>
  C9. A shutdown of the MCP server leaves no repeater behind that ran when it began: each is sent \<open>SIGTERM\<close>, and
  the server closes, with exit code 0, only after each has exited or was sent \<open>SIGKILL\<close>, whatever calls, events of
  processes, timers and further signals come in between.
\<close>

theorem mcp_shutdown_stops:
  assumes "''SIGTERM'' \<in> set signals"
    and "server_reach norm_path env BRIGHT_TOKEN signals (snd (mcp_handler info g)) s" and "bs_handled s = []"
    and "server_reach norm_path env BRIGHT_TOKEN signals (on_signal signals sig s) t" and "bs_closed t"
    and "sig \<in> {''SIGINT'', ''SIGTERM''}" and "\<not> bs_killed s"
    and "r < length (tl_entries (bs_tools s))" and "isRunning (tl_entries (bs_tools s) ! r)"
  shows "(r, ''SIGTERM'') \<in> set (tl_kills (bs_tools (on_signal signals sig s))) \<and>
    (\<not> isRunning (tl_entries (bs_tools t) ! r) \<or> (r, ''SIGKILL'') \<in> set (tl_kills (bs_tools t))) \<and>
    bs_exitCode t = Some 0"
proof -
  let ?u = "on_signal signals sig s"
  have inv: "server_inv s" using server_sys.steps_inv [OF assms(2) server_inv_start] .
  then have "bs_closing s = []" "\<not> bs_closed s" using assms(3) by (simp_all add: server_inv_def)
  then have "waited {r} s" using assms(8) by (simp add: waited_def)
  moreover have step: "server_step norm_path env BRIGHT_TOKEN signals s ?u" by (rule signalled [OF assms(7,6)])
  ultimately have "waited {r} ?u" using waited_step [OF inv _ _ assms(1)] by blast
  moreover have u: "server_inv ?u" by (rule server_inv_step [OF inv step])
  ultimately have "waited {r} t"
    using server_sys.steps_stable [OF assms(4), of "waited {r}"] waited_step [OF _ _ _ assms(1)] by blast
  then have "ended (bs_tools t) r" using assms(5) by (simp add: waited_def)
  moreover have "(r, ''SIGTERM'') \<in> set (tl_kills (bs_tools ?u))"
    using stopAll_running [OF inv assms(1,8,9)] assms(3) by (simp add: on_signal_def begin_close_def Let_def)
  moreover have "bs_exitCode t = Some 0"
    using server_sys.steps_inv [OF assms(4) u] assms(5) by (simp add: server_inv_def)
  ultimately show ?thesis by (simp add: ended_def)
qed

fun wait_weight :: "nat \<times> stop_phase \<Rightarrow> nat" where
  "wait_weight (r, Terminating) = 2"
| "wait_weight (r, Killing) = 1"

definition waits_left :: "(nat \<times> stop_phase) list \<Rightarrow> nat" where
  "waits_left ws = sum_list (map wait_weight ws)"

lemma waits_left_timeout:
  "(r, phase) \<in> set ws \<Longrightarrow>
   waits_left (if phase = Terminating \<and> b then remove1 (r, phase) ws @ [(r, Killing)] else remove1 (r, phase) ws) <
   waits_left ws"
  by (cases phase) (simp_all add: waits_left_def sum_list_map_remove1)

lemma shutdown_ends:
  assumes "bs_closing s \<noteq> []" and "\<not> bs_killed s"
  shows "\<exists>t. server_reach norm_path env BRIGHT_TOKEN signals s t \<and> bs_closed t \<and> bs_exitCode t = Some 0 \<and>
    tl_entries (bs_tools t) = tl_entries (bs_tools s) \<and> bs_handled t = bs_handled s"
  using assms
proof (induction "waits_left (hd (bs_closing s))" arbitrary: s rule: less_induct)
  case less
  let ?step = "server_step norm_path env BRIGHT_TOKEN signals"
  have hd: "hd (bs_closing s) = bs_closing s ! 0" using less.prems(1) by (rule hd_conv_nth)
  show ?case
  proof (cases "hd (bs_closing s)")
    case Nil
    then have "?step s (finish_close s)" using less.prems by (intro closes) (metis hd_in_set)+
    then have "?step\<^sup>*\<^sup>* s (finish_close s)" by blast
    moreover have "bs_closed (finish_close s)" "bs_exitCode (finish_close s) = Some 0"
        "bs_tools (finish_close s) = bs_tools s" "bs_handled (finish_close s) = bs_handled s"
      by (simp_all add: finish_close_def)
    ultimately show ?thesis by metis
  next
    case (Cons x xs)
    obtain r phase where x: "x = (r, phase)" by fastforce
    let ?u = "close_timeout 0 r phase s"
    have step: "?step s ?u"
      using less.prems Cons x hd by (intro close_wait_over) auto
    have "hd (bs_closing ?u) = (if phase = Terminating \<and> isRunning (tl_entries (bs_tools s) ! r)
        then remove1 (r, phase) (bs_closing s ! 0) @ [(r, Killing)] else remove1 (r, phase) (bs_closing s ! 0))"
      using less.prems(1) by (cases "bs_closing s") (simp_all add: close_timeout_def Let_def)
    then have "waits_left (hd (bs_closing ?u)) < waits_left (hd (bs_closing s))"
      using waits_left_timeout [of r phase "bs_closing s ! 0"] Cons x hd by simp
    moreover have "bs_closing ?u \<noteq> []" "\<not> bs_killed ?u" "tl_entries (bs_tools ?u) = tl_entries (bs_tools s)"
        "bs_handled ?u = bs_handled s"
      using less.prems by (simp_all add: close_timeout_def Let_def stop_timeout_sel)
    ultimately obtain t where "?step\<^sup>*\<^sup>* ?u t" "bs_closed t" "bs_exitCode t = Some 0"
        "tl_entries (bs_tools t) = tl_entries (bs_tools s)" "bs_handled t = bs_handled s"
      using less.hyps [of ?u] by auto
    with step show ?thesis by (meson converse_rtranclp_into_rtranclp)
  qed
qed

text \<open>
  C10. A shutdown that has begun can always end by its own timers: even if no process ever exits and no call is
  made, the server closes.
\<close>

theorem mcp_shutdown_ends:
  assumes "bs_closing s \<noteq> []" and "\<not> bs_killed s"
  shows "\<exists>t. server_reach norm_path env BRIGHT_TOKEN signals s t \<and> bs_closed t \<and> bs_exitCode t = Some 0 \<and>
    tl_entries (bs_tools t) = tl_entries (bs_tools s) \<and> bs_handled t = bs_handled s"
  by (rule shutdown_ends [OF assms])

text \<open>A repeater started while the server shuts down is left behind: nothing stops it.\<close>

theorem late_start_survives:
  "\<exists>s. server_reach id sample_env None [''SIGTERM''] (snd (mcp_handler info g)) s \<and> bs_closed s \<and>
     length (tl_entries (bs_tools s)) = 1 \<and> isRunning (tl_entries (bs_tools s) ! 0) \<and> tl_kills (bs_tools s) = []"
proof -
  let ?step = "server_step id sample_env None [''SIGTERM'']"
  obtain t where t: "sample_run = Inr t" and run: "length (tl_entries t) = 1" "isRunning (tl_entries t ! 0)" "tl_kills t = []"
    by (simp add: sample_run_def run_tool_def requireId_def buildArgs_def resolveToken_def addValue_def no_tools_def
        isRunning_def Let_def)
  define s0 where "s0 = snd (mcp_handler info g)"
  define s1 where "s1 = on_signal [''SIGTERM''] ''SIGINT'' s0"
  define s2 where "s2 = s1\<lparr>bs_tools := t\<rparr>"
  have s0: "bs_connected s0" "\<not> bs_closed s0" "\<not> bs_killed s0" "bs_tools s0 = no_tools" "bs_handled s0 = []" "bs_closing s0 = []"
    by (simp_all add: s0_def mcp_handler_def start_server_def new_server_def)
  have s1: "bs_connected s1" "\<not> bs_closed s1" "\<not> bs_killed s1" "bs_tools s1 = no_tools" "bs_closing s1 = [[]]"
    using s0 by (simp_all add: s1_def on_signal_def begin_close_def Let_def stopAll_def) (simp_all add: no_tools_def)
  have "?step s0 s1" unfolding s1_def by (rule signalled) (use s0 in simp_all)
  moreover have "?step s1 s2"
  proof (rule request)
    show "handle_request (\<lambda>_. []) id sample_env None (\<lambda>_. Inr None) [''SIGTERM''] 0
        (Call_Tool (Some ''k8'') (Run_Input \<lparr>ri_id = Some ''a'', ri_hostname = None\<rparr>)) s1 = (None, s2)"
      using t by (simp add: handle_request_def executeTool_def s1 s2_def sample_run_def)
  qed (use s1 in simp_all)
  moreover have "?step s2 (finish_close s2)" by (rule closes) (simp_all add: s2_def s1)
  ultimately have "?step\<^sup>*\<^sup>* s0 (finish_close s2)" by (meson rtranclp.rtrancl_into_rtrancl rtranclp.rtrancl_refl)
  moreover have "bs_closed (finish_close s2)" "bs_tools (finish_close s2) = t" by (simp_all add: finish_close_def s2_def)
  ultimately show ?thesis using run unfolding s0_def by metis
qed


section \<open>Examples\<close>

text \<open>A server with one repeater, interrupted.\<close>

theorem mcp_shutdown_stops_witness:
  "\<exists>s t. server_reach id sample_env None [''SIGTERM''] (on_signal [''SIGTERM''] ''SIGINT'' s) t \<and> bs_closed t \<and>
     length (tl_entries (bs_tools s)) = 1 \<and> (0, ''SIGTERM'') \<in> set (tl_kills (bs_tools (on_signal [''SIGTERM''] ''SIGINT'' s)))"
proof -
  let ?step = "server_step id sample_env None [''SIGTERM'']" and ?sig = "[''SIGTERM'']"
  let ?info = "\<lparr>ci_cwd = [], ci_version = None, ci_distribution = None\<rparr>"
  define s0 where "s0 = snd (mcp_handler ?info (new_logger None None no_options))"
  obtain t where t: "sample_run = Inr t" and run: "length (tl_entries t) = 1" "isRunning (tl_entries t ! 0)"
    by (simp add: sample_run_def run_tool_def requireId_def buildArgs_def resolveToken_def addValue_def no_tools_def
        isRunning_def Let_def)
  define s where "s = s0\<lparr>bs_tools := t\<rparr>"
  have s0: "bs_connected s0" "\<not> bs_closed s0" "\<not> bs_killed s0" "bs_tools s0 = no_tools" "bs_handled s0 = []"
    by (simp_all add: s0_def mcp_handler_def start_server_def new_server_def)
  have "?step s0 s"
  proof (rule request)
    show "handle_request (\<lambda>_. []) id sample_env None (\<lambda>_. Inr None) ?sig 0
        (Call_Tool (Some ''k8'') (Run_Input \<lparr>ri_id = Some ''a'', ri_hostname = None\<rparr>)) s0 = (None, s)"
      using t by (simp add: handle_request_def executeTool_def s0 s_def sample_run_def)
  qed (use s0 in simp_all)
  then have reach: "?step\<^sup>*\<^sup>* (snd (mcp_handler ?info (new_logger None None no_options))) s" unfolding s0_def by blast
  have "bs_closing (on_signal ?sig ''SIGINT'' s) \<noteq> []" "\<not> bs_killed (on_signal ?sig ''SIGINT'' s)"
    using s0 by (simp_all add: s_def on_signal_def begin_close_def Let_def)
  from shutdown_ends [OF this] obtain u where u: "?step\<^sup>*\<^sup>* (on_signal ?sig ''SIGINT'' s) u" "bs_closed u" by blast
  have "(0, ''SIGTERM'') \<in> set (tl_kills (bs_tools (on_signal ?sig ''SIGINT'' s)))"
    using mcp_shutdown_stops [OF _ reach _ u, of 0] run s0 by (simp add: s_def)
  then show ?thesis using u run by (intro exI [of _ s] exI [of _ u]) (simp add: s_def)
qed

theorem mcp_shutdown_ends_witness:
  "\<exists>t. server_reach id sample_env None [''SIGTERM'']
     (on_signal [''SIGTERM''] ''SIGINT'' (new_server \<lparr>ci_cwd = [], ci_version = None, ci_distribution = None\<rparr>)) t \<and> bs_closed t"
proof -
  let ?u = "on_signal [''SIGTERM''] ''SIGINT'' (new_server \<lparr>ci_cwd = [], ci_version = None, ci_distribution = None\<rparr>)"
  have "bs_closing ?u \<noteq> []" "\<not> bs_killed ?u" by (simp_all add: on_signal_def begin_close_def new_server_def Let_def)
  from mcp_shutdown_ends [OF this] show ?thesis by blast
qed

end
