(* ===== verification/Program.thy ===== *)
theory Program
  imports Config Commands Wizard
begin

text \<open>
  A run of the program: the middlewares of \<open>src/Config/CliBuilder.ts\<close>, the system configuration manager that is
  created for the cluster of the arguments, error reporting, and the handler of the command inside; and the
  handler of the command \<open>configure\<close> with its signals.  The
  argument parser and Sentry are third-party packages: the parsed arguments are a parameter, and of Sentry
  the calls made are kept.
\<close>

section \<open>The system configuration manager\<close>

record config_client =
  cc_baseURL :: string
  cc_timeout :: nat
  cc_path :: string

definition new_config_manager :: "string \<Rightarrow> string \<Rightarrow> config_client" where
  "new_config_manager homedir baseURL =
     \<lparr>cc_baseURL = baseURL, cc_timeout = 1500, cc_path = homedir @ ''/.brightclirc''\<rparr>"

text \<open>\<open>get\<close> is the HTTP client: base URL, time limit and path give the data of the answer, or an error.\<close>

type_synonym config_service = "string \<Rightarrow> nat \<Rightarrow> string \<Rightarrow> string option option js_result"

definition fetchNewConfig :: "config_service \<Rightarrow> config_client \<Rightarrow> string option option" where
  "fetchNewConfig get m =
     (case get (cc_baseURL m) (cc_timeout m) ''/api/v1/cli/config'' of Inr data \<Rightarrow> data | Inl _ \<Rightarrow> None)"

text \<open>A moment at which the manager may rotate: the times, the service then, and whether the file can be written.\<close>

record moment =
  mo_read :: int
  mo_check :: int
  mo_write :: int
  mo_service :: config_service
  mo_writable :: bool

definition rotation_at :: "config_client \<Rightarrow> moment \<Rightarrow> rotation" where
  "rotation_at m t =
     \<lparr>ro_read = mo_read t, ro_check = mo_check t, ro_write = mo_write t, ro_answer = fetchNewConfig (mo_service t) m,
      ro_writable = mo_writable t\<rparr>"

text \<open>The loop runs while it is enabled: each moment comes with the flag it finds.\<close>

definition enableBackgroundRotation ::
  "bool \<Rightarrow> config_client \<Rightarrow> (bool \<times> moment) list \<Rightarrow> disk \<Rightarrow> int list \<times> string option list \<times> disk"
where
  "enableBackgroundRotation production m wakes d =
     runBackgroundRotation production (map (rotation_at m \<circ> snd) (takeWhile fst wakes)) d"


section \<open>Error reporting\<close>

record sentry =
  sy_inits :: "string option list"
  sy_context :: "(string, string option) store option"

definition initSentry :: "string option \<Rightarrow> sentry \<Rightarrow> sentry" where
  "initSentry dsn st = st\<lparr>sy_inits := sy_inits st @ [dsn]\<rparr>"

definition event_context :: "sentry \<Rightarrow> (string, string option) store option" where
  "event_context st = map_option beforeSend (sy_context st)"

text \<open>The environment of a run; \<open>pn_wakes\<close> are the moments of the background rotation.\<close>

record run_env =
  pn_production :: bool
  pn_SENTRY_DSN :: "string option"
  pn_homedir :: string
  pn_parse :: url_parser
  pn_start :: moment
  pn_wakes :: "(bool \<times> moment) list"

definition wrapWithSentry ::
  "run_env \<Rightarrow> string \<Rightarrow> (string, string option) store \<Rightarrow> 'r \<Rightarrow> disk \<Rightarrow> 'r \<times> sentry \<times> disk"
where
  "wrapWithSentry env api args outcome d =
     (let m = new_config_manager (pn_homedir env) api;
          (dsn, _, d1) = read_config (pn_production env) (pn_SENTRY_DSN env) (rotation_at m (pn_start env)) d;
          st = (initSentry dsn \<lparr>sy_inits = [], sy_context = None\<rparr>)\<lparr>sy_context := Some args\<rparr>;
          (_, rotated, d2) = enableBackgroundRotation (pn_production env) m (pn_wakes env) d1
      in (outcome, fold initSentry rotated st, d2))"


section \<open>The program\<close>

record program_args =
  pa_cluster :: cluster_args
  pa_log :: log_args
  pa_all :: "(string, string option) store"

definition cluster_middleware :: "url_parser \<Rightarrow> cluster_args \<Rightarrow> (string, string option) store \<Rightarrow> (string, string option) store" where
  "cluster_middleware parse a args =
     (let u = getClusterUrls parse a
      in sset ''repeaterServer'' (Some (cu_repeaterServer u)) (sset ''api'' (Some (cu_api u)) args))"

text \<open>
  A run: the middlewares, then the wrapped handler, which gets the URLs of the cluster; its outcome, the logger
  it finds, the state of Sentry and the file at the end.
\<close>

definition run_program ::
  "run_env \<Rightarrow> (cluster_urls \<Rightarrow> 'r) \<Rightarrow> program_args \<Rightarrow> logger \<Rightarrow> disk \<Rightarrow> 'r \<times> logger \<times> sentry \<times> disk"
where
  "run_program env handler a g d =
     (let urls = getClusterUrls (pn_parse env) (pa_cluster a);
          args = cluster_middleware (pn_parse env) (pa_cluster a) (pa_all a);
          g' = log_middlewares (pa_log a) g;
          (res, st, d') = wrapWithSentry env (cu_api urls) args (handler urls) d
      in (res, g', st, d'))"

definition run_scan_program ::
  "run_env \<Rightarrow> uri_decoder \<Rightarrow> string \<Rightarrow> scan_service \<Rightarrow> scan_args \<Rightarrow> program_args \<Rightarrow> logger \<Rightarrow> disk \<Rightarrow>
     (command_result \<times> scan_request list) \<times> logger \<times> sentry \<times> disk"
where
  "run_scan_program env decode version service sa =
     run_program env (\<lambda>urls. run_scan_handler (pn_parse env) decode version service
       (sa\<lparr>sa_api := (sa_api sa)\<lparr>aa_api := cu_api urls\<rparr>\<rparr>))"


section \<open>The command \<open>configure\<close>\<close>

text \<open>
  A session at the terminal: the lines typed, and after how many steps of the wizard a signal arrives, if one does;
  one that arrives while the wizard waits for a line, or after its end, counts as well.  A result without an
  ending still waits for input.
\<close>

record session =
  sn_out :: "string list"
  sn_err :: "string list"
  sn_files :: files
  sn_log :: "log_line list"
  sn_ending :: "ending option"

definition stopped :: "session \<Rightarrow> session" where
  "stopped st = st\<lparr>sn_ending := Some (Exit 0)\<rparr>"

primrec wizard_session :: "wizard \<Rightarrow> nat option \<Rightarrow> string list \<Rightarrow> session \<Rightarrow> session" where
  "wizard_session End sig ls st = (if sig \<noteq> None then stopped st else st\<lparr>sn_ending := Some Returns\<rparr>)"
| "wizard_session (Throw e) sig ls st =
     (if sig = Some 0 then stopped st
      else st\<lparr>sn_log := sn_log st @ cr_log (failed ''configure'' e Exit), sn_ending := Some (Exit 1)\<rparr>)"
| "wizard_session (Write t w) sig ls st =
     (if sig = Some 0 then stopped st
      else wizard_session w (map_option (\<lambda>n. n - 1) sig) ls (st\<lparr>sn_out := sn_out st @ [t]\<rparr>))"
| "wizard_session (Complain t w) sig ls st =
     (if sig = Some 0 then stopped st
      else wizard_session w (map_option (\<lambda>n. n - 1) sig) ls (st\<lparr>sn_err := sn_err st @ [t]\<rparr>))"
| "wizard_session (Save fs w) sig ls st =
     (if sig = Some 0 then stopped st
      else wizard_session w (map_option (\<lambda>n. n - 1) sig) ls (st\<lparr>sn_files := fs\<rparr>))"
| "wizard_session (Ask k) sig ls st =
     (if sig = Some 0 then stopped st
      else case ls of
        [] \<Rightarrow> (if sig \<noteq> None then stopped st else st)
      | l # ls' \<Rightarrow> wizard_session (k l) (map_option (\<lambda>n. n - 1) sig) ls' st)"

definition configure_handler ::
  "wizard_env \<Rightarrow> (nat \<Rightarrow> ping_event list) \<Rightarrow> bool \<Rightarrow> bool \<Rightarrow> nat option \<Rightarrow> string list \<Rightarrow> files \<Rightarrow> session"
where
  "configure_handler env schedule ping traceroute sig ls fs =
     wizard_session (wizard_start env schedule ping traceroute fs) sig ls
       \<lparr>sn_out = [], sn_err = [], sn_files = fs, sn_log = [], sn_ending = None\<rparr>"


section \<open>Properties\<close>

lemma rotate_file:
  "ro_writable r \<Longrightarrow> \<exists>b fetches f'. rotateIfNecessary production r (Stored f) = (b, fetches, Stored f') \<and>
     (b \<or> sf_sentryDsn f' = sf_sentryDsn f)"
  by (cases "needsRotation production (ro_check r) f"; cases "ro_answer r")
    (auto simp: rotateIfNecessary_def getConfigFile_def updateConfigFile_def Let_def)

text \<open>What the loop handed on last is what the file holds, if every write succeeds.\<close>

lemma rotation_syncs:
  assumes "\<forall>r \<in> set rs. ro_writable r"
  shows "let (_, handed, d) = runBackgroundRotation production rs (Stored f) in
    \<exists>f'. d = Stored f' \<and> last (sf_sentryDsn f # handed) = sf_sentryDsn f'"
  using assms
proof (induction rs arbitrary: f)
  case (Cons r rs)
  obtain b fetches f1 where step: "rotateIfNecessary production r (Stored f) = (b, fetches, Stored f1)"
    "b \<or> sf_sentryDsn f1 = sf_sentryDsn f"
    using rotate_file Cons.prems by (metis list.set_intros(1))
  show ?case
    using Cons.IH [of f1] Cons.prems step
    by (auto simp: getConfigFile_def Let_def split: prod.splits)
qed simp

lemma read_syncs:
  assumes "ro_writable r" and "read_config production SENTRY_DSN r (Stored f) = (dsn, fetches, d)"
  shows "\<exists>f'. d = Stored f' \<and> dsn = nullish (sf_sentryDsn f') SENTRY_DSN"
  using rotate_file [OF assms(1), of production f] assms(2) by (auto simp: read_config_def getConfigFile_def)

text \<open>
  Errors are reported where the configuration on disk says: with a writable file, whatever the service answers and
  however long the command runs, the address Sentry was initialised with last is the one in the file at the
  end, or, if the file has none, possibly that of the environment.
\<close>

theorem sentry_follows_file:
  assumes "mo_writable (pn_start env)" and "\<forall>w \<in> set (pn_wakes env). mo_writable (snd w)"
    and "run_program env handler a g (Stored f) = (res, g', st, d)"
  shows "\<exists>f'. d = Stored f' \<and> sy_inits st \<noteq> [] \<and>
    last (sy_inits st) \<in> {sf_sentryDsn f', nullish (sf_sentryDsn f') (pn_SENTRY_DSN env)}"
proof -
  let ?api = "cu_api (getClusterUrls (pn_parse env) (pa_cluster a))"
  let ?m = "new_config_manager (pn_homedir env) ?api"
  let ?rs = "map (rotation_at ?m \<circ> snd) (takeWhile fst (pn_wakes env))"
  obtain dsn x d1 where read: "read_config (pn_production env) (pn_SENTRY_DSN env) (rotation_at ?m (pn_start env)) (Stored f) =
      (dsn, x, d1)" by (metis prod_cases3)
  obtain f1 where f1: "d1 = Stored f1" "dsn = nullish (sf_sentryDsn f1) (pn_SENTRY_DSN env)"
    using read_syncs [OF _ read] assms(1) by (auto simp: rotation_at_def)
  obtain y handed d2 where rot: "runBackgroundRotation (pn_production env) ?rs (Stored f1) = (y, handed, d2)"
    by (metis prod_cases3)
  have "\<forall>r \<in> set ?rs. ro_writable r" using assms(2) by (auto simp: rotation_at_def dest!: set_takeWhileD)
  from rotation_syncs [OF this, of "pn_production env" f1] rot
  obtain f2 where f2: "d2 = Stored f2" "last (sf_sentryDsn f1 # handed) = sf_sentryDsn f2" by auto
  have inits: "sy_inits (fold initSentry ds s) = sy_inits s @ ds" for ds s
    by (induction ds arbitrary: s) (simp_all add: initSentry_def)
  have "d = d2" "sy_inits st = dsn # handed"
    using assms(3) read rot f1(1)
    by (auto simp: run_program_def wrapWithSentry_def enableBackgroundRotation_def Let_def inits initSentry_def)
  then show ?thesis using f2 f1(2) by (auto split: if_splits)
qed

text \<open>A token in the arguments is not in what is reported about them.\<close>

lemma token_not_reported:
  assumes "run_program env handler a g d0 = (res, g', st, d)"
  shows "\<exists>args. event_context st = Some args \<and>
    sget args ''token'' \<in> {Some None, Some (Some []), Some (Some ''[Filtered]'')} \<and>
    sget args ''api'' = Some (Some (cu_api (getClusterUrls (pn_parse env) (pa_cluster a))))"
proof -
  have ctx: "sy_context (fold initSentry ds s) = sy_context s" for ds s
    by (induction ds arbitrary: s) (simp_all add: initSentry_def)
  have "sy_context st = Some (cluster_middleware (pn_parse env) (pa_cluster a) (pa_all a))"
    using assms by (auto simp: run_program_def wrapWithSentry_def Let_def ctx split: prod.splits)
  then show ?thesis
    by (auto simp: event_context_def beforeSend_def filtered_def truthy_iff cluster_middleware_def Let_def)
qed

lemma session_grows: "prefix (sn_out st) (sn_out (wizard_session w sig ls st))"
proof (induction w arbitrary: sig ls st)
  case (Write t w)
  show ?case using Write [of "st\<lparr>sn_out := sn_out st @ [t]\<rparr>"] by (auto simp: stopped_def dest: append_prefixD)
next
  case (Complain t w)
  show ?case using Complain [of "st\<lparr>sn_err := sn_err st @ [t]\<rparr>"] by (simp add: stopped_def)
next
  case (Save fs w)
  show ?case using Save [of "st\<lparr>sn_files := fs\<rparr>"] by (simp add: stopped_def)
next
  case (Ask k)
  then show ?case by (cases ls) (auto simp: stopped_def)
qed (simp_all add: stopped_def)

definition stops_well :: "wizard \<Rightarrow> nat \<Rightarrow> string list \<Rightarrow> session \<Rightarrow> bool" where
  "stops_well w n ls st \<longleftrightarrow>
     sn_ending (wizard_session w (Some n) ls st) \<in> {Some (Exit 0), Some (Exit 1)} \<and>
     prefix (sn_out (wizard_session w (Some n) ls st)) (sn_out (wizard_session w None ls st))"

lemma stops_at_once: "stops_well w 0 ls st"
proof -
  have "wizard_session w (Some 0) ls st = stopped st" by (cases w) simp_all
  with session_grows [of st w None ls] show ?thesis by (simp add: stops_well_def stopped_def)
qed

lemma stops_any_time: "stops_well w n ls st"
proof (induction w arbitrary: n ls st)
  case (Ask k)
  show ?case
  proof (cases n)
    case (Suc m)
    then show ?thesis using Ask by (cases ls) (auto simp: stops_well_def stopped_def)
  qed (simp add: stops_at_once)
next
  case (Write t w)
  show ?case by (cases n) (simp add: stops_at_once, use Write in \<open>simp add: stops_well_def\<close>)
next
  case (Complain t w)
  show ?case by (cases n) (simp add: stops_at_once, use Complain in \<open>simp add: stops_well_def\<close>)
next
  case (Save fs w)
  show ?case by (cases n) (simp add: stops_at_once, use Save in \<open>simp add: stops_well_def\<close>)
qed (simp_all add: stops_well_def stopped_def)

text \<open>
  Whenever a signal arrives, the command ends: with exit code 0, or with 1 if the wizard had failed before.  What it
  had written until then is the beginning of what it writes without the signal.
\<close>

theorem configure_stops_on_signal:
  "let st = configure_handler env schedule ping traceroute (Some n) ls fs in
   sn_ending st \<in> {Some (Exit 0), Some (Exit 1)} \<and>
   prefix (sn_out st) (sn_out (configure_handler env schedule ping traceroute None ls fs))"
  using stops_any_time unfolding stops_well_def configure_handler_def Let_def by blast

end
