(* ===== verification/Network_Test.thy ===== *)
theory Network_Test
  imports Wizard
begin

text \<open>
  The network test as the cloud asks for it: the event, the child process that \<open>DefaultRepeaterCommandHub\<close> starts
  for it, the wizard that runs there, and the reply.  The theory \<open>Wizard\<close> has the wizard and the dialogue between
  the two processes; here they are composed, and the report of a traceroute is derived.
\<close>

section \<open>The event and its child\<close>

datatype network_test = Ping_Test "string list" | Traceroute_Test string

fun network_test_type :: "network_test \<Rightarrow> string" where
  "network_test_type (Ping_Test _) = ''ping''"
| "network_test_type (Traceroute_Test _) = ''traceroute''"

text \<open>\<open>[].concat(input)\<close>.\<close>

fun test_input :: "network_test \<Rightarrow> string list" where
  "test_input (Ping_Test urls) = urls"
| "test_input (Traceroute_Test url) = [url]"

definition diagnostic_args :: "network_test \<Rightarrow> string list" where
  "diagnostic_args t = [''configure'', ''--'' @ network_test_type t]"

definition diagnostic_child :: "(string \<Rightarrow> string) \<Rightarrow> process_env \<Rightarrow> network_test \<Rightarrow> spawn_call" where
  "diagnostic_child norm_path env t = spawn norm_path env (Some [''repeater'']) (Some (diagnostic_args t)) False"

text \<open>
  \<open>switch args name\<close> is the parameter for the argument parser: the value of a switch of the command line.
  \<open>start_error\<close> is the error of a process that cannot be started, if there is one.  \<open>None\<close>: there is no reply.
\<close>

definition run_network_test ::
  "(string list \<Rightarrow> string \<Rightarrow> bool) \<Rightarrow> url_parser \<Rightarrow> js_error option \<Rightarrow> wizard_env \<Rightarrow> (nat \<Rightarrow> ping_event list) \<Rightarrow> files \<Rightarrow>
     network_test \<Rightarrow> network_result option"
where
  "run_network_test switch parse start_error env schedule fs t =
     (case start_error of
        Some e \<Rightarrow> Some (testingNetwork (Inl e))
      | None \<Rightarrow>
          let args = diagnostic_args t in
          map_option testingNetwork
            (testNetwork parse (test_input t)
              (wizard_start env schedule (switch args ''ping'') (switch args ''traceroute'') fs) new_hub))"


section \<open>The command line of the child\<close>

lemma diagnostic_child_args:
  assumes "pe_argv env = node # script # rest" "script \<noteq> ''repeater''" "pe_platform env \<noteq> ''win32''"
  shows "sp_args (diagnostic_child norm_path env t) = pe_execArgv env @ script # diagnostic_args t"
  using assms by (cases t; cases "pe_pkg_entrypoint env")
    (simp_all add: diagnostic_child_def spawn_def getExecArgs_def diagnostic_args_def Let_def)

text \<open>A switch that is given is set and another one is not.\<close>

definition reads_switches :: "(string list \<Rightarrow> string \<Rightarrow> bool) \<Rightarrow> bool" where
  "reads_switches switch \<longleftrightarrow>
     (\<forall>a \<in> {''ping'', ''traceroute''}. \<forall>b \<in> {''ping'', ''traceroute''}. switch [''configure'', ''--'' @ a] b \<longleftrightarrow> a = b)"

lemma switch_of_test:
  assumes "reads_switches switch"
  shows "switch (diagnostic_args (Ping_Test us)) ''ping''" "\<not> switch (diagnostic_args (Ping_Test us)) ''traceroute''"
    "switch (diagnostic_args (Traceroute_Test u)) ''traceroute''" "\<not> switch (diagnostic_args (Traceroute_Test u)) ''ping''"
  using assms by (simp_all add: reads_switches_def diagnostic_args_def)


section \<open>The report of a traceroute\<close>

definition trace_intro :: string where
  "trace_intro = ''Traceroute to your INTERNAL (local) target application.''"

definition trace_verdict :: "bool \<Rightarrow> string" where
  "trace_verdict b = ''Traceroute '' @ (if b then ''completed'' else ''failed'') @ ''.''"

definition text_lines :: "string \<Rightarrow> string list" where
  "text_lines t = filter (\<lambda>l. l \<noteq> []) (split_on EOL t)"

lemma trace_chunks:
  "quiet_text (trace_intro @ EOL @ EOL)" "filter (\<lambda>l. l \<noteq> []) (split_on EOL (trace_intro @ EOL @ EOL)) = [trace_intro]"
  "quiet_text (trace_verdict b @ EOL)" "filter (\<lambda>l. l \<noteq> []) (split_on EOL (trace_verdict b @ EOL)) = [trace_verdict b]"
  by (code_simp, code_simp, (cases b; simp only:; code_simp)+)

lemma host_question_chunk:
  assumes "parse url = Some u"
  shows "hub_data parse [url] (HOST_OR_IP_QUESTION @ '': '') h =
    h\<lparr>nh_stdout := nh_stdout h @ [HOST_OR_IP_QUESTION @ '': ''], nh_stdin := nh_stdin h @ url_hostname u @ EOL\<rparr>"
proof -
  have "\<not> str_includes (HOST_OR_IP_QUESTION @ '': '') URLS_QUESTION" "str_includes (HOST_OR_IP_QUESTION @ '': '') HOST_OR_IP_QUESTION"
    "\<not> str_includes (HOST_OR_IP_QUESTION @ '': '') COMPELED_MESSAGE"
    "filter (\<lambda>l. l \<noteq> []) (split_on EOL (HOST_OR_IP_QUESTION @ '': '')) = [HOST_OR_IP_QUESTION @ '': '']"
    by code_simp+
  with assms show ?thesis by (simp add: hub_data_def Let_def)
qed

lemma testNetwork_writes:
  "\<forall>t \<in> set out. quiet_text t \<Longrightarrow>
    testNetwork parse inp (writes out w) h = testNetwork parse inp w (h\<lparr>nh_stdout := nh_stdout h @ concat (map text_lines out)\<rparr>)"
  by (induction out arbitrary: h) (simp_all add: hub_data_quiet text_lines_def)

text \<open>A line without the control character survives the clean-up.\<close>

lemma clean_plain: "\<forall>l \<in> set ls. CHR 0x1B \<notin> set l \<Longrightarrow> clean ls = ls"
proof (induction ls)
  case (Cons l ls)
  have p: "\<not> endsWith x retype \<and> x \<noteq> retype" if "CHR 0x1B \<notin> set x" for x
    using that set_mono_prefix [of "rev retype" "rev x"] by (auto simp: endsWith_def retype_def)
  have "\<not> (ls \<noteq> [] \<and> hd ls = retype)" using p Cons.prems by (cases ls) auto
  then show ?case using p [of l] Cons by simp
qed simp

lemma note_chunk: "quiet_text (win32_note @ EOL)" "filter (\<lambda>l. l \<noteq> []) (split_on EOL (win32_note @ EOL)) = text_lines win32_note"
  by (code_simp, code_simp)

text \<open>What the trace writes: nothing the repeater reacts to, and no control character.\<close>

definition plain_output :: "string list \<Rightarrow> bool" where
  "plain_output out \<longleftrightarrow> (\<forall>t \<in> set out. quiet_text t \<and> CHR 0x1B \<notin> set t)"

lemma plain_output_lines:
  assumes "plain_output out" "l \<in> set (concat (map text_lines out))"
  shows "CHR 0x1B \<notin> set l \<and> \<not> startsWith l URLS_QUESTION"
proof -
  obtain t where t: "t \<in> set out" "l \<in> set (split_on EOL t)" using assms(2) by (auto simp: text_lines_def)
  then have s: "sublist l t" by (intro split_on_part_sublist [of EOL]) (simp_all add: EOL_def)
  have q: "\<not> sublist URLS_QUESTION t" "CHR 0x1B \<notin> set t"
    using assms(1) t(1) by (auto simp: plain_output_def quiet_text_def str_includes_iff)
  have "\<not> sublist URLS_QUESTION l" using q(1) s sublist_order.order.trans by blast
  then have "\<not> startsWith l URLS_QUESTION" by (auto simp: startsWith_def dest: prefix_imp_sublist)
  with q(2) s show ?thesis by (auto dest: set_mono_sublist)
qed

definition trace_head :: "bool \<Rightarrow> string list" where
  "trace_head win32 =
     trace_intro # (if win32 then text_lines win32_note else []) @
     [HOST_OR_IP_QUESTION @ '': '', [CHR 0x0D] @ ''--'', ''Starting INTERNAL communication diagnostics:'']"

definition trace_tail :: "bool \<Rightarrow> string list" where
  "trace_tail b = [trace_verdict b, [CHR 0x0D] @ ''--'', COMPELED_MESSAGE]"

lemma fixed_trace_lines:
  "list_all (\<lambda>l. CHR 0x1B \<notin> set l \<and> \<not> startsWith l URLS_QUESTION) (trace_head w)"
  "list_all (\<lambda>l. CHR 0x1B \<notin> set l \<and> \<not> startsWith l URLS_QUESTION) (trace_tail b)"
  by (cases w; simp only:; code_simp) (cases b; simp only:; code_simp)

lemma processOutput_trace:
  assumes "plain_output out"
  shows "processOutput URLS_QUESTION (trace_head w @ concat (map text_lines out) @ trace_tail b) =
    join EOL (trace_head w @ concat (map text_lines out) @ trace_tail b)"
proof -
  let ?all = "trace_head w @ concat (map text_lines out) @ trace_tail b"
  have "CHR 0x1B \<notin> set l \<and> \<not> startsWith l URLS_QUESTION" if "l \<in> set ?all" for l
    using that fixed_trace_lines plain_output_lines [OF assms] unfolding list_all_iff set_append by blast
  then have "clean ?all = ?all" "filter (\<lambda>x. \<not> startsWith x URLS_QUESTION) ?all = ?all"
    by (simp_all add: clean_plain filter_id_conv del: map_append)
  then show ?thesis by (simp only: processOutput_clean)
qed

text \<open>
  A network test by traceroute: the wizard in the child traces the host of the URL the cloud sent, and the reply has
  every line the trace wrote, in order, and the verdict.  The prompt stays in the report: the clean-up knows only the
  question of the other test.
\<close>

theorem network_trace_reported:
  assumes "reads_switches switch" and "parse url = Some u" and "CHR 0x0A \<notin> set (url_hostname u)"
    and "T_TRACEROUTE \<in> set (we_registry env)" and "nw_socket (we_network env) = Inr ()"
    and "nw_trace (we_network env) (url_hostname u) (new_options (wz_probes (we_options env)) (wz_maxTTL (we_options env))) = (out, res)"
    and "plain_output out"
  shows "run_network_test switch parse None env schedule fs (Traceroute_Test url) =
    Some (Output (join EOL (trace_head (we_win32 env) @ concat (map text_lines out) @ trace_tail (verdict res))))"
proof -
  let ?all = "trace_head (we_win32 env) @ concat (map text_lines out) @ trace_tail (verdict res)"
  have line: "cut_at EOL (url_hostname u @ EOL) = Some (url_hostname u, [])"
    using cut_at_char_first [OF assms(3), of "[]"] by (simp add: EOL_def)
  have access: "verifyAccess env fs T_TRACEROUTE (Some (Target_Host (url_hostname u))) = (out, Inr (verdict res))"
    using assms(4-6) by (simp add: verifyAccess_def traceroute_test_def verdict_def)
  have quiet: "\<forall>t \<in> set out. quiet_text t" using assms(7) by (simp add: plain_output_def)
  have "testNetwork parse [url] (wizard_start env schedule False True fs) new_hub =
      Some (hub_close 0 (new_hub\<lparr>nh_stdout := ?all, nh_ended := True\<rparr>))"
    unfolding wizard_start_def processTraceroute_def Let_def if_True question_def console_log_def
      testNetwork.simps trace_intro_def [symmetric] trace_verdict_def [symmetric]
    by (cases "we_win32 env") (simp_all add: hub_data_quiet fixed_chunks trace_chunks note_chunk
        host_question_chunk [of parse url u, OF assms(2)] new_hub_def line access testNetwork_writes [OF quiet]
        last_chunk trace_head_def trace_tail_def)
  moreover have "?all \<noteq> []" by (simp add: trace_head_def)
  ultimately show ?thesis
    using processOutput_trace [OF assms(7)]
    by (simp add: run_network_test_def switch_of_test [OF assms(1)] hub_close_def testingNetwork_def del: map_append)
qed

text \<open>
  If the URL of the event cannot be parsed, the exception leaves the listener of the child's output: it is not turned
  into a reply, and the child never gets an answer to its question.
\<close>

theorem bad_url_never_answered:
  assumes "reads_switches switch" and "parse url = None"
  shows "run_network_test switch parse None env schedule fs (Traceroute_Test url) = None \<and>
    nh_uncaught (hub_data parse [url] (HOST_OR_IP_QUESTION @ '': '') h) = nh_uncaught h @ [type_error ''Invalid URL'']"
proof -
  have q: "\<not> str_includes (HOST_OR_IP_QUESTION @ '': '') URLS_QUESTION" "str_includes (HOST_OR_IP_QUESTION @ '': '') HOST_OR_IP_QUESTION"
    by code_simp+
  then have "nh_stdin (hub_data parse [url] (HOST_OR_IP_QUESTION @ '': '') g) = nh_stdin g" for g
    using assms(2) by (simp add: hub_data_def Let_def)
  moreover have "cut_at EOL [] = None" by (simp add: EOL_def)
  ultimately have "testNetwork parse [url] (wizard_start env schedule False True fs) new_hub = None"
    unfolding wizard_start_def processTraceroute_def Let_def if_True question_def console_log_def
      testNetwork.simps trace_intro_def [symmetric]
    by (cases "we_win32 env") (simp_all add: hub_data_quiet trace_chunks note_chunk new_hub_def)
  with q assms(2) show ?thesis
    by (simp add: run_network_test_def switch_of_test [OF assms(1)] hub_data_def Let_def)
qed


section \<open>An example\<close>

definition sample_switch :: "string list \<Rightarrow> string \<Rightarrow> bool" where
  "sample_switch args name \<longleftrightarrow> (''--'' @ name) \<in> set args"

lemma sample_switch_ok: "reads_switches sample_switch"
  by (simp add: reads_switches_def sample_switch_def)

theorem sample_trace_reported:
  "run_network_test sample_switch (we_parse sample_wizard) None sample_wizard (\<lambda>_. []) [] (Traceroute_Test ''a.example'') =
    Some (Output (join EOL [trace_intro, HOST_OR_IP_QUESTION @ '': '', [CHR 0x0D] @ ''--'',
      ''Starting INTERNAL communication diagnostics:'', ''Traceroute completed.'', [CHR 0x0D] @ ''--'', COMPELED_MESSAGE]))"
  using network_trace_reported [OF sample_switch_ok, of "we_parse sample_wizard" "''a.example''" _ sample_wizard "[]" "Inr True"]
  by (simp add: sample_wizard_def trace_head_def trace_tail_def trace_verdict_def verdict_def plain_output_def)

theorem sample_bad_url:
  "run_network_test sample_switch (\<lambda>_. None) None sample_wizard (\<lambda>_. []) [] (Traceroute_Test ''a'') = None"
  using bad_url_never_answered [OF sample_switch_ok, of "\<lambda>_. None" "''a''"] by simp

end
