(* ===== verification/Spec2Isabelle.thy ===== *)
theory Spec2Isabelle
  imports Helpers Pool Backoff Breakpoints Scan_Polling Abort_Polling Rest_Scans Rest_Discoveries
    Rest_EntryPoints Archives Error_Messages Repeater Mcp Cli Commands Repeater_Command Traceroute Ws_Executor Wizard
    Config Runtime Service Server_Events Wiring Mcp_Server Program Network_Test
begin

text \<open>
  Verification of the Bright command line client.

  \<^bold>\<open>The program.\<close>  The client starts, polls and stops security scans and discoveries of the Bright cloud
  through its REST interface, uploads specification files, and runs a \<^emph>\<open>repeater\<close>: a process next to the
  tested application that keeps a socket to the cloud open, executes the requests the cloud sends over
  it and returns the responses.  A command (\<open>src/Commands\<close>) parses its arguments, calls a service
  (\<open>src/Scan\<close>, \<open>src/Discovery\<close>, \<open>src/EntryPoint\<close>, \<open>src/Archive\<close>) and waits with one of the polling loops,
  whose requests are retried by \<open>Backoff\<close>.  The repeater (\<open>src/Repeater\<close>) hands each request to an
  executor (\<open>src/RequestExecutor\<close>), which applies a user script (\<open>src/Scripts\<close>), proxy, Kerberos and
  client certificates and cuts the response to the allowed size.  For a network test it starts the
  configuration wizard (\<open>src/Wizard\<close>) as a child process and answers its questions.  An MCP server
  (\<open>src/Mcp\<close>) starts and stops repeaters as child processes.  The command line is put together in
  \<open>src/Config\<close>, which also keeps a configuration fetched from the cloud.

  \<^bold>\<open>Conventions.\<close>  Strings are lists of code units up to 255 and also serve as byte buffers.  A throw or a
  rejected promise is \<open>Inl\<close> of the result type \<open>js_result\<close>, a value is \<open>Inr\<close>.  Objects and \<open>Map\<close>s whose
  order matters are insertion-ordered association lists (\<open>sget\<close>, \<open>sset\<close>, \<open>sdel\<close>, \<open>spread\<close> in
  \<open>Prelude\<close>; the laws are the locale \<open>keyed_store\<close>, interpreted there as \<open>js_map\<close>).  A call of a service
  takes the service as a parameter from requests to answers and returns the requests made next to the
  result.  Time is a number of milliseconds that advances with timers and with the latency of requests,
  a parameter.  Third-party code is a parameter as well: URL parsers, the JSON schema validator, semver,
  JSON and YAML readers, iconv, libcurl, the vm module, the socket libraries, raw sockets, the argument
  parser and the service manager of the system.  A step relation describes what may happen next to a state, in
  any order; the reachable states are its reflexive and transitive closure, and the locale \<open>step_system\<close> of
  \<open>Prelude\<close>, interpreted for each such relation, carries invariants along.

  \<^bold>\<open>Theories.\<close>
  \<^item> \<open>Prelude\<close>, \<open>Js_Text\<close>: results, stores, lists; the string functions of the language and POSIX paths.
  \<^item> \<open>Wildcards\<close>: \<open>Helpers.wildcardToRegExp\<close> with a matcher for the regular expressions it builds, proved
    equal to a direct wildcard match; the locale \<open>host_pattern\<close> is what the clients rely on.
  \<^item> \<open>Helpers\<close>, \<open>Pool\<close>: the static functions of \<open>src/Utils/Helpers.ts\<close>; the worker pool as a step relation
    over launched, settled and awaited jobs, in any order of completion.
  \<^item> \<open>Backoff\<close>: \<open>src/Utils/Backoff.ts\<close>; the locale \<open>retrier\<close> is the contract the polling loops use.
  \<^item> \<open>Breakpoints\<close>: \<open>src/Scan/Severity.ts\<close>, \<open>OnSeverity.ts\<close> and the factory.
  \<^item> \<open>Poll_Loop\<close>: timer, sleep and retried request of the polling loops, and the locale \<open>poller_loop\<close>
    with the termination and outcome of a loop; \<open>Scan_Polling\<close> (\<open>src/Scan/BasePolling.ts\<close>) and
    \<open>Abort_Polling\<close> (\<open>DiscoveryPolling.ts\<close>, \<open>HostUpdateJobStatusPolling.ts\<close>) interpret it.
  \<^item> \<open>Error_Messages\<close>: \<open>src/Utils/ErrorMessageFactory.ts\<close>.
  \<^item> \<open>Rest_Client\<close>: the clients of the REST services and their proxies; \<open>Rest_Scans\<close>, \<open>Rest_Discoveries\<close>,
    \<open>Rest_EntryPoints\<close>: \<open>RestScans.ts\<close>, \<open>RestDiscoveries.ts\<close>, \<open>RestEntryPoints.ts\<close>.
  \<^item> \<open>Archives\<close>: parsers, validators and upload of \<open>src/Archive\<close>.
  \<^item> \<open>Scripts\<close>: \<open>src/Scripts\<close> and \<open>DefaultRepeaterCommandHub.compileScripts\<close>.
  \<^item> \<open>Requests\<close>, \<open>Certs\<close>, \<open>Http_Executor\<close>, \<open>Ws_Executor\<close>: \<open>src/RequestExecutor\<close>; a web socket exchange is a
    reaction to the events of the socket and of a timer, in any order.
  \<^item> \<open>Repeater\<close>: \<open>DefaultRepeaterServer.ts\<close>, \<open>ServerRepeaterLauncher.ts\<close> and
    \<open>DefaultRepeaterCommandHub.ts\<close> as a step relation over socket events, timers, the
    signals of the command and the end of the service it runs as; the request events of the cloud and their replies.
  \<^item> \<open>Server_Events\<close>: the event emitter inside \<open>DefaultRepeaterServer\<close> and the launcher's subscriptions, proved to
    do what the step relation does.
  \<^item> \<open>Service\<close>: the repeater at work.  Launcher, command hub, both executors, the cache of certificates and the
    registry of scripts form one system in which any number of requests is served side by side; it refines the
    executors' \<open>execute\<close>.
  \<^item> \<open>Wiring\<close>: \<open>src/container.ts\<close>, what the middlewares of the commands register and what the constructors ask
    for, as data, with the relation of what can be constructed.
  \<^item> \<open>Cli\<close>: the options of all commands and the global ones, as data; \<open>Commands\<close>: checks, coercions and
    handlers of \<open>src/Commands\<close> with output and exit code, over the services and polling loops above;
    \<open>Repeater_Command\<close>: \<open>RunRepeater.ts\<close>.
  \<^item> \<open>Mcp\<close>: \<open>src/Mcp\<close>, the tools over a table of child processes as a step relation, with a refinement
    to an abstract table of at most one running process per id; the redaction of secrets.  \<open>Mcp_Server\<close>: the server
    around the tools and \<open>RunMcpServer.ts\<close>, with its shutdown on signals.
  \<^item> \<open>Traceroute\<close>: \<open>src/Utils/Traceroute.ts\<close>, packets over bytes and words, probing as a step relation over
    replies, duplicates, timers and look-ups.
  \<^item> \<open>Wizard\<close>: \<open>src/Wizard\<close> and \<open>Configure.ts\<close> as an interaction (a datatype of writes, questions and saved
    files), and \<open>DefaultRepeaterCommandHub.testNetwork\<close> running against it; \<open>Network_Test\<close>: the event that asks
    for a network test, the child process started for it, and the reply, for both kinds of test.
  \<^item> \<open>Config\<close>: \<open>src/Config\<close> and \<open>src/Utils/Logger.ts\<close>; \<open>Program\<close>: a run of the program, from the middlewares over
    error reporting to the handler of a command, and the handler of \<open>configure\<close> with its signals.
  \<^item> \<open>Os_Release\<close>: the regular expression that reads \<open>/etc/os-release\<close>, with a backtracking matcher; \<open>Runtime\<close>:
    services of the system, the runtime detector, socket options, the patched proxy agent and the zlib stream.

  \<^bold>\<open>What is shown.\<close>  The pool keeps its bound, loses no job and never deadlocks.  The polling loops stop
  only for a reason (a final answer, a reached breakpoint, an error that is not retried, the timeout)
  and do stop, with explicit bounds on the time.  The services send what the configuration says; paging
  neither loses nor repeats entries.  Files are accepted exactly under the stated conditions.  The
  executor sends the target verbatim, chooses proxy, Kerberos and certificates by host, and keeps
  responses within the limit.  The repeater's reachable states satisfy an invariant, and so do those of
  a web socket exchange, whose outcome is the first decisive event after the message was sent.  However requests,
  transfers, web sockets and events of the repeater interleave, every request accepted is answered at most
  once, with the response of a successful attempt or an error after all have failed, and can always still be
  answered.  Everything a command needs can be constructed from the container.  The
  command line is consistent; polling and starting a scan end with the exit codes they should.  The MCP
  tools refine a table of running processes and never reveal the token; a shutdown of the server waits until the
  repeaters it found have ended, and ends.  Packets of a trace are
  recognised in replies and errors, and an undisturbed trace ends within its bounds.  The report of a network
  test is what the wizard found, whatever the order of its tests, and that of a traceroute has every line of the
  trace.  Requests for the system
  configuration are at least an hour apart.  Regular expressions built from wildcards mean the wildcards, and the
  one for \<open>/etc/os-release\<close> reads what the file says.
  Several theorems state behaviour that differs from what the code means to do: the timer left armed after a
  rejected connection, headers of a discovery sent under the names 0, 1, 2, request options lost on
  the way through a script, certificates of one attempt leaking into the next, the precedence of scripts
  depending on the order of file reads, a process that could not be created blocking its id, a duplicated
  reply leading a trace beyond its maximum of hops, a question split over two chunks that is never
  answered, a URL that cannot be parsed and leaves a network test without a reply, replies lost while a web socket message is being sent, a system configuration that is never
  fetched without a file, log compression that cannot be switched off, a repeater started during a shutdown that
  is left behind, a handler subscribed twice that cannot be removed, and a system without a version whose
  pretty name is not used.

  \<^bold>\<open>Bounds and fuel.\<close>  The polling loops take fuel, the number of rounds.  The theorems on termination
  give fuel that is enough: the timeout in milliseconds plus two when there is a timeout, since each round
  waits at least a millisecond, and otherwise one more than the number of the first call with a final
  answer.  \<open>trace_run\<close> takes the number of packets; probes per hop times hops are enough.  No other
  definition uses fuel.

  \<^bold>\<open>Not modelled.\<close>  Third-party code as listed above, with the container library, Sentry and the transport of
  the MCP server; tracing over UDP, which nothing in the program selects; the set-up of the JSON schema
  validators; the help texts and examples of the command line; plain interfaces, whose operations are those
  of the classes that implement them; and the export files named \<open>index.ts\<close>.
\<close>

end
